theory Spec2Isabelle
  imports Main "HOL-Library.AList"
begin

section \<open>Exceptions\<close>

text \<open>
  A \<^verbatim>\<open>throw new McpError(code, message)\<close> is \<open>Inl (McpError code message)\<close>; any other
  exception is \<open>Inl (JsError code message)\<close> with the \<^verbatim>\<open>code\<close> property of a Node error
  (empty when it has none, as for a \<^verbatim>\<open>TypeError\<close> or a \<^verbatim>\<open>URIError\<close> of the language) and
  its \<^verbatim>\<open>message\<close>.
\<close>

datatype error_code = InvalidParams | InternalError | MethodNotFound

datatype err = McpError error_code string | JsError string string

section \<open>JavaScript values\<close>

text \<open>
  The server receives its tool arguments as parsed JSON and handles them as untyped
  JavaScript values (\<^verbatim>\<open>args: any\<close>). A value is modelled as a tree. \<open>JNum n\<close> is the
  number \<open>n\<close>, for an integer \<open>n\<close> between \<open>-2\<^sup>5\<^sup>3\<close> and \<open>2\<^sup>5\<^sup>3\<close>, the range in which every
  integer is a number and is printed as its decimal numeral (the two zeros are
  \<open>JNum 0\<close>: the program cannot tell them apart). \<open>JReal s\<close> is any other number, given
  by the text \<open>s\<close> that the language prints for it, as \<^verbatim>\<open>0.5\<close>, \<^verbatim>\<open>1e+21\<close> or \<^verbatim>\<open>Infinity\<close>: the
  program tests a number for zero and turns it into text, and does nothing else with
  it. A string is the list of its bytes in UTF-8 (ASCII text as it is); a lone
  surrogate, that is a code unit \<^verbatim>\<open>D800\<close> to \<^verbatim>\<open>DFFF\<close> that is not half of a pair, is the
  three bytes \<^verbatim>\<open>ED\<close>, \<^verbatim>\<open>A0\<close> to \<^verbatim>\<open>BF\<close>, \<^verbatim>\<open>80\<close> to \<^verbatim>\<open>BF\<close> of its generalised UTF-8 form.
  An object is the list of its properties in insertion order (array-index keys, which
  the engine would list first, are kept where they were inserted). \<open>JFun src\<close> is a
  function value with source text \<open>src\<close>: the only one the program creates is the gauge
  formatter.
\<close>

datatype jsval =
    JUndefined
  | JNull
  | JBool bool
  | JNum int
  | JReal string
  | JStr string
  | JArr "jsval list"
  | JObj "(string \<times> jsval) list"
  | JFun string

text \<open>Truthiness, as tested by \<^verbatim>\<open>!x\<close>, \<^verbatim>\<open>x || y\<close> and \<^verbatim>\<open>x && y\<close>.\<close>

fun truthy :: "jsval \<Rightarrow> bool" where
  "truthy JUndefined = False"
| "truthy JNull = False"
| "truthy (JBool b) = b"
| "truthy (JNum n) = (n \<noteq> 0)"
| "truthy (JReal s) = (s \<noteq> ''NaN'')"
| "truthy (JStr s) = (s \<noteq> [])"
| "truthy (JArr xs) = True"
| "truthy (JObj kvs) = True"
| "truthy (JFun src) = True"

fun isArray :: "jsval \<Rightarrow> bool" where
  "isArray (JArr xs) = True"
| "isArray v = False"

fun typeof :: "jsval \<Rightarrow> string" where
  "typeof JUndefined = ''undefined''"
| "typeof JNull = ''object''"
| "typeof (JBool b) = ''boolean''"
| "typeof (JNum n) = ''number''"
| "typeof (JReal s) = ''number''"
| "typeof (JStr s) = ''string''"
| "typeof (JArr xs) = ''object''"
| "typeof (JObj kvs) = ''object''"
| "typeof (JFun src) = ''function''"

text \<open>Decimal text of a number.\<close>

fun digits :: "nat \<Rightarrow> string" where
  "digits n =
     (if n < 10 then [''0123456789'' ! n]
      else digits (n div 10) @ [''0123456789'' ! (n mod 10)])"

declare digits.simps [simp del]

definition num_str :: "int \<Rightarrow> string" where
  "num_str n = (if n < 0 then CHR ''-'' # digits (nat (- n)) else digits (nat n))"

text \<open>
  Property access \<^verbatim>\<open>v.k\<close> for the property names the program reads (none of them is
  inherited from a prototype, so a primitive, an array or a function has none of them).
  On \<^verbatim>\<open>null\<close> and \<^verbatim>\<open>undefined\<close> the result is \<^verbatim>\<open>undefined\<close>, which is the meaning of
  \<^verbatim>\<open>v?.k\<close>; every plain access \<^verbatim>\<open>v.k\<close> of the source is reached only when \<^verbatim>\<open>v\<close> has
  been tested truthy, apart from one destructuring in the download handler, which is
  modelled there.
\<close>

fun get :: "jsval \<Rightarrow> string \<Rightarrow> jsval" where
  "get (JObj kvs) k = (case map_of kvs k of Some v \<Rightarrow> v | None \<Rightarrow> JUndefined)"
| "get v k = JUndefined"

text \<open>Indexed access \<^verbatim>\<open>v[i]\<close> (and \<^verbatim>\<open>v?.[i]\<close>).\<close>

fun elem_at :: "jsval \<Rightarrow> nat \<Rightarrow> jsval" where
  "elem_at (JArr xs) i = (if i < length xs then xs ! i else JUndefined)"
| "elem_at (JStr s) i = (if i < length s then JStr [s ! i] else JUndefined)"
| "elem_at (JObj kvs) i = get (JObj kvs) (digits i)"
| "elem_at v i = JUndefined"

fun join :: "string \<Rightarrow> string list \<Rightarrow> string" where
  "join sep [] = []"
| "join sep [x] = x"
| "join sep (x # y # ys) = x @ sep @ join sep (y # ys)"

text \<open>
  \<^verbatim>\<open>String(v)\<close>, also the conversion made by a template literal and by
  \<^verbatim>\<open>URLSearchParams.append\<close>. The conversion of an object looks up its \<^verbatim>\<open>toString\<close>: the
  inherited one gives \<^verbatim>\<open>[object Object]\<close>; an own property of that name, which in a
  parsed request is never a function, hides it, and the conversion throws a
  \<^verbatim>\<open>TypeError\<close>. An array converts its elements in turn. \<open>convertible\<close> says that the
  conversion returns, \<open>toString\<close> is the text it returns then, and \<open>String_of\<close> is the
  conversion with its exception.
\<close>

fun toString :: "jsval \<Rightarrow> string" where
  "toString JUndefined = ''undefined''"
| "toString JNull = ''null''"
| "toString (JBool b) = (if b then ''true'' else ''false'')"
| "toString (JNum n) = num_str n"
| "toString (JReal s) = s"
| "toString (JStr s) = s"
| "toString (JArr xs) =
     join '','' (map (\<lambda>x. if x = JUndefined \<or> x = JNull then [] else toString x) xs)"
| "toString (JObj kvs) = ''[object Object]''"
| "toString (JFun src) = src"

fun convertible :: "jsval \<Rightarrow> bool" where
  "convertible (JObj kvs) = (''toString'' \<notin> set (map fst kvs))"
| "convertible (JArr xs) = list_all convertible xs"
| "convertible v = True"

definition String_of :: "jsval \<Rightarrow> err + string" where
  "String_of v =
     (if convertible v then Inr (toString v)
      else Inl (JsError [] ''Cannot convert object to primitive value''))"

text \<open>The own enumerable properties copied by a spread \<^verbatim>\<open>{...v}\<close>.\<close>

fun spread :: "jsval \<Rightarrow> (string \<times> jsval) list" where
  "spread (JObj kvs) = kvs"
| "spread (JArr xs) = zip (map digits [0..<length xs]) xs"
| "spread (JStr s) = zip (map digits [0..<length s]) (map (\<lambda>c. JStr [c]) s)"
| "spread v = []"

text \<open>
  Writing properties into an object under construction: a key already there keeps its
  place and takes the new value, a new key goes to the end.
\<close>

definition assign :: "(string \<times> jsval) list \<Rightarrow> (string \<times> jsval) list \<Rightarrow> (string \<times> jsval) list" where
  "assign base ext = fold (\<lambda>kv. AList.update (fst kv) (snd kv)) ext base"

section \<open>Serialisation\<close>

text \<open>\<^verbatim>\<open>JSON.stringify\<close>: a property whose value is \<^verbatim>\<open>undefined\<close> or a function is left
  out, such an array element is written \<^verbatim>\<open>null\<close>, and at top level the result is
  \<^verbatim>\<open>undefined\<close> (\<open>None\<close>).\<close>

definition hexdigit :: "nat \<Rightarrow> char" where
  "hexdigit n = ''0123456789ABCDEF'' ! n"

definition hexdigit_lower :: "nat \<Rightarrow> char" where
  "hexdigit_lower n = ''0123456789abcdef'' ! n"

definition json_escape :: "char \<Rightarrow> string" where
  "json_escape c =
     (if c = CHR 0x22 then [CHR 0x5C, CHR 0x22]
      else if c = CHR 0x5C then [CHR 0x5C, CHR 0x5C]
      else if c = CHR 0x08 then [CHR 0x5C, CHR ''b'']
      else if c = CHR 0x0C then [CHR 0x5C, CHR ''f'']
      else if c = CHR 0x0A then [CHR 0x5C, CHR ''n'']
      else if c = CHR 0x0D then [CHR 0x5C, CHR ''r'']
      else if c = CHR 0x09 then [CHR 0x5C, CHR ''t'']
      else if (of_char c :: nat) < 32 then
        [CHR 0x5C, CHR ''u'', CHR ''0'', CHR ''0'',
         hexdigit_lower (of_char c div 16), hexdigit_lower (of_char c mod 16)]
      else [c])"

text \<open>
  The three bytes of a lone surrogate, and a string that holds one. The serialiser writes
  a lone surrogate as the escape \<^verbatim>\<open>\udXXX\<close> of its code unit, in lower case.
\<close>

definition surrogate_bytes :: "char \<Rightarrow> char \<Rightarrow> char \<Rightarrow> bool" where
  "surrogate_bytes a b c \<longleftrightarrow>
     a = CHR 0xED \<and> 0xA0 \<le> (of_char b :: nat) \<and> (of_char b :: nat) \<le> 0xBF
     \<and> 0x80 \<le> (of_char c :: nat) \<and> (of_char c :: nat) \<le> 0xBF"

fun lone_surrogate :: "string \<Rightarrow> bool" where
  "lone_surrogate (a # b # c # cs) = (surrogate_bytes a b c \<or> lone_surrogate (b # c # cs))"
| "lone_surrogate cs = False"

definition surrogate_escape :: "char \<Rightarrow> char \<Rightarrow> string" where
  "surrogate_escape b c =
     (let v = ((of_char b :: nat) - 0xA0) * 64 + ((of_char c :: nat) - 0x80)
      in [CHR 0x5C, CHR ''u'', CHR ''d'', hexdigit_lower (8 + v div 256),
          hexdigit_lower (v div 16 mod 16), hexdigit_lower (v mod 16)])"

fun quote_body :: "string \<Rightarrow> string" where
  "quote_body (a # b # c # cs) =
     (if surrogate_bytes a b c then surrogate_escape b c @ quote_body cs
      else json_escape a @ quote_body (b # c # cs))"
| "quote_body [a, b] = json_escape a @ quote_body [b]"
| "quote_body [a] = json_escape a"
| "quote_body [] = []"

definition json_quote :: "string \<Rightarrow> string" where
  "json_quote s = CHR 0x22 # quote_body s @ [CHR 0x22]"

fun JSON_stringify :: "jsval \<Rightarrow> string option" where
  "JSON_stringify JUndefined = None"
| "JSON_stringify (JFun src) = None"
| "JSON_stringify JNull = Some ''null''"
| "JSON_stringify (JBool b) = Some (if b then ''true'' else ''false'')"
| "JSON_stringify (JNum n) = Some (num_str n)"
| "JSON_stringify (JReal s) =
     Some (if s = ''Infinity'' \<or> s = ''-Infinity'' \<or> s = ''NaN'' then ''null'' else s)"
| "JSON_stringify (JStr s) = Some (json_quote s)"
| "JSON_stringify (JArr xs) =
     Some (''['' @ join '',''
       (map (\<lambda>x. case JSON_stringify x of None \<Rightarrow> ''null'' | Some s \<Rightarrow> s) xs) @ '']'')"
| "JSON_stringify (JObj kvs) =
     Some (''{'' @ join '',''
       (concat (map (\<lambda>kv. case JSON_stringify (snd kv) of
                               None \<Rightarrow> []
                             | Some s \<Rightarrow> [json_quote (fst kv) @ '':'' @ s]) kvs)) @ ''}'')"

text \<open>\<^verbatim>\<open>encodeURIComponent\<close>: a string that holds a lone surrogate makes it throw a
  \<^verbatim>\<open>URIError\<close>; in any other string every byte outside the unreserved set becomes
  \<^verbatim>\<open>%XX\<close>.\<close>

definition alnum :: "char \<Rightarrow> bool" where
  "alnum c \<longleftrightarrow>
     c \<in> set ''ABCDEFGHIJKLMNOPQRSTUVWXYZabcdefghijklmnopqrstuvwxyz0123456789''"

definition pct :: "char \<Rightarrow> string" where
  "pct c = [CHR ''%'', hexdigit (of_char c div 16), hexdigit (of_char c mod 16)]"

definition uri_unreserved :: "char \<Rightarrow> bool" where
  "uri_unreserved c \<longleftrightarrow> alnum c \<or> c \<in> set [CHR ''-'', CHR ''_'', CHR ''.'', CHR ''!'', CHR ''~'', CHR ''*'', CHR 0x27, CHR ''('', CHR '')'']"

definition pct_encode :: "string \<Rightarrow> string" where
  "pct_encode s = concat (map (\<lambda>c. if uri_unreserved c then [c] else pct c) s)"

definition encodeURIComponent :: "string \<Rightarrow> err + string" where
  "encodeURIComponent s =
     (if lone_surrogate s then Inl (JsError [] ''URI malformed'') else Inr (pct_encode s))"

text \<open>\<^verbatim>\<open>URLSearchParams.toString()\<close>: the form-urlencoded serialisation of the
  appended pairs, in the order of the appends. A name or a value is stored with every
  lone surrogate replaced by \<^verbatim>\<open>U+FFFD\<close>, whose bytes are \<^verbatim>\<open>EF BF BD\<close>.\<close>

fun usv :: "string \<Rightarrow> string" where
  "usv (a # b # c # cs) =
     (if surrogate_bytes a b c then [CHR 0xEF, CHR 0xBF, CHR 0xBD] @ usv cs
      else a # usv (b # c # cs))"
| "usv (a # cs) = a # usv cs"
| "usv [] = []"

definition form_byte :: "char \<Rightarrow> string" where
  "form_byte c =
     (if c = CHR '' '' then ''+''
      else if alnum c \<or> c \<in> set [CHR ''*'', CHR ''-'', CHR ''.'', CHR ''_''] then [c]
      else pct c)"

definition form_encode :: "string \<Rightarrow> string" where
  "form_encode s = concat (map form_byte (usv s))"

definition URLSearchParams_toString :: "(string \<times> string) list \<Rightarrow> string" where
  "URLSearchParams_toString params =
     join ''&'' (map (\<lambda>p. form_encode (fst p) @ ''='' @ form_encode (snd p)) params)"

section \<open>Configuration\<close>

text \<open>The three endpoint constants are read from the environment when the module is
  loaded.\<close>

record endpoints =
  QUICKCHART_BASE_URL :: string
  QUICKCHART_GRAPHVIZ_URL :: string
  QUICKCHART_WORDCLOUD_URL :: string

definition default_endpoints :: endpoints where
  "default_endpoints =
     \<lparr> QUICKCHART_BASE_URL = ''https://quickchart.io/chart'',
       QUICKCHART_GRAPHVIZ_URL = ''https://quickchart.io/graphviz'',
       QUICKCHART_WORDCLOUD_URL = ''https://quickchart.io/wordcloud'' \<rparr>"

section \<open>The builder: \<^verbatim>\<open>validateChartType\<close> and \<^verbatim>\<open>generateChartConfig\<close>\<close>

definition validTypes :: "string list" where
  "validTypes =
     [''bar'', ''line'', ''pie'', ''doughnut'', ''radar'',
      ''polarArea'', ''scatter'', ''bubble'', ''radialGauge'', ''speedometer'',
      ''graphviz'', ''wordcloud'']"

text \<open>\<^verbatim>\<open>validTypes.includes(type)\<close> compares with strict equality: only a string can
  be included.\<close>

fun array_includes :: "string list \<Rightarrow> jsval \<Rightarrow> bool" where
  "array_includes xs (JStr s) = (s \<in> set xs)"
| "array_includes xs v = False"

definition validateChartType :: "jsval \<Rightarrow> err + unit" where
  "validateChartType type =
     (if \<not> array_includes validTypes type then
        Inl (McpError InvalidParams
               (''Invalid chart type. Must be one of: '' @ join '', '' validTypes))
      else Inr ())"

text \<open>The callback of \<^verbatim>\<open>datasets.map\<close>.\<close>

definition normalizeDataset :: "jsval \<Rightarrow> err + jsval" where
  "normalizeDataset dataset =
     (if \<not> truthy dataset \<or> \<not> truthy (get dataset ''data'') then
        Inl (McpError InvalidParams ''Each dataset must have a data property'')
      else
        Inr (JObj (assign
          [(''label'', if truthy (get dataset ''label'') then get dataset ''label'' else JStr []),
           (''data'', get dataset ''data''),
           (''backgroundColor'', get dataset ''backgroundColor''),
           (''borderColor'', get dataset ''borderColor'')]
          (spread (if truthy (get dataset ''additionalConfig'')
                   then get dataset ''additionalConfig'' else JObj [])))))"

text \<open>\<^verbatim>\<open>Array.prototype.map\<close> with a callback that may throw: the first throw ends it.\<close>

fun map_throwing :: "('a \<Rightarrow> err + 'b) \<Rightarrow> 'a list \<Rightarrow> err + 'b list" where
  "map_throwing f [] = Inr []"
| "map_throwing f (x # xs) =
     (case f x of
        Inl e \<Rightarrow> Inl e
      | Inr y \<Rightarrow> (case map_throwing f xs of Inl e \<Rightarrow> Inl e | Inr ys \<Rightarrow> Inr (y # ys)))"

fun elements :: "jsval \<Rightarrow> jsval list" where
  "elements (JArr xs) = xs"
| "elements v = []"

definition formatter :: jsval where
  "formatter = JFun ''(value) => value''"

definition datalabels_plugins :: jsval where
  "datalabels_plugins =
     JObj [(''datalabels'', JObj [(''display'', JBool True), (''formatter'', formatter)])]"

text \<open>The \<^verbatim>\<open>options\<close> property of the configuration literal: the caller's options
  (an empty object when \<^verbatim>\<open>args.options\<close> is \<^verbatim>\<open>undefined\<close>), then the title block when
  \<^verbatim>\<open>args.title\<close> is truthy.\<close>

definition chart_options :: "jsval \<Rightarrow> (string \<times> jsval) list" where
  "chart_options args =
     (let title = get args ''title'';
          options = (case get args ''options'' of JUndefined \<Rightarrow> JObj [] | v \<Rightarrow> v)
      in assign (assign [] (spread options))
           (spread (if truthy title
                    then JObj [(''title'', JObj [(''display'', JBool True), (''text'', title)])]
                    else title)))"

text \<open>
  The body of \<^verbatim>\<open>generateChartConfig\<close> from the destructuring
  \<^verbatim>\<open>const { labels, datasets, title, options = {} } = args\<close> to its \<^verbatim>\<open>return config\<close>:
  the configuration literal, then the \<^verbatim>\<open>switch (type)\<close>. It is reached with
  \<^verbatim>\<open>args.datasets\<close> an array, and is the same text in all three source files.
\<close>

definition buildChartConfig :: "jsval \<Rightarrow> jsval \<Rightarrow> err + jsval" where
  "buildChartConfig type args =
     (let labels = get args ''labels'';
          datasets = get args ''datasets''
      in
      (case map_throwing normalizeDataset (elements datasets) of
         Inl e \<Rightarrow> Inl e
       | Inr normalized \<Rightarrow>
          (let data = JObj [(''labels'', if truthy labels then labels else JArr []),
                            (''datasets'', JArr normalized)];
               config_options = chart_options args
           in
           (if type = JStr ''radialGauge'' \<or> type = JStr ''speedometer'' then
              (if \<not> truthy (elem_at (get (elem_at datasets 0) ''data'') 0) then
                 Inl (McpError InvalidParams
                        (toString type @ '' requires a single numeric value''))
               else
                 Inr (JObj [(''type'', type), (''data'', data),
                            (''options'',
                               JObj (assign config_options
                                       [(''plugins'', datalabels_plugins)]))]))
            else if type = JStr ''scatter'' \<or> type = JStr ''bubble'' then
              (if \<not> list_all (\<lambda>dataset. isArray (elem_at (get dataset ''data'') 0))
                       (elements datasets) then
                 Inl (McpError InvalidParams
                        (toString type @ '' requires data points in [x, y''
                           @ (if type = JStr ''bubble'' then '', r'' else [])
                           @ ''] format''))
               else
                 Inr (JObj [(''type'', type), (''data'', data),
                            (''options'', JObj config_options)]))
            else
              Inr (JObj [(''type'', type), (''data'', data),
                         (''options'', JObj config_options)])))))"

definition generateChartConfig :: "jsval \<Rightarrow> err + jsval" where
  "generateChartConfig args =
     (if \<not> truthy args then
        Inl (McpError InvalidParams ''No arguments provided to generateChartConfig'')
      else if \<not> truthy (get args ''type'') then
        Inl (McpError InvalidParams ''Chart type is required'')
      else
        (let type = get args ''type'' in
         (case validateChartType type of
            Inl e \<Rightarrow> Inl e
          | Inr u \<Rightarrow>
             (if type = JStr ''graphviz'' \<or> type = JStr ''wordcloud'' then
                Inr (JObj [(''type'', type)])
              else if \<not> truthy (get args ''datasets'') \<or> \<not> isArray (get args ''datasets'') then
                Inl (McpError InvalidParams ''Datasets must be a non-empty array'')
              else buildChartConfig type args))))"

section \<open>The encoder: \<^verbatim>\<open>generateChartUrl\<close>\<close>

definition stringify_text :: "jsval \<Rightarrow> string" where
  "stringify_text v = (case JSON_stringify v of None \<Rightarrow> ''undefined'' | Some s \<Rightarrow> s)"

text \<open>
  The \<^verbatim>\<open>params.append\<close> lines of the word-cloud branch in their order: the guard of the
  line, the query name, and the value converted to a string, which is where the line
  may throw. \<^verbatim>\<open>JSON.stringify\<close> of a parsed value does not throw. The lines are run in
  turn, and the first exception ends them.
\<close>

definition wordcloud_appends :: "jsval \<Rightarrow> (bool \<times> string \<times> (err + string)) list" where
  "wordcloud_appends args =
     [(True, ''text'', String_of (get args ''text'')),
      (truthy (get args ''wordcloudFormat''), ''format'', String_of (get args ''wordcloudFormat'')),
      (truthy (get args ''width''), ''width'', String_of (get args ''width'')),
      (truthy (get args ''height''), ''height'', String_of (get args ''height'')),
      (truthy (get args ''backgroundColor''), ''backgroundColor'', String_of (get args ''backgroundColor'')),
      (truthy (get args ''fontFamily''), ''fontFamily'', String_of (get args ''fontFamily'')),
      (truthy (get args ''fontWeight''), ''fontWeight'', String_of (get args ''fontWeight'')),
      (truthy (get args ''loadGoogleFonts''), ''loadGoogleFonts'', String_of (get args ''loadGoogleFonts'')),
      (truthy (get args ''fontScale''), ''fontScale'', String_of (get args ''fontScale'')),
      (truthy (get args ''scale''), ''scale'', String_of (get args ''scale'')),
      (truthy (get args ''padding''), ''padding'', String_of (get args ''padding'')),
      (truthy (get args ''rotation''), ''rotation'', String_of (get args ''rotation'')),
      (truthy (get args ''maxNumWords''), ''maxNumWords'', String_of (get args ''maxNumWords'')),
      (truthy (get args ''minWordLength''), ''minWordLength'', String_of (get args ''minWordLength'')),
      (truthy (get args ''case''), ''case'', String_of (get args ''case'')),
      (truthy (get args ''colors''), ''colors'', Inr (stringify_text (get args ''colors''))),
      (get args ''removeStopwords'' \<noteq> JUndefined, ''removeStopwords'', String_of (get args ''removeStopwords'')),
      (get args ''cleanWords'' \<noteq> JUndefined, ''cleanWords'', String_of (get args ''cleanWords'')),
      (truthy (get args ''language''), ''language'', String_of (get args ''language'')),
      (get args ''useWordList'' \<noteq> JUndefined, ''useWordList'', String_of (get args ''useWordList''))]"

fun append_all :: "(bool \<times> string \<times> (err + string)) list \<Rightarrow> err + (string \<times> string) list" where
  "append_all [] = Inr []"
| "append_all (line # rest) =
     (if fst line then
        (case snd (snd line) of
           Inl e \<Rightarrow> Inl e
         | Inr v \<Rightarrow>
            (case append_all rest of
               Inl e \<Rightarrow> Inl e
             | Inr params \<Rightarrow> Inr ((fst (snd line), v) # params)))
      else append_all rest)"

definition wordcloud_params :: "jsval \<Rightarrow> err + (string \<times> string) list" where
  "wordcloud_params args = append_all (wordcloud_appends args)"

text \<open>
  In the graph branch \<^verbatim>\<open>encodeURIComponent\<close> runs first, then the template literal
  converts \<^verbatim>\<open>layout\<close> and \<^verbatim>\<open>format\<close> in that order.
\<close>

definition generateChartUrl :: "endpoints \<Rightarrow> jsval \<Rightarrow> jsval \<Rightarrow> err + string" where
  "generateChartUrl E config args =
     (if get config ''type'' = JStr ''graphviz'' then
        (if \<not> truthy (get args ''dot'') \<or> typeof (get args ''dot'') \<noteq> ''string'' then
           Inl (McpError InvalidParams ''DOT language code is required for graphviz charts'')
         else
           (case encodeURIComponent (toString (get args ''dot'')) of
              Inl e \<Rightarrow> Inl e
            | Inr encodedDot \<Rightarrow>
               (let format = (if truthy (get args ''graphvizFormat'')
                              then get args ''graphvizFormat'' else JStr ''png'');
                    layout = (if truthy (get args ''graphvizLayout'')
                              then get args ''graphvizLayout'' else JStr ''dot'')
                in
                (case String_of layout of
                   Inl e \<Rightarrow> Inl e
                 | Inr layout_text \<Rightarrow>
                    (case String_of format of
                       Inl e \<Rightarrow> Inl e
                     | Inr format_text \<Rightarrow>
                        Inr (QUICKCHART_GRAPHVIZ_URL E @ ''?graph='' @ encodedDot
                               @ ''&layout='' @ layout_text @ ''&format='' @ format_text))))))
      else if get config ''type'' = JStr ''wordcloud'' then
        (if \<not> truthy (get args ''text'') \<or> typeof (get args ''text'') \<noteq> ''string'' then
           Inl (McpError InvalidParams ''Text is required for wordcloud charts'')
         else
           (case wordcloud_params args of
              Inl e \<Rightarrow> Inl e
            | Inr params \<Rightarrow>
               Inr (QUICKCHART_WORDCLOUD_URL E @ ''?'' @ URLSearchParams_toString params)))
      else
        (case encodeURIComponent (stringify_text config) of
           Inl e \<Rightarrow> Inl e
         | Inr encodedConfig \<Rightarrow> Inr (QUICKCHART_BASE_URL E @ ''?c='' @ encodedConfig)))"

section \<open>The tool \<^verbatim>\<open>generate_chart\<close>\<close>

text \<open>The handler's \<^verbatim>\<open>catch\<close>: an \<^verbatim>\<open>McpError\<close> is rethrown, anything else is wrapped
  as an internal error.\<close>

fun rethrow :: "string \<Rightarrow> err \<Rightarrow> err" where
  "rethrow what (McpError c m) = McpError c m"
| "rethrow what (JsError c m) =
     McpError InternalError
       (what @ (if m \<noteq> [] then m else ''Unknown error''))"

definition generate_chart :: "endpoints \<Rightarrow> jsval \<Rightarrow> err + string" where
  "generate_chart E arguments =
     (case generateChartConfig arguments of
        Inl e \<Rightarrow> Inl (rethrow ''Failed to generate chart: '' e)
      | Inr config \<Rightarrow>
          (case generateChartUrl E config arguments of
             Inl e \<Rightarrow> Inl (rethrow ''Failed to generate chart: '' e)
           | Inr url \<Rightarrow> Inr url))"

section \<open>The tool \<^verbatim>\<open>download_chart\<close>\<close>

text \<open>
  The handler casts its arguments to
  \<^verbatim>\<open>{ config: Record<string, unknown>; outputPath?: string }\<close>; \<open>config\<close> stays an untyped
  value here because the handler checks it again. What the handler asks of the operating
  system and the network is a parameter: the home directory, \<^verbatim>\<open>path.join\<close> and
  \<^verbatim>\<open>path.dirname\<close>, the text of \<^verbatim>\<open>new Date().toISOString()\<close>, whether
  \<^verbatim>\<open>fs.promises.access(p, W_OK)\<close> resolves, and the outcomes of \<^verbatim>\<open>axios.get\<close> and
  \<^verbatim>\<open>fs.promises.writeFile\<close> (a rejection is the error's \<^verbatim>\<open>code\<close> and \<^verbatim>\<open>message\<close>).
  The handler's result comes with the list of the effects it performed, in order.
\<close>

record download_args =
  config :: jsval
  outputPath :: "string option"

record world =
  homedir :: string
  path_join :: "string \<Rightarrow> string \<Rightarrow> string"
  path_dirname :: "string \<Rightarrow> string"
  now_iso :: string
  writable :: "string \<Rightarrow> bool"
  http_get :: "string \<Rightarrow> (string \<times> string) + string"
  write_file :: "string \<Rightarrow> string \<Rightarrow> (string \<times> string) option"

datatype effect =
    Access string
  | Log string
  | HttpGet string
  | WriteFile string string

text \<open>One of the three blocks that copy a field found under \<^verbatim>\<open>config.data\<close>.\<close>

definition lift_field :: "jsval \<Rightarrow> string \<Rightarrow> (string \<times> jsval) list \<Rightarrow> (string \<times> jsval) list" where
  "lift_field cfg k normalized =
     (if truthy (get cfg ''data'') \<and> typeof (get cfg ''data'') = ''object''
         \<and> truthy (get (get cfg ''data'') k) \<and> \<not> truthy (get (JObj normalized) k)
      then AList.update k (get (get cfg ''data'') k) normalized
      else normalized)"

definition normalizeConfig :: "jsval \<Rightarrow> jsval" where
  "normalizeConfig cfg =
     JObj (lift_field cfg ''type''
            (lift_field cfg ''labels''
              (lift_field cfg ''datasets'' (assign [] (spread cfg)))))"

text \<open>The three \<^verbatim>\<open>replace\<close> calls that turn the ISO time into a file-name part.\<close>

fun strip_fraction :: "string \<Rightarrow> string" where
  "strip_fraction [] = []"
| "strip_fraction (c # cs) =
     (if c = CHR ''.'' \<and> cs \<noteq> [] \<and> hd cs \<noteq> CHR 0x0A \<and> hd cs \<noteq> CHR 0x0D
      then dropWhile (\<lambda>d. d \<noteq> CHR 0x0A \<and> d \<noteq> CHR 0x0D) cs
      else c # strip_fraction cs)"

fun replace_first :: "char \<Rightarrow> char \<Rightarrow> string \<Rightarrow> string" where
  "replace_first a b [] = []"
| "replace_first a b (c # cs) = (if c = a then b # cs else c # replace_first a b cs)"

definition timestamp :: "string \<Rightarrow> string" where
  "timestamp t =
     replace_first (CHR ''T'') (CHR ''_'')
       (strip_fraction (map (\<lambda>c. if c = CHR '':'' then CHR ''-'' else c) t))"

text \<open>
  The default output path. Its file name is made from the type by a template literal,
  whose conversion is taken to return: a type that does not convert (an object with a
  property named \<^verbatim>\<open>toString\<close>), for which the handler would throw there, has the text
  \<^verbatim>\<open>[object Object]\<close> here.
\<close>

definition default_output_path :: "world \<Rightarrow> jsval \<Rightarrow> effect list \<times> string" where
  "default_output_path W normalizedConfig =
     (let homeDir = homedir W;
          desktopDir = path_join W homeDir ''Desktop'';
          baseDir = (if writable W desktopDir then desktopDir else homeDir);
          chartType = (if truthy (get normalizedConfig ''type'')
                       then get normalizedConfig ''type'' else JStr ''chart'');
          p = path_join W baseDir (toString chartType @ ''_'' @ timestamp (now_iso W) @ ''.png'')
      in ([Access desktopDir]
          @ (if writable W desktopDir then []
             else [Log ''Desktop not accessible, using home directory instead''])
          @ [Log (''No output path provided, using: '' @ p)], p))"

text \<open>The inner \<^verbatim>\<open>catch\<close> around the fetch and the write.\<close>

definition write_error :: "string \<Rightarrow> string \<times> string \<Rightarrow> err" where
  "write_error p e =
     (if fst e = ''EACCES'' \<or> fst e = ''EROFS'' then
        McpError InvalidParams (''Cannot write to '' @ p @ '': Permission denied'')
      else if fst e = ''ENOENT'' then
        McpError InvalidParams (''Cannot write to '' @ p @ '': Directory does not exist'')
      else JsError (fst e) (snd e))"

text \<open>The output path: the caller's when it is given and not empty, the default one
  otherwise.\<close>

definition resolve_output_path :: "world \<Rightarrow> jsval \<Rightarrow> string option \<Rightarrow> effect list \<times> string" where
  "resolve_output_path W normalizedConfig userProvidedPath =
     (case userProvidedPath of
        None \<Rightarrow> default_output_path W normalizedConfig
      | Some p \<Rightarrow> if p = [] then default_output_path W normalizedConfig else ([], p))"

text \<open>The handler from its \<^verbatim>\<open>// Final validation after normalization\<close> on.\<close>

definition download_normalized :: "endpoints \<Rightarrow> world \<Rightarrow> jsval \<Rightarrow> string option \<Rightarrow> effect list \<times> (err + string)" where
  "download_normalized E W normalizedConfig userProvidedPath =
     (if \<not> truthy (get normalizedConfig ''type'') \<or> \<not> truthy (get normalizedConfig ''datasets'') then
        ([], Inl (McpError InvalidParams
           ''Config must include type and datasets properties (either at root level or inside data object)''))
      else
        (let resolved = resolve_output_path W normalizedConfig userProvidedPath;
             fx = fst resolved;
             path = snd resolved;
             outputDir = path_dirname W path
         in
         if \<not> writable W outputDir then
           (fx @ [Access outputDir],
            Inl (McpError InvalidParams
                   (''Output directory does not exist or is not writable: '' @ outputDir)))
         else
           (case generateChartConfig normalizedConfig of
              Inl e \<Rightarrow> (fx @ [Access outputDir], Inl (rethrow ''Failed to download chart: '' e))
            | Inr chartConfig \<Rightarrow>
               (case generateChartUrl E chartConfig JUndefined of
                  Inl e \<Rightarrow>
                    (fx @ [Access outputDir], Inl (rethrow ''Failed to download chart: '' e))
                | Inr url \<Rightarrow>
                   (case http_get W url of
                      Inl e \<Rightarrow>
                        (fx @ [Access outputDir, HttpGet url],
                         Inl (rethrow ''Failed to download chart: '' (write_error path e)))
                    | Inr bytes \<Rightarrow>
                       (case write_file W path bytes of
                          Some e \<Rightarrow>
                            (fx @ [Access outputDir, HttpGet url, WriteFile path bytes],
                             Inl (rethrow ''Failed to download chart: '' (write_error path e)))
                        | None \<Rightarrow>
                            (fx @ [Access outputDir, HttpGet url, WriteFile path bytes],
                             Inr (''Chart saved to '' @ path))))))))"

definition download_chart :: "endpoints \<Rightarrow> world \<Rightarrow> download_args \<Rightarrow> effect list \<times> (err + string)" where
  "download_chart E W arguments =
     (if \<not> truthy (config arguments) \<or> typeof (config arguments) \<noteq> ''object'' then
        ([], Inl (McpError InvalidParams ''Config must be a valid chart configuration object''))
      else download_normalized E W (normalizeConfig (config arguments)) (outputPath arguments))"

text \<open>The effects that reach the network or write the file.\<close>

fun fetch_or_write :: "effect \<Rightarrow> bool" where
  "fetch_or_write (HttpGet url) = True"
| "fetch_or_write (WriteFile p bytes) = True"
| "fetch_or_write e = False"

section \<open>The earlier server: \<^verbatim>\<open>src/index.ts\<close> and \<^verbatim>\<open>src/http-server.ts\<close>\<close>

text \<open>
  These two files hold the same builder with ten chart types: no graph and no word
  cloud, the dataset test before the type test, and an encoder with the chart branch
  only.
\<close>

definition index_validTypes :: "string list" where
  "index_validTypes =
     [''bar'', ''line'', ''pie'', ''doughnut'', ''radar'',
      ''polarArea'', ''scatter'', ''bubble'', ''radialGauge'', ''speedometer'']"

definition index_validateChartType :: "jsval \<Rightarrow> err + unit" where
  "index_validateChartType type =
     (if \<not> array_includes index_validTypes type then
        Inl (McpError InvalidParams
               (''Invalid chart type. Must be one of: '' @ join '', '' index_validTypes))
      else Inr ())"

definition index_generateChartConfig :: "jsval \<Rightarrow> err + jsval" where
  "index_generateChartConfig args =
     (if \<not> truthy args then
        Inl (McpError InvalidParams ''No arguments provided to generateChartConfig'')
      else if \<not> truthy (get args ''type'') then
        Inl (McpError InvalidParams ''Chart type is required'')
      else if \<not> truthy (get args ''datasets'') \<or> \<not> isArray (get args ''datasets'') then
        Inl (McpError InvalidParams ''Datasets must be a non-empty array'')
      else
        (let type = get args ''type'' in
         (case index_validateChartType type of
            Inl e \<Rightarrow> Inl e
          | Inr u \<Rightarrow> buildChartConfig type args)))"

definition index_generateChartUrl :: "endpoints \<Rightarrow> jsval \<Rightarrow> err + string" where
  "index_generateChartUrl E cfg =
     (case encodeURIComponent (stringify_text cfg) of
        Inl e \<Rightarrow> Inl e
      | Inr encodedConfig \<Rightarrow> Inr (QUICKCHART_BASE_URL E @ ''?c='' @ encodedConfig))"

definition index_generate_chart :: "endpoints \<Rightarrow> jsval \<Rightarrow> err + string" where
  "index_generate_chart E arguments =
     (case index_generateChartConfig arguments of
        Inl e \<Rightarrow> Inl (rethrow ''Failed to generate chart: '' e)
      | Inr cfg \<Rightarrow>
          (case index_generateChartUrl E cfg of
             Inl e \<Rightarrow> Inl (rethrow ''Failed to generate chart: '' e)
           | Inr url \<Rightarrow> Inr url))"

section \<open>The decoding side of the round trip\<close>

text \<open>
  The round trip of a chart URL is completed outside the server, by a harness that takes
  the \<^verbatim>\<open>c\<close> parameter, percent-decodes it and parses it as JSON. These are JavaScript's
  \<^verbatim>\<open>decodeURIComponent\<close> and \<^verbatim>\<open>JSON.parse\<close> on the values of this model: a number with a
  fraction or an exponent is not parsed (\<open>None\<close>), and of the \<^verbatim>\<open>\u\<close> escapes those up to
  \<^verbatim>\<open>\u007f\<close> and the surrogates \<^verbatim>\<open>\ud800\<close> to \<^verbatim>\<open>\udfff\<close> are, each surrogate as a lone
  one (the serialiser writes no pair as escapes).
  The parser takes the length of its input as fuel; a member repeated in an object keeps
  its last value.
\<close>

definition is_ws :: "char \<Rightarrow> bool" where
  "is_ws c \<longleftrightarrow> c = CHR '' '' \<or> c = CHR 0x09 \<or> c = CHR 0x0A \<or> c = CHR 0x0D"

definition skip_ws :: "string \<Rightarrow> string" where
  "skip_ws s = dropWhile is_ws s"

definition hexval :: "char \<Rightarrow> nat option" where
  "hexval c =
     (if c \<in> set ''0123456789'' then Some (of_char c - 48)
      else if c \<in> set ''ABCDEF'' then Some (of_char c - 55)
      else if c \<in> set ''abcdef'' then Some (of_char c - 87)
      else None)"

fun decodeURIComponent :: "string \<Rightarrow> string option" where
  "decodeURIComponent [] = Some []"
| "decodeURIComponent (c # cs) =
     (if c = CHR ''%'' then
        (case cs of
           h # l # rest \<Rightarrow>
             (case (hexval h, hexval l, decodeURIComponent rest) of
                (Some a, Some b, Some r) \<Rightarrow> Some (char_of (16 * a + b) # r)
              | _ \<Rightarrow> None)
         | _ \<Rightarrow> None)
      else map_option ((#) c) (decodeURIComponent cs))"

fun parse_string_body :: "string \<Rightarrow> string \<Rightarrow> (string \<times> string) option" where
  "parse_string_body acc [] = None"
| "parse_string_body acc [c] = (if c = CHR 0x22 then Some (rev acc, []) else None)"
| "parse_string_body acc (c # e # cs) =
     (if c = CHR 0x22 then Some (rev acc, e # cs)
      else if c = CHR 0x5C then
        (if e = CHR 0x22 \<or> e = CHR 0x5C \<or> e = CHR ''/'' then parse_string_body (e # acc) cs
         else if e = CHR ''b'' then parse_string_body (CHR 0x08 # acc) cs
         else if e = CHR ''f'' then parse_string_body (CHR 0x0C # acc) cs
         else if e = CHR ''n'' then parse_string_body (CHR 0x0A # acc) cs
         else if e = CHR ''r'' then parse_string_body (CHR 0x0D # acc) cs
         else if e = CHR ''t'' then parse_string_body (CHR 0x09 # acc) cs
         else if e = CHR ''u'' then
           (case cs of
              a # b # h # l # rest \<Rightarrow>
                (case (hexval a, hexval b, hexval h, hexval l) of
                   (Some p, Some q, Some x, Some y) \<Rightarrow>
                     (if p = 0 \<and> q = 0 \<and> x < 8 then
                        parse_string_body (char_of (16 * x + y) # acc) rest
                      else if p = 13 \<and> 8 \<le> q then
                        (let v = (q - 8) * 256 + 16 * x + y
                         in parse_string_body
                              (char_of (0x80 + v mod 64) # char_of (0xA0 + v div 64)
                                 # CHR 0xED # acc) rest)
                      else None)
                 | _ \<Rightarrow> None)
            | _ \<Rightarrow> None)
         else None)
      else if (of_char c :: nat) < 32 then None
      else parse_string_body (c # acc) (e # cs))"

definition is_digit :: "char \<Rightarrow> bool" where
  "is_digit c \<longleftrightarrow> c \<in> set ''0123456789''"

definition parse_number :: "string \<Rightarrow> (jsval \<times> string) option" where
  "parse_number s =
     (let neg = (s \<noteq> [] \<and> hd s = CHR ''-'');
          body = (if neg then tl s else s);
          ds = takeWhile is_digit body;
          rest = dropWhile is_digit body;
          n = foldl (\<lambda>a c. 10 * a + int (of_char c - (48::nat))) 0 ds
      in if ds = [] \<or> (length ds > 1 \<and> hd ds = CHR ''0'')
            \<or> (rest \<noteq> [] \<and> hd rest \<in> set ''.eE'') then None
         else Some (JNum (if neg then - n else n), rest))"

fun parse_value :: "nat \<Rightarrow> string \<Rightarrow> (jsval \<times> string) option"
and parse_elements :: "nat \<Rightarrow> jsval list \<Rightarrow> string \<Rightarrow> (jsval \<times> string) option"
and parse_members :: "nat \<Rightarrow> (string \<times> jsval) list \<Rightarrow> string \<Rightarrow> (jsval \<times> string) option"
where
  "parse_value 0 s = None"
| "parse_value (Suc n) s =
     (case skip_ws s of
        [] \<Rightarrow> None
      | c # cs \<Rightarrow>
          if c = CHR ''{'' then
            (if skip_ws cs \<noteq> [] \<and> hd (skip_ws cs) = CHR ''}''
             then Some (JObj [], tl (skip_ws cs)) else parse_members n [] cs)
          else if c = CHR ''['' then
            (if skip_ws cs \<noteq> [] \<and> hd (skip_ws cs) = CHR '']''
             then Some (JArr [], tl (skip_ws cs)) else parse_elements n [] cs)
          else if c = CHR 0x22 then
            (case parse_string_body [] cs of
               None \<Rightarrow> None
             | Some r \<Rightarrow> Some (JStr (fst r), snd r))
          else if take 4 (c # cs) = ''true'' then Some (JBool True, drop 4 (c # cs))
          else if take 5 (c # cs) = ''false'' then Some (JBool False, drop 5 (c # cs))
          else if take 4 (c # cs) = ''null'' then Some (JNull, drop 4 (c # cs))
          else parse_number (c # cs))"
| "parse_elements 0 acc s = None"
| "parse_elements (Suc n) acc s =
     (case parse_value n s of
        None \<Rightarrow> None
      | Some r \<Rightarrow>
          (case skip_ws (snd r) of
             [] \<Rightarrow> None
           | c # cs \<Rightarrow>
               if c = CHR '','' then parse_elements n (acc @ [fst r]) cs
               else if c = CHR '']'' then Some (JArr (acc @ [fst r]), cs)
               else None))"
| "parse_members 0 acc s = None"
| "parse_members (Suc n) acc s =
     (case skip_ws s of
        [] \<Rightarrow> None
      | q # cs \<Rightarrow>
          if q \<noteq> CHR 0x22 then None
          else
            (case parse_string_body [] cs of
               None \<Rightarrow> None
             | Some k \<Rightarrow>
                 (case skip_ws (snd k) of
                    [] \<Rightarrow> None
                  | colon # cs' \<Rightarrow>
                      if colon \<noteq> CHR '':'' then None
                      else
                        (case parse_value n cs' of
                           None \<Rightarrow> None
                         | Some r \<Rightarrow>
                             (case skip_ws (snd r) of
                                [] \<Rightarrow> None
                              | c # cs'' \<Rightarrow>
                                  if c = CHR '','' then
                                    parse_members n (AList.update (fst k) (fst r) acc) cs''
                                  else if c = CHR ''}'' then
                                    Some (JObj (AList.update (fst k) (fst r) acc), cs'')
                                  else None)))))"

definition JSON_parse :: "string \<Rightarrow> jsval option" where
  "JSON_parse s =
     (case parse_value (Suc (length s)) s of
        None \<Rightarrow> None
      | Some r \<Rightarrow> if skip_ws (snd r) = [] then Some (fst r) else None)"

text \<open>The text of the \<^verbatim>\<open>c\<close> parameter of a chart URL.\<close>

fun c_param :: "string \<Rightarrow> string option" where
  "c_param [] = None"
| "c_param (x # xs) =
     (if take 3 (x # xs) = ''?c=''
      then Some (takeWhile (\<lambda>c. c \<noteq> CHR ''&'') (drop 3 (x # xs)))
      else c_param xs)"

definition harness_decode :: "string \<Rightarrow> jsval option" where
  "harness_decode url =
     (case c_param url of
        None \<Rightarrow> None
      | Some q \<Rightarrow> (case decodeURIComponent q of None \<Rightarrow> None | Some j \<Rightarrow> JSON_parse j))"

text \<open>
  A property whose value is \<^verbatim>\<open>undefined\<close> is one that is not set (the configuration's
  optional properties are of this kind): a comparison of structures leaves such
  properties out.
\<close>

fun defined_part :: "jsval \<Rightarrow> jsval" where
  "defined_part (JObj kvs) =
     JObj (map (\<lambda>kv. (fst kv, defined_part (snd kv)))
             (filter (\<lambda>kv. snd kv \<noteq> JUndefined) kvs))"
| "defined_part (JArr xs) = JArr (map defined_part xs)"
| "defined_part v = v"

section \<open>Requests, and what the serialiser carries\<close>

text \<open>
  The arguments of a tool call arrive as parsed JSON: a value with no \<^verbatim>\<open>undefined\<close> and no
  function in it, and with no key twice in an object. \<open>json\<close> is parsed JSON whose numbers
  are integers, which the parser of this model reads back.
\<close>

fun json :: "jsval \<Rightarrow> bool" where
  "json JUndefined = False"
| "json (JFun src) = False"
| "json (JReal s) = False"
| "json (JArr xs) = list_all json xs"
| "json (JObj kvs) = (distinct (map fst kvs) \<and> list_all (\<lambda>kv. json (snd kv)) kvs)"
| "json v = True"

text \<open>
  \<open>request\<close> is parsed JSON with any numbers: an integer between \<open>-2\<^sup>5\<^sup>3\<close> and \<open>2\<^sup>5\<^sup>3\<close> as
  \<open>JNum\<close>, any other number as \<open>JReal\<close>, and no \<^verbatim>\<open>NaN\<close>, which no JSON text denotes.
\<close>

fun request :: "jsval \<Rightarrow> bool" where
  "request JUndefined = False"
| "request (JFun src) = False"
| "request (JNum n) = (- 9007199254740992 \<le> n \<and> n \<le> 9007199254740992)"
| "request (JReal s) = (s \<noteq> ''NaN'')"
| "request (JArr xs) = list_all request xs"
| "request (JObj kvs) = (distinct (map fst kvs) \<and> list_all (\<lambda>kv. request (snd kv)) kvs)"
| "request v = True"

text \<open>
  What \<^verbatim>\<open>JSON.stringify\<close> carries of a value: a property whose value is \<^verbatim>\<open>undefined\<close> or a
  function is left out, an array element of that kind becomes \<^verbatim>\<open>null\<close>.
\<close>

fun sent :: "jsval \<Rightarrow> jsval" where
  "sent (JObj kvs) =
     JObj (map (\<lambda>kv. (fst kv, sent (snd kv)))
             (filter (\<lambda>kv. JSON_stringify (snd kv) \<noteq> None) kvs))"
| "sent (JArr xs) = JArr (map (\<lambda>x. if JSON_stringify x = None then JNull else sent x) xs)"
| "sent v = v"

text \<open>Values with no function in them, and values none of whose objects has a key twice
  and whose numbers are integers.\<close>

fun fun_free :: "jsval \<Rightarrow> bool" where
  "fun_free (JFun src) = False"
| "fun_free (JObj kvs) = list_all (\<lambda>kv. fun_free (snd kv)) kvs"
| "fun_free (JArr xs) = list_all fun_free xs"
| "fun_free v = True"

fun keys_distinct :: "jsval \<Rightarrow> bool" where
  "keys_distinct (JObj kvs) =
     (distinct (map fst kvs) \<and> list_all (\<lambda>kv. keys_distinct (snd kv)) kvs)"
| "keys_distinct (JArr xs) = list_all keys_distinct xs"
| "keys_distinct (JReal s) = False"
| "keys_distinct v = True"

text \<open>
  Values that are serialised in full and read back, the properties that are not set
  apart: no function, \<^verbatim>\<open>undefined\<close> only as the value of a property, no key twice,
  integers for numbers.
\<close>

fun serializable :: "jsval \<Rightarrow> bool" where
  "serializable JUndefined = False"
| "serializable (JFun src) = False"
| "serializable (JReal s) = False"
| "serializable (JArr xs) = list_all serializable xs"
| "serializable (JObj kvs) =
     (distinct (map fst kvs)
      \<and> list_all (\<lambda>kv. snd kv = JUndefined \<or> serializable (snd kv)) kvs)"
| "serializable v = True"

definition loose :: "jsval \<Rightarrow> bool" where
  "loose v \<longleftrightarrow> v = JUndefined \<or> serializable v"

text \<open>
  For the correctness of the parser: a text that holds no lone surrogate and begins, if
  it is not empty, with an ASCII character, what may follow a value in a JSON text, the
  first character of a value, the text of an object member, and the parser reading the
  text of a value back wherever that text stands.
\<close>

definition is_ascii :: "char \<Rightarrow> bool" where
  "is_ascii c \<longleftrightarrow> (of_char c :: nat) < 128"

definition clean :: "string \<Rightarrow> bool" where
  "clean s \<longleftrightarrow> \<not> lone_surrogate s \<and> (s = [] \<or> is_ascii (hd s))"

definition ok_rest :: "string \<Rightarrow> bool" where
  "ok_rest r \<longleftrightarrow> r = [] \<or> hd r \<in> set '',]}''"

definition value_start :: "char \<Rightarrow> bool" where
  "value_start c \<longleftrightarrow> c \<in> set ''{[tfn-0123456789'' \<or> c = CHR 0x22"

definition member_text :: "string \<times> jsval \<Rightarrow> string" where
  "member_text kv = json_quote (fst kv) @ '':'' @ stringify_text (snd kv)"

definition parses :: "jsval \<Rightarrow> bool" where
  "parses v \<longleftrightarrow>
     (\<forall>n r. length (stringify_text v) \<le> n \<longrightarrow> ok_rest r \<longrightarrow>
        parse_value n (stringify_text v @ r) = Some (defined_part v, r))"

section \<open>The optional word-cloud parameters, as a list\<close>

text \<open>
  The nineteen optional parameters of a word cloud in the order of the encoder's
  \<^verbatim>\<open>params.append\<close> lines, each with the query name it is sent under, and the query
  pairs of those that are present in the arguments. The three flags are the ones the
  encoder compares with \<^verbatim>\<open>undefined\<close>.
\<close>

definition wordcloud_optional :: "(string \<times> string) list" where
  "wordcloud_optional =
     [(''wordcloudFormat'', ''format''), (''width'', ''width''), (''height'', ''height''),
      (''backgroundColor'', ''backgroundColor''), (''fontFamily'', ''fontFamily''),
      (''fontWeight'', ''fontWeight''), (''loadGoogleFonts'', ''loadGoogleFonts''),
      (''fontScale'', ''fontScale''), (''scale'', ''scale''), (''padding'', ''padding''),
      (''rotation'', ''rotation''), (''maxNumWords'', ''maxNumWords''),
      (''minWordLength'', ''minWordLength''), (''case'', ''case''), (''colors'', ''colors''),
      (''removeStopwords'', ''removeStopwords''), (''cleanWords'', ''cleanWords''),
      (''language'', ''language''), (''useWordList'', ''useWordList'')]"

definition boolean_flags :: "string list" where
  "boolean_flags = [''removeStopwords'', ''cleanWords'', ''useWordList'']"

definition present_params :: "jsval \<Rightarrow> (string \<times> string) list" where
  "present_params args =
     concat (map (\<lambda>p. if get args (fst p) = JUndefined then []
                        else [(snd p, if fst p = ''colors''
                                      then stringify_text (get args (fst p))
                                      else toString (get args (fst p)))])
                 wordcloud_optional)"

section \<open>Example requests\<close>

definition gauge_args :: jsval where
  "gauge_args =
     JObj [(''type'', JStr ''radialGauge''),
           (''datasets'', JArr [JObj [(''data'', JArr [JNum 50])]])]"

text \<open>The configuration built for that request, the URL it is encoded to, and the
  structure that URL decodes to.\<close>

definition gauge_config :: jsval where
  "gauge_config =
     JObj [(''type'', JStr ''radialGauge''),
           (''data'',
              JObj [(''labels'', JArr []),
                    (''datasets'',
                       JArr [JObj [(''label'', JStr []), (''data'', JArr [JNum 50]),
                                   (''backgroundColor'', JUndefined),
                                   (''borderColor'', JUndefined)]])]),
           (''options'',
              JObj [(''plugins'',
                 JObj [(''datalabels'',
                    JObj [(''display'', JBool True),
                          (''formatter'', JFun ''(value) => value'')])])])]"

definition gauge_url :: string where
  "gauge_url = ''https://quickchart.io/chart?c=%7B%22type%22%3A%22radialGauge%22%2C%22data%22%3A%7B%22labels%22%3A%5B%5D%2C%22datasets%22%3A%5B%7B%22label%22%3A%22%22%2C%22data%22%3A%5B50%5D%7D%5D%7D%2C%22options%22%3A%7B%22plugins%22%3A%7B%22datalabels%22%3A%7B%22display%22%3Atrue%7D%7D%7D%7D''"

definition gauge_decoded :: jsval where
  "gauge_decoded =
     JObj [(''type'', JStr ''radialGauge''),
           (''data'',
              JObj [(''labels'', JArr []),
                    (''datasets'',
                       JArr [JObj [(''label'', JStr []), (''data'', JArr [JNum 50])]])]),
           (''options'',
              JObj [(''plugins'',
                 JObj [(''datalabels'', JObj [(''display'', JBool True)])])])]"

definition bar_args :: jsval where
  "bar_args =
     JObj [(''type'', JStr ''bar''), (''labels'', JArr [JStr ''x'', JStr ''y'']),
           (''datasets'', JArr [JObj [(''label'', JStr ''a''), (''data'', JArr [JNum 1, JNum 2])]]),
           (''title'', JStr ''T'')]"

definition override_args :: jsval where
  "override_args =
     JObj [(''type'', JStr ''bar''),
           (''datasets'',
              JArr [JObj [(''label'', JStr ''a''), (''data'', JArr [JNum 1]),
                          (''additionalConfig'',
                             JObj [(''label'', JStr ''b''), (''borderWidth'', JNum 2)])]])]"

definition nested_config :: "(string \<times> jsval) list" where
  "nested_config =
     [(''type'', JStr ''bar''),
      (''data'', JObj [(''labels'', JArr [JStr ''x'']),
                       (''datasets'', JArr [JObj [(''data'', JArr [JNum 1])]])])]"

definition flat_config :: "(string \<times> jsval) list" where
  "flat_config =
     [(''type'', JStr ''bar''),
      (''labels'', JArr [JStr ''x'']),
      (''datasets'', JArr [JObj [(''data'', JArr [JNum 1])]])]"

definition graph_config :: jsval where
  "graph_config =
     JObj [(''type'', JStr ''graphviz''), (''dot'', JStr ''digraph G { A -> B; }''),
           (''datasets'', JArr [])]"

text \<open>A machine where only \<^verbatim>\<open>/tmp\<close> and the home directory can be written, the fetch
  answers and the write succeeds.\<close>

definition example_world :: world where
  "example_world =
     \<lparr> homedir = ''/home/user'',
       path_join = (\<lambda>a b. a @ ''/'' @ b),
       path_dirname = (\<lambda>p. rev (tl (dropWhile (\<lambda>c. c \<noteq> CHR ''/'') (rev p)))),
       now_iso = ''2024-05-06T07:08:09.123Z'',
       writable = (\<lambda>d. d = ''/tmp'' \<or> d = ''/home/user''),
       http_get = (\<lambda>url. Inr ''PNG''),
       write_file = (\<lambda>p bytes. None) \<rparr>"

section \<open>Basic facts\<close>

lemma join_validTypes:
  "join '', '' validTypes = ''bar, line, pie, doughnut, radar, polarArea, scatter, bubble, radialGauge, speedometer, graphviz, wordcloud''"
  by (simp add: validTypes_def)

lemma join_index_validTypes:
  "join '', '' index_validTypes = ''bar, line, pie, doughnut, radar, polarArea, scatter, bubble, radialGauge, speedometer''"
  by (simp add: index_validTypes_def)

lemma truthy_get_truthy: "truthy (get args k) \<Longrightarrow> truthy args"
  by (cases args) simp_all

lemma isArray_truthy: "isArray v \<Longrightarrow> truthy v"
  by (cases v) simp_all

lemma typeof_string: "typeof v = ''string'' \<longleftrightarrow> (\<exists>s. v = JStr s)"
  by (cases v) simp_all

lemma get_JUndefined: "get JUndefined k = JUndefined"
  by simp

subsection \<open>Objects under construction\<close>

lemma map_of_assign:
  "distinct (map fst ext) \<Longrightarrow>
   map_of (assign base ext) k = (case map_of ext k of Some v \<Rightarrow> Some v | None \<Rightarrow> map_of base k)"
proof (induction ext arbitrary: base)
  case Nil
  then show ?case by (simp add: assign_def)
next
  case (Cons kv ext)
  obtain a b where kv: "kv = (a, b)" by (cases kv)
  from Cons.prems kv have d: "distinct (map fst ext)" and na: "map_of ext a = None"
    by (auto simp: map_of_eq_None_iff)
  have "map_of (assign base (kv # ext)) k = map_of (assign (AList.update a b base) ext) k"
    by (simp add: assign_def kv)
  also have "\<dots> = (case map_of ext k of Some v \<Rightarrow> Some v
                     | None \<Rightarrow> map_of (AList.update a b base) k)"
    by (rule Cons.IH [OF d])
  also have "\<dots> = (case map_of (kv # ext) k of Some v \<Rightarrow> Some v | None \<Rightarrow> map_of base k)"
    using na by (auto simp: kv update_conv' split: option.splits)
  finally show ?case .
qed

lemma get_assign:
  assumes d: "distinct (map fst ext)"
  shows "get (JObj (assign base ext)) k =
     (if k \<in> fst ` set ext then get (JObj ext) k else get (JObj base) k)"
proof (cases "map_of ext k")
  case None
  then have "k \<notin> fst ` set ext" by (simp add: map_of_eq_None_iff)
  with None show ?thesis by (simp add: map_of_assign [OF d])
next
  case (Some v)
  then have "k \<in> fst ` set ext" by (metis map_of_eq_None_iff option.distinct(1))
  with Some show ?thesis by (simp add: map_of_assign [OF d])
qed

lemma map_of_assign_empty:
  "distinct (map fst kvs) \<Longrightarrow> map_of (assign [] kvs) = map_of kvs"
  by (rule ext) (simp add: map_of_assign split: option.splits)

subsection \<open>The dataset loop\<close>

lemma normalizeDataset_cases:
  "normalizeDataset d = Inl (McpError InvalidParams ''Each dataset must have a data property'')
   \<or> (\<exists>nd. normalizeDataset d = Inr nd)"
  by (simp add: normalizeDataset_def)

lemma map_throwing_normalizeDataset_Inr:
  "list_all (\<lambda>d. truthy d \<and> truthy (get d ''data'')) ds \<Longrightarrow>
   \<exists>nds. map_throwing normalizeDataset ds = Inr nds"
proof (induction ds)
  case Nil
  then show ?case by simp
next
  case (Cons d ds)
  then obtain nds where "map_throwing normalizeDataset ds = Inr nds" by auto
  moreover from Cons.prems have "\<exists>nd. normalizeDataset d = Inr nd"
    by (simp add: normalizeDataset_def)
  ultimately show ?case by auto
qed

lemma map_throwing_normalizeDataset_invalid:
  "\<not> list_all (\<lambda>d. truthy d \<and> truthy (get d ''data'')) ds \<Longrightarrow>
   map_throwing normalizeDataset ds =
     Inl (McpError InvalidParams ''Each dataset must have a data property'')"
proof (induction ds)
  case Nil
  then show ?case by simp
next
  case (Cons d ds)
  show ?case
  proof (cases "truthy d \<and> truthy (get d ''data'')")
    case True
    with Cons show ?thesis by (auto simp: normalizeDataset_def split: sum.splits)
  next
    case False
    then show ?thesis by (auto simp: normalizeDataset_def)
  qed
qed

lemma map_throwing_nth:
  "map_throwing f xs = Inr ys \<Longrightarrow>
   length ys = length xs \<and> (\<forall>i<length xs. f (xs ! i) = Inr (ys ! i))"
proof (induction xs arbitrary: ys)
  case Nil
  then show ?case by simp
next
  case (Cons x xs)
  from Cons.prems obtain y ys' where fx: "f x = Inr y" and m: "map_throwing f xs = Inr ys'"
    and ys: "ys = y # ys'"
    by (auto split: sum.splits)
  from Cons.IH [OF m] have ih: "length ys' = length xs" "\<forall>i<length xs. f (xs ! i) = Inr (ys' ! i)"
    by simp_all
  show ?case
  proof (intro conjI allI impI)
    show "length ys = length (x # xs)" using ih(1) ys by simp
  next
    fix i assume "i < length (x # xs)"
    then show "f ((x # xs) ! i) = Inr (ys ! i)"
      using fx ih(2) ys by (cases i) simp_all
  qed
qed

lemma first_point_array_valid:
  "isArray (elem_at (get d ''data'') 0) \<Longrightarrow> truthy d \<and> truthy (get d ''data'')"
  by (cases d; cases "get d ''data''") (auto split: if_splits)

subsection \<open>The builder's branches\<close>

lemma generateChartConfig_chart:
  assumes "get args ''type'' = JStr t" "t \<in> set validTypes"
    "t \<noteq> ''graphviz''" "t \<noteq> ''wordcloud''" "isArray (get args ''datasets'')"
  shows "generateChartConfig args = buildChartConfig (JStr t) args"
proof -
  from assms(1) have "truthy (get args ''type'')" using assms(2) by (auto simp: validTypes_def)
  then have "truthy args" by (rule truthy_get_truthy)
  with assms show ?thesis
    by (auto simp: generateChartConfig_def validateChartType_def isArray_truthy validTypes_def)
qed

lemma generateChartConfig_not_array:
  assumes "get args ''type'' = JStr t" "t \<noteq> ''graphviz''" "t \<noteq> ''wordcloud''"
    "\<not> isArray (get args ''datasets'')"
  shows "\<exists>m. generateChartConfig args = Inl (McpError InvalidParams m)"
  using assms
  by (auto simp: generateChartConfig_def validateChartType_def)

lemma generateChartConfig_placeholder:
  assumes "get args ''type'' = JStr t" "t = ''graphviz'' \<or> t = ''wordcloud''"
  shows "generateChartConfig args = Inr (JObj [(''type'', JStr t)])"
proof -
  from assms have "truthy (get args ''type'')" by auto
  then have "truthy args" by (rule truthy_get_truthy)
  with assms show ?thesis
    by (auto simp: generateChartConfig_def validateChartType_def validTypes_def)
qed

lemma generateChartConfig_Inr:
  assumes "generateChartConfig args = Inr cfg"
  shows "(get args ''type'' = JStr ''graphviz'' \<or> get args ''type'' = JStr ''wordcloud'')
         \<or> buildChartConfig (get args ''type'') args = Inr cfg"
  using assms
  by (auto simp add: generateChartConfig_def Let_def split: sum.splits if_splits)

lemma buildChartConfig_shape:
  assumes "buildChartConfig type args = Inr cfg"
  shows "\<exists>nds opts. map_throwing normalizeDataset (elements (get args ''datasets'')) = Inr nds
           \<and> cfg = JObj [(''type'', type),
                 (''data'', JObj [(''labels'', if truthy (get args ''labels'')
                                              then get args ''labels'' else JArr []),
                                  (''datasets'', JArr nds)]),
                 (''options'', JObj opts)]"
proof (cases "map_throwing normalizeDataset (elements (get args ''datasets''))")
  case (Inl e)
  with assms show ?thesis by (simp add: buildChartConfig_def)
next
  case (Inr nds)
  let ?data = "JObj [(''labels'', if truthy (get args ''labels'')
                                 then get args ''labels'' else JArr []),
                     (''datasets'', JArr nds)]"
  have "cfg = JObj [(''type'', type), (''data'', ?data),
                    (''options'', JObj (assign (chart_options args)
                                          [(''plugins'', datalabels_plugins)]))]
        \<or> cfg = JObj [(''type'', type), (''data'', ?data),
                    (''options'', JObj (chart_options args))]"
    using assms Inr
    by (simp add: buildChartConfig_def Let_def split: if_splits)
  with Inr show ?thesis by blast
qed

lemma buildChartConfig_datasets:
  assumes "buildChartConfig type args = Inr cfg"
  shows "\<exists>nds. map_throwing normalizeDataset (elements (get args ''datasets'')) = Inr nds
           \<and> get (get cfg ''data'') ''datasets'' = JArr nds"
proof -
  from buildChartConfig_shape [OF assms] obtain nds opts where
    m: "map_throwing normalizeDataset (elements (get args ''datasets'')) = Inr nds"
    and c: "cfg = JObj [(''type'', type),
                 (''data'', JObj [(''labels'', if truthy (get args ''labels'')
                                              then get args ''labels'' else JArr []),
                                  (''datasets'', JArr nds)]),
                 (''options'', JObj opts)]"
    by blast
  have "get (get cfg ''data'') ''datasets'' = JArr nds" unfolding c by simp
  with m show ?thesis by blast
qed

subsection \<open>What the builder reads of its argument\<close>

lemma chart_options_cong:
  "get a ''title'' = get b ''title'' \<Longrightarrow> get a ''options'' = get b ''options'' \<Longrightarrow>
   chart_options a = chart_options b"
  by (simp add: chart_options_def)

lemma buildChartConfig_cong:
  assumes "get a ''datasets'' = get b ''datasets''"
    and "get a ''labels'' = get b ''labels''
         \<or> \<not> truthy (get a ''labels'') \<and> \<not> truthy (get b ''labels'')"
    and "get a ''title'' = get b ''title''" "get a ''options'' = get b ''options''"
  shows "buildChartConfig t a = buildChartConfig t b"
proof -
  have l: "(if truthy (get a ''labels'') then get a ''labels'' else JArr [])
         = (if truthy (get b ''labels'') then get b ''labels'' else JArr [])"
    using assms(2) by auto
  show ?thesis
    unfolding buildChartConfig_def Let_def
    by (simp only: l assms(1) chart_options_cong [OF assms(3,4)])
qed

lemma generateChartConfig_cong:
  assumes tr: "truthy a" "truthy b"
    and ty: "get a ''type'' = get b ''type''
             \<or> \<not> truthy (get a ''type'') \<and> \<not> truthy (get b ''type'')"
    and ds: "get a ''datasets'' = get b ''datasets''
             \<or> \<not> truthy (get a ''datasets'') \<and> \<not> truthy (get b ''datasets'')"
    and lb: "get a ''labels'' = get b ''labels''
             \<or> \<not> truthy (get a ''labels'') \<and> \<not> truthy (get b ''labels'')"
    and rest: "get a ''title'' = get b ''title''" "get a ''options'' = get b ''options''"
  shows "generateChartConfig a = generateChartConfig b"
proof (cases "truthy (get a ''type'')")
  case False
  with ty have "\<not> truthy (get b ''type'')" by auto
  with False tr show ?thesis by (simp add: generateChartConfig_def)
next
  case True
  with ty have t: "get a ''type'' = get b ''type''" by auto
  show ?thesis
  proof (cases "truthy (get a ''datasets'')")
    case False
    with ds have "\<not> truthy (get b ''datasets'')" by auto
    with False tr t show ?thesis by (simp add: generateChartConfig_def Let_def)
  next
    case True
    with ds have d: "get a ''datasets'' = get b ''datasets''" by auto
    have bc: "buildChartConfig (get b ''type'') a = buildChartConfig (get b ''type'') b"
      by (rule buildChartConfig_cong [OF d lb rest])
    from tr have ta: "truthy a = truthy b" by simp
    show ?thesis
      unfolding generateChartConfig_def Let_def by (simp only: ta t d bc)
  qed
qed

subsection \<open>The download handler\<close>

lemma truthy_get_nested:
  "truthy (get (get c ''data'') k) \<Longrightarrow>
   truthy (get c ''data'') \<and> typeof (get c ''data'') = ''object''"
  by (cases "get c ''data''") simp_all

lemma get_lift_field:
  "get (JObj (lift_field c k n)) k' =
     (if k' = k \<and> truthy (get (get c ''data'') k) \<and> \<not> truthy (get (JObj n) k)
      then get (get c ''data'') k else get (JObj n) k')"
  using truthy_get_nested [of c k]
  by (auto simp: lift_field_def update_conv')

lemma get_normalizeConfig:
  assumes "distinct (map fst kvs)"
  shows "get (normalizeConfig (JObj kvs)) k =
     (if k \<in> {''type'', ''labels'', ''datasets''}
         \<and> truthy (get (get (JObj kvs) ''data'') k) \<and> \<not> truthy (get (JObj kvs) k)
      then get (get (JObj kvs) ''data'') k else get (JObj kvs) k)"
proof -
  have base: "get (JObj (assign [] (spread (JObj kvs)))) k' = get (JObj kvs) k'" for k'
    by (simp add: map_of_assign_empty [OF assms])
  show ?thesis
    unfolding normalizeConfig_def
    by (auto simp add: get_lift_field base simp del: get.simps spread.simps)
qed

lemma generateChartUrl_placeholder:
  assumes "t = ''graphviz'' \<or> t = ''wordcloud''"
  shows "\<exists>m. generateChartUrl E (JObj [(''type'', JStr t)]) JUndefined
               = Inl (McpError InvalidParams m)"
  using assms by (auto simp: generateChartUrl_def)

lemma resolve_output_path_quiet:
  "\<not> list_ex fetch_or_write (fst (resolve_output_path W n p))"
  by (auto simp: resolve_output_path_def default_output_path_def Let_def split: option.splits)

lemma download_normalized_cong:
  assumes tr: "truthy a" "truthy b"
    and ty: "get a ''type'' = get b ''type''
             \<or> \<not> truthy (get a ''type'') \<and> \<not> truthy (get b ''type'')"
    and ds: "get a ''datasets'' = get b ''datasets''
             \<or> \<not> truthy (get a ''datasets'') \<and> \<not> truthy (get b ''datasets'')"
    and lb: "get a ''labels'' = get b ''labels''
             \<or> \<not> truthy (get a ''labels'') \<and> \<not> truthy (get b ''labels'')"
    and rest: "get a ''title'' = get b ''title''" "get a ''options'' = get b ''options''"
  shows "download_normalized E W a p = download_normalized E W b p"
proof (cases "truthy (get a ''type'') \<and> truthy (get a ''datasets'')")
  case False
  with ty ds have "\<not> (truthy (get b ''type'') \<and> truthy (get b ''datasets''))" by auto
  with False show ?thesis by (auto simp: download_normalized_def)
next
  case True
  with ty ds have t: "get a ''type'' = get b ''type''"
    and d: "get a ''datasets'' = get b ''datasets''"
    by auto
  have r: "resolve_output_path W a p = resolve_output_path W b p"
    by (simp add: resolve_output_path_def default_output_path_def t split: option.splits)
  have g: "generateChartConfig a = generateChartConfig b"
    by (rule generateChartConfig_cong [OF tr ty ds lb rest])
  show ?thesis
    unfolding download_normalized_def by (simp only: t d r g)
qed

section \<open>The decoder inverts the encoder\<close>

text \<open>
  \<^verbatim>\<open>decodeURIComponent\<close> inverts \<^verbatim>\<open>encodeURIComponent\<close>, and \<^verbatim>\<open>JSON.parse\<close> reads the text that
  \<^verbatim>\<open>JSON.stringify\<close> writes for a value back as what the serialiser carries of that
  value. The builder, given a parsed request, returns a configuration none of whose objects
  has a key twice; outside the gauge types it has no function in it either.
\<close>

subsection \<open>Percent-encoding\<close>

lemma hex_digits_16:
  "list_all (\<lambda>n. hexval (hexdigit n) = Some n \<and> hexval (hexdigit_lower n) = Some n) [0..<16]"
  by code_simp

lemma hexval_hexdigit:
  assumes "n < 16"
  shows "hexval (hexdigit n) = Some n" and "hexval (hexdigit_lower n) = Some n"
  using hex_digits_16 assms by (auto simp: list_all_iff)

lemma char_split: "char_of (16 * (of_char c div 16) + of_char c mod 16 :: nat) = c"
  by simp

lemma of_char_div_16: "(of_char c :: nat) div 16 < 16"
proof -
  have "(of_char c :: nat) < 256" by simp
  then show ?thesis by (simp add: div_less_iff_less_mult)
qed

lemma unreserved_not_pct: "uri_unreserved c \<Longrightarrow> c \<noteq> CHR ''%''"
  by (auto simp: uri_unreserved_def alnum_def)

lemma decode_pct:
  "decodeURIComponent (pct c @ s) =
     (case decodeURIComponent s of None \<Rightarrow> None | Some r \<Rightarrow> Some (c # r))"
  using hexval_hexdigit(1) [OF of_char_div_16 [of c]]
    hexval_hexdigit(1) [of "of_char c mod 16"] char_split [of c]
  by (simp add: pct_def split: option.splits)

lemma decode_pct_encode: "decodeURIComponent (pct_encode s) = Some s"
proof (induction s)
  case Nil
  then show ?case by (simp add: pct_encode_def)
next
  case (Cons c s)
  have e: "pct_encode (c # s) =
             (if uri_unreserved c then [c] else pct c) @ pct_encode s"
    by (simp add: pct_encode_def)
  show ?case
  proof (cases "uri_unreserved c")
    case True
    with Cons unreserved_not_pct [OF True] show ?thesis by (simp add: e)
  next
    case False
    with Cons show ?thesis by (simp add: e decode_pct)
  qed
qed

lemma pct_encode_no_amp: "CHR ''&'' \<notin> set (pct_encode s)"
proof (induction s)
  case Nil
  then show ?case by (simp add: pct_encode_def)
next
  case (Cons c s)
  have e: "pct_encode (c # s) =
             (if uri_unreserved c then [c] else pct c) @ pct_encode s"
    by (simp add: pct_encode_def)
  have h: "list_all (\<lambda>n. hexdigit n \<noteq> CHR ''&'') [0..<16]" by code_simp
  have "CHR ''&'' \<notin> set (pct c)"
    using h of_char_div_16 [of c] by (auto simp: pct_def list_all_iff)
  moreover have "uri_unreserved c \<Longrightarrow> c \<noteq> CHR ''&''"
    by (auto simp: uri_unreserved_def alnum_def)
  ultimately show ?case using Cons by (auto simp: e)
qed

lemma c_param_found:
  assumes "CHR ''?'' \<notin> set base"
  shows "c_param (base @ ''?c='' @ q) = Some (takeWhile (\<lambda>c. c \<noteq> CHR ''&'') q)"
  using assms
proof (induction base)
  case Nil
  then show ?case by simp
next
  case (Cons b base)
  then have "b \<noteq> CHR ''?''" by auto
  with Cons show ?case by auto
qed

subsection \<open>Strings\<close>

lemma parse_escape:
  assumes "rest \<noteq> []"
  shows "parse_string_body acc (json_escape c @ rest) = parse_string_body (c # acc) rest"
proof -
  obtain e cs where r: "rest = e # cs" using assms by (cases rest) auto
  show ?thesis
  proof (cases "c \<in> set [CHR 0x22, CHR 0x5C, CHR 0x08, CHR 0x0C, CHR 0x0A, CHR 0x0D, CHR 0x09]")
    case True
    then show ?thesis by (auto simp: json_escape_def r)
  next
    case False
    note plain = this
    show ?thesis
    proof (cases "(of_char c :: nat) < 32")
      case True
      with plain have je: "json_escape c = [CHR 0x5C, CHR ''u'', CHR ''0'', CHR ''0'',
          hexdigit_lower (of_char c div 16), hexdigit_lower (of_char c mod 16)]"
        by (simp add: json_escape_def)
      have h0: "hexval (CHR ''0'') = Some 0" by (simp add: hexval_def)
      from True have d: "(of_char c :: nat) div 16 < 8" by simp
      have x: "hexval (hexdigit_lower (of_char c div 16)) = Some (of_char c div 16)"
        by (rule hexval_hexdigit(2) [OF of_char_div_16])
      have y: "hexval (hexdigit_lower (of_char c mod 16)) = Some (of_char c mod 16)"
        by (rule hexval_hexdigit(2)) simp
      show ?thesis
        using d by (simp add: je r h0 x y char_split)
    next
      case False
      with plain have je: "json_escape c = [c]" by (simp add: json_escape_def)
      from plain False show ?thesis by (simp add: je r)
    qed
  qed
qed

lemma surrogate_code:
  assumes "surrogate_bytes a b c"
  defines "v \<equiv> ((of_char b :: nat) - 0xA0) * 64 + ((of_char c :: nat) - 0x80)"
  shows "v < 2048" and "char_of (0xA0 + v div 64) = b" and "char_of (0x80 + v mod 64) = c"
    and "a = CHR 0xED"
proof -
  from assms(1) have b: "0xA0 \<le> (of_char b :: nat)" "(of_char b :: nat) \<le> 0xBF"
    and c: "0x80 \<le> (of_char c :: nat)" "(of_char c :: nat) \<le> 0xBF" and a: "a = CHR 0xED"
    by (simp_all add: surrogate_bytes_def)
  define x where "x = (of_char b :: nat) - 0xA0"
  define y where "y = (of_char c :: nat) - 0x80"
  from b c have x: "x < 32" "of_char b = 0xA0 + x" and y: "y < 64" "of_char c = 0x80 + y"
    by (simp_all add: x_def y_def)
  have v: "v = x * 64 + y" by (simp add: v_def x_def y_def)
  from x(1) y(1) show "v < 2048" unfolding v by simp
  from y(1) have "v div 64 = x" "v mod 64 = y" unfolding v by simp_all
  then show "char_of (0xA0 + v div 64) = b" "char_of (0x80 + v mod 64) = c"
    using x(2) [symmetric] y(2) [symmetric] by simp_all
  show "a = CHR 0xED" by (rule a)
qed

lemma parse_surrogate_escape:
  assumes s: "surrogate_bytes a b c" and "rest \<noteq> []"
  shows "parse_string_body acc (surrogate_escape b c @ rest)
           = parse_string_body (c # b # a # acc) rest"
proof -
  define v where "v = ((of_char b :: nat) - 0xA0) * 64 + ((of_char c :: nat) - 0x80)"
  note sc = surrogate_code [OF s, folded v_def]
  obtain e cs where r: "rest = e # cs" using assms(2) by (cases rest) auto
  from sc(1) have q: "8 + v div 256 < 16" by simp
  have h13: "hexval (CHR ''d'') = Some 13" by (simp add: hexval_def)
  have hq: "hexval (hexdigit_lower (8 + v div 256)) = Some (8 + v div 256)"
    by (rule hexval_hexdigit(2) [OF q])
  have hx: "hexval (hexdigit_lower (v div 16 mod 16)) = Some (v div 16 mod 16)"
    by (rule hexval_hexdigit(2)) simp
  have hy: "hexval (hexdigit_lower (v mod 16)) = Some (v mod 16)"
    by (rule hexval_hexdigit(2)) simp
  have bk: "v div 256 * 256 + 16 * (v div 16 mod 16) + v mod 16 = v"
  proof -
    have "(v div 16) div 16 = v div 256" by (simp add: div_mult2_eq)
    then have a: "v div 16 = v div 256 * 16 + v div 16 mod 16"
      using div_mult_mod_eq [of "v div 16" 16] by simp
    have "v div 256 * 256 + 16 * (v div 16 mod 16) + v mod 16
          = (v div 256 * 16 + v div 16 mod 16) * 16 + v mod 16" by simp
    also have "\<dots> = v div 16 * 16 + v mod 16" using a by simp
    also have "\<dots> = v" by simp
    finally show ?thesis .
  qed
  have se: "surrogate_escape b c = [CHR 0x5C, CHR ''u'', CHR ''d'', hexdigit_lower (8 + v div 256),
          hexdigit_lower (v div 16 mod 16), hexdigit_lower (v mod 16)]"
    by (simp add: surrogate_escape_def v_def Let_def)
  show ?thesis
    unfolding se r
    by (simp add: h13 hq hx hy bk sc(2,3,4) Let_def)
qed

lemma parse_string_body_escaped:
  "parse_string_body acc (quote_body s @ CHR 0x22 # r) = Some (rev acc @ s, r)"
proof (induction s arbitrary: acc rule: quote_body.induct)
  case (1 a b c cs)
  show ?case
  proof (cases "surrogate_bytes a b c")
    case True
    have "parse_string_body acc (quote_body (a # b # c # cs) @ CHR 0x22 # r)
          = parse_string_body acc (surrogate_escape b c @ (quote_body cs @ CHR 0x22 # r))"
      using True by simp
    also have "\<dots> = parse_string_body (c # b # a # acc) (quote_body cs @ CHR 0x22 # r)"
      by (rule parse_surrogate_escape [OF True]) simp
    also have "\<dots> = Some (rev (c # b # a # acc) @ cs, r)" by (rule 1(1) [OF True])
    finally show ?thesis by simp
  next
    case False
    have "parse_string_body acc (quote_body (a # b # c # cs) @ CHR 0x22 # r)
          = parse_string_body acc (json_escape a @ (quote_body (b # c # cs) @ CHR 0x22 # r))"
      using False by simp
    also have "\<dots> = parse_string_body (a # acc) (quote_body (b # c # cs) @ CHR 0x22 # r)"
      by (rule parse_escape) simp
    also have "\<dots> = Some (rev (a # acc) @ b # c # cs, r)" by (rule 1(2) [OF False])
    finally show ?thesis by simp
  qed
next
  case (2 a b)
  have "parse_string_body acc (quote_body [a, b] @ CHR 0x22 # r)
        = parse_string_body acc (json_escape a @ (quote_body [b] @ CHR 0x22 # r))" by simp
  also have "\<dots> = parse_string_body (a # acc) (quote_body [b] @ CHR 0x22 # r)"
    by (rule parse_escape) simp
  also have "\<dots> = Some (rev (a # acc) @ [b], r)" by (rule 2)
  finally show ?case by simp
next
  case (3 a)
  have "parse_string_body acc (quote_body [a] @ CHR 0x22 # r)
        = parse_string_body acc (json_escape a @ (CHR 0x22 # r))" by simp
  also have "\<dots> = parse_string_body (a # acc) (CHR 0x22 # r)"
    by (rule parse_escape) simp
  also have "\<dots> = Some (rev (a # acc), r)" by (cases r) simp_all
  finally show ?case by simp
next
  case 4
  show ?case by (cases r) simp_all
qed

lemma parse_quoted:
  "parse_string_body [] (tl (json_quote s) @ r) = Some (s, r)"
  using parse_string_body_escaped [of "[]" s r] by (simp add: json_quote_def)

subsection \<open>Numbers\<close>

lemma digit_chars:
  "list_all (\<lambda>k. is_digit (''0123456789'' ! k)
       \<and> (of_char (''0123456789'' ! k) :: nat) - 48 = k
       \<and> (k \<noteq> 0 \<longrightarrow> ''0123456789'' ! k \<noteq> CHR ''0'')) [0..<10]"
  by code_simp

lemma digit_char:
  assumes "k < 10"
  shows "is_digit (''0123456789'' ! k)" "(of_char (''0123456789'' ! k) :: nat) - 48 = k"
    "k \<noteq> 0 \<Longrightarrow> ''0123456789'' ! k \<noteq> CHR ''0''"
  using digit_chars assms by (auto simp: list_all_iff)

lemma digits_all: "list_all is_digit (digits n)"
proof (induction n rule: digits.induct)
  case (1 n)
  show ?case
  proof (cases "n < 10")
    case True
    then show ?thesis using digit_char(1) [of n] by (simp add: digits.simps [of n])
  next
    case False
    with 1 digit_char(1) [of "n mod 10"] show ?thesis by (simp add: digits.simps [of n])
  qed
qed

lemma digits_nonempty: "digits n \<noteq> []"
  by (simp add: digits.simps [of n])

lemma digits_value:
  "foldl (\<lambda>a c. 10 * a + int (of_char c - (48::nat))) 0 (digits n) = int n"
proof (induction n rule: digits.induct)
  case (1 n)
  show ?case
  proof (cases "n < 10")
    case True
    then show ?thesis using digit_char(2) [of n] by (simp add: digits.simps [of n])
  next
    case False
    with 1 digit_char(2) [of "n mod 10"] show ?thesis
      by (simp add: digits.simps [of n]) presburger
  qed
qed

lemma digits_hd: "hd (digits n) = CHR ''0'' \<Longrightarrow> n = 0"
proof (induction n rule: digits.induct)
  case (1 n)
  show ?case
  proof (cases "n < 10")
    case True
    with "1.prems" digit_char(3) [of n] show ?thesis
      by (auto simp: digits.simps [of n])
  next
    case False
    with "1.prems" have "hd (digits (n div 10)) = CHR ''0''"
      by (simp add: digits.simps [of n] digits_nonempty)
    with 1 False have "n div 10 = 0" by simp
    with False show ?thesis by simp
  qed
qed

lemma digits_leading: "length (digits n) > 1 \<Longrightarrow> hd (digits n) \<noteq> CHR ''0''"
proof
  assume l: "length (digits n) > 1" and "hd (digits n) = CHR ''0''"
  then have "n = 0" by (rule_tac digits_hd)
  with l show False by (simp add: digits.simps [of 0])
qed

subsection \<open>The text of a number\<close>

lemma takeWhile_digits:
  assumes "list_all is_digit ds" "r = [] \<or> \<not> is_digit (hd r)"
  shows "takeWhile is_digit (ds @ r) = ds"
    and "dropWhile is_digit (ds @ r) = r"
proof -
  from assms(1) have a: "\<forall>c\<in>set ds. is_digit c" by (simp add: list_all_iff)
  from assms(2) have b: "takeWhile is_digit r = []" "dropWhile is_digit r = r"
    by (cases r; auto)+
  show "takeWhile is_digit (ds @ r) = ds"
    using a b by (simp add: takeWhile_append2)
  show "dropWhile is_digit (ds @ r) = r"
    using a b by (simp add: dropWhile_append2)
qed

lemma ok_rest_not_digit: "ok_rest r \<Longrightarrow> r = [] \<or> \<not> is_digit (hd r)"
  by (auto simp: ok_rest_def is_digit_def)

lemma ok_rest_not_frac: "ok_rest r \<Longrightarrow> \<not> (r \<noteq> [] \<and> hd r \<in> set ''.eE'')"
  by (auto simp: ok_rest_def)

lemma hd_digits_digit: "is_digit (hd (digits m))"
  using digits_all [of m] digits_nonempty [of m] by (cases "digits m") simp_all

lemma parse_number_num_str:
  assumes "ok_rest r"
  shows "parse_number (num_str n @ r) = Some (JNum n, r)"
proof (cases "n < 0")
  case True
  let ?m = "nat (- n)"
  have s: "num_str n @ r = CHR ''-'' # digits ?m @ r" using True by (simp add: num_str_def)
  have tw: "takeWhile is_digit (digits ?m @ r) = digits ?m"
    and dw: "dropWhile is_digit (digits ?m @ r) = r"
    using takeWhile_digits [OF digits_all ok_rest_not_digit [OF assms]] by simp_all
  show ?thesis
    unfolding s parse_number_def
    using True digits_leading [of ?m] ok_rest_not_frac [OF assms]
      digits_all [of ?m, unfolded list_all_iff]
    by (auto simp add: tw dw digits_nonempty digits_value Let_def)
next
  case False
  let ?m = "nat n"
  have s: "num_str n @ r = digits ?m @ r" using False by (simp add: num_str_def)
  have hd: "hd (digits ?m @ r) \<noteq> CHR ''-''"
    using hd_digits_digit [of ?m] digits_nonempty [of ?m] by (auto simp: is_digit_def)
  have tw: "takeWhile is_digit (digits ?m @ r) = digits ?m"
    and dw: "dropWhile is_digit (digits ?m @ r) = r"
    using takeWhile_digits [OF digits_all ok_rest_not_digit [OF assms]] by simp_all
  show ?thesis
    unfolding s parse_number_def
    using False hd digits_leading [of ?m] ok_rest_not_frac [OF assms]
      digits_all [of ?m, unfolded list_all_iff]
    by (auto simp add: tw dw digits_nonempty digits_value Let_def)
qed

lemma num_str_first:
  "num_str n \<noteq> [] \<and> (hd (num_str n) = CHR ''-'' \<or> is_digit (hd (num_str n)))"
  using hd_digits_digit digits_nonempty by (simp add: num_str_def)

lemma update_fresh:
  "k \<notin> fst ` set acc \<Longrightarrow> AList.update k v acc = acc @ [(k, v)]"
  by (induction acc) auto

subsection \<open>Values and array elements\<close>

lemma skip_ws_id: "s \<noteq> [] \<Longrightarrow> \<not> is_ws (hd s) \<Longrightarrow> skip_ws s = s"
  by (cases s) (simp_all add: skip_ws_def)

lemma serializable_Some: "serializable v \<Longrightarrow> JSON_stringify v = Some (stringify_text v)"
  by (cases v) (simp_all add: stringify_text_def)

lemma value_start_plain:
  "value_start c \<Longrightarrow> \<not> is_ws c \<and> c \<noteq> CHR '']'' \<and> c \<noteq> CHR ''}'' \<and> c \<noteq> CHR '',''"
  by (auto simp: value_start_def is_ws_def)

lemma stringify_start:
  "serializable v \<Longrightarrow> stringify_text v \<noteq> [] \<and> value_start (hd (stringify_text v))"
proof (cases v)
  case (JNum n)
  then show ?thesis using num_str_first [of n]
    by (auto simp: stringify_text_def value_start_def is_digit_def)
qed (auto simp: stringify_text_def value_start_def json_quote_def)

lemma parse_value_number:
  assumes "s \<noteq> []" "hd s = CHR ''-'' \<or> is_digit (hd s)"
  shows "parse_value (Suc m) s = parse_number s"
proof -
  obtain c cs where s: "s = c # cs" using assms(1) by (cases s) auto
  from assms(2) s have c: "c = CHR ''-'' \<or> is_digit c" by simp
  then have nw: "\<not> is_ws c" by (auto simp: is_ws_def is_digit_def)
  from c show ?thesis
    by (auto simp: s skip_ws_def nw is_digit_def)
qed

lemma parse_value_atoms:
  "parse_value (Suc m) (''null'' @ r) = Some (JNull, r)"
  "parse_value (Suc m) (''true'' @ r) = Some (JBool True, r)"
  "parse_value (Suc m) (''false'' @ r) = Some (JBool False, r)"
  by (simp_all add: skip_ws_def is_ws_def)

lemma parse_value_string:
  "parse_value (Suc m) (json_quote s @ r) = Some (JStr s, r)"
  using parse_quoted [of s r]
  by (simp add: json_quote_def skip_ws_def is_ws_def)

lemma parse_elements_join:
  assumes "xs \<noteq> []" "\<forall>x\<in>set xs. serializable x \<and> parses x"
    "length (join '','' (map stringify_text xs)) < n"
  shows "parse_elements n acc (join '','' (map stringify_text xs) @ CHR '']'' # r)
           = Some (JArr (acc @ map defined_part xs), r)"
  using assms
proof (induction xs arbitrary: n acc)
  case Nil
  then show ?case by simp
next
  case (Cons x xs)
  note prems = Cons.prems and IH = Cons.IH
  from prems(2) have sx: "serializable x" and px: "parses x" by simp_all
  from prems(3) obtain m where n: "n = Suc m" by (cases n) auto
  show ?case
  proof (cases "xs = []")
    case True
    from prems(3) have l: "length (stringify_text x) \<le> m" by (simp add: n True)
    have "parse_value m (stringify_text x @ CHR '']'' # r) = Some (defined_part x, CHR '']'' # r)"
      using px l by (simp add: parses_def ok_rest_def)
    then show ?thesis by (simp add: n True skip_ws_def is_ws_def)
  next
    case False
    let ?rest = "join '','' (map stringify_text xs)"
    from False obtain y ys where xs: "xs = y # ys" by (cases xs) auto
    have j: "join '','' (map stringify_text (x # xs)) = stringify_text x @ '','' @ ?rest"
      by (simp add: xs)
    from prems(3) [unfolded j] have l: "length (stringify_text x) \<le> m"
      and l': "length ?rest < m"
      by (simp_all add: n)
    have "parse_value m (stringify_text x @ CHR '','' # ?rest @ CHR '']'' # r)
            = Some (defined_part x, CHR '','' # ?rest @ CHR '']'' # r)"
      using px l by (simp add: parses_def ok_rest_def)
    moreover have "parse_elements m (acc @ [defined_part x]) (?rest @ CHR '']'' # r)
            = Some (JArr ((acc @ [defined_part x]) @ map defined_part xs), r)"
      using IH [of m "acc @ [defined_part x]"] prems(2) l' False by simp
    ultimately show ?thesis unfolding j by (simp add: n skip_ws_def is_ws_def)
  qed
qed

subsection \<open>Object members\<close>

lemma parse_members_join:
  assumes "ms \<noteq> []" "\<forall>kv\<in>set ms. serializable (snd kv) \<and> parses (snd kv)"
    "distinct (map fst ms)" "fst ` set ms \<inter> fst ` set acc = {}"
    "length (join '','' (map member_text ms)) < n"
  shows "parse_members n acc (join '','' (map member_text ms) @ CHR ''}'' # r)
           = Some (JObj (acc @ map (\<lambda>kv. (fst kv, defined_part (snd kv))) ms), r)"
  using assms
proof (induction ms arbitrary: n acc)
  case Nil
  then show ?case by simp
next
  case (Cons kv ms)
  note prems = Cons.prems and IH = Cons.IH
  obtain k v where kv: "kv = (k, v)" by (cases kv)
  from prems(2) kv have pv: "parses v" by simp
  from prems(4) kv have fresh: "k \<notin> fst ` set acc" by auto
  from prems(5) obtain m where n: "n = Suc m" by (cases n) auto
  have q: "json_quote k = CHR 0x22 # tl (json_quote k)" by (simp add: json_quote_def)
  have upd: "AList.update k (defined_part v) acc = acc @ [(k, defined_part v)]"
    by (rule update_fresh [OF fresh])
  show ?case
  proof (cases "ms = []")
    case True
    from prems(5) have l: "length (stringify_text v) \<le> m"
      by (simp add: n True kv member_text_def)
    have pvv: "parse_value m (stringify_text v @ CHR ''}'' # r) = Some (defined_part v, CHR ''}'' # r)"
      using pv l by (simp add: parses_def ok_rest_def)
    have H: "parse_members (Suc m) acc
            (CHR 0x22 # tl (json_quote k) @ CHR '':'' # stringify_text v @ CHR ''}'' # r)
          = Some (JObj (acc @ [(k, defined_part v)]), r)"
      using parse_quoted [of k "CHR '':'' # stringify_text v @ CHR ''}'' # r"] pvv upd
      by (simp add: skip_ws_def is_ws_def)
    have e: "join '','' (map member_text (kv # ms)) @ CHR ''}'' # r
          = CHR 0x22 # tl (json_quote k) @ CHR '':'' # stringify_text v @ CHR ''}'' # r"
      by (simp add: True kv member_text_def json_quote_def)
    have res: "acc @ map (\<lambda>kv. (fst kv, defined_part (snd kv))) (kv # ms)
          = acc @ [(k, defined_part v)]"
      by (simp add: True kv)
    show ?thesis unfolding e res n by (rule H)
  next
    case False
    let ?rest = "join '','' (map member_text ms)"
    from False obtain y ys where ms: "ms = y # ys" by (cases ms) auto
    have j: "join '','' (map member_text (kv # ms)) = member_text kv @ '','' @ ?rest"
      by (simp add: ms)
    from prems(5) [unfolded j] have l: "length (stringify_text v) \<le> m"
      and l': "length ?rest < m"
      by (simp_all add: n kv member_text_def)
    have pvv: "parse_value m (stringify_text v @ CHR '','' # ?rest @ CHR ''}'' # r)
            = Some (defined_part v, CHR '','' # ?rest @ CHR ''}'' # r)"
      using pv l by (simp add: parses_def ok_rest_def)
    have disj: "fst ` set ms \<inter> fst ` set (acc @ [(k, defined_part v)]) = {}"
      using prems(3,4) kv by auto
    have ih: "parse_members m (acc @ [(k, defined_part v)]) (?rest @ CHR ''}'' # r)
            = Some (JObj ((acc @ [(k, defined_part v)])
                 @ map (\<lambda>kv. (fst kv, defined_part (snd kv))) ms), r)"
      using IH [of "acc @ [(k, defined_part v)]" m] prems(2,3) disj l' False by simp
    have H: "parse_members (Suc m) acc
            (CHR 0x22 # tl (json_quote k) @ CHR '':'' # stringify_text v
               @ CHR '','' # ?rest @ CHR ''}'' # r)
          = Some (JObj (acc @ (k, defined_part v)
                 # map (\<lambda>kv. (fst kv, defined_part (snd kv))) ms), r)"
      using parse_quoted [of k "CHR '':'' # stringify_text v @ CHR '','' # ?rest @ CHR ''}'' # r"]
        pvv upd ih
      by (simp add: skip_ws_def is_ws_def)
    have e: "join '','' (map member_text (kv # ms)) @ CHR ''}'' # r
          = CHR 0x22 # tl (json_quote k) @ CHR '':'' # stringify_text v
               @ CHR '','' # ?rest @ CHR ''}'' # r"
      unfolding j by (simp add: kv member_text_def json_quote_def)
    have res: "acc @ map (\<lambda>kv. (fst kv, defined_part (snd kv))) (kv # ms)
          = acc @ (k, defined_part v) # map (\<lambda>kv. (fst kv, defined_part (snd kv))) ms"
      by (simp add: kv)
    show ?thesis unfolding e res n by (rule H)
  qed
qed

subsection \<open>The parser reads back what the serialiser writes\<close>

lemma join_hd:
  "xs \<noteq> [] \<Longrightarrow> hd xs \<noteq> [] \<Longrightarrow> join sep xs \<noteq> [] \<and> hd (join sep xs) = hd (hd xs)"
proof (cases xs)
  case Nil
  assume "xs \<noteq> []"
  with Nil show ?thesis by simp
next
  case (Cons x ys)
  assume "hd xs \<noteq> []"
  with Cons show ?thesis by (cases ys) simp_all
qed

lemma stringify_array:
  assumes "list_all serializable xs"
  shows "stringify_text (JArr xs) = CHR ''['' # join '','' (map stringify_text xs) @ '']''"
proof -
  have m: "map (\<lambda>x. case JSON_stringify x of None \<Rightarrow> ''null'' | Some s \<Rightarrow> s) xs
        = map stringify_text xs"
    using assms by (auto simp: list_all_iff serializable_Some)
  show ?thesis by (simp add: stringify_text_def [of "JArr xs"] m)
qed

lemma stringify_members:
  assumes "list_all (\<lambda>kv. snd kv = JUndefined \<or> serializable (snd kv)) kvs"
  shows "concat (map (\<lambda>kv. case JSON_stringify (snd kv) of
                               None \<Rightarrow> []
                             | Some s \<Rightarrow> [json_quote (fst kv) @ '':'' @ s]) kvs)
         = map member_text (filter (\<lambda>kv. snd kv \<noteq> JUndefined) kvs)"
  using assms
proof (induction kvs)
  case Nil
  then show ?case by simp
next
  case (Cons kv kvs)
  then show ?case
    by (cases "snd kv = JUndefined")
       (auto simp: member_text_def serializable_Some)
qed

lemma stringify_object:
  assumes "list_all (\<lambda>kv. snd kv = JUndefined \<or> serializable (snd kv)) kvs"
  shows "stringify_text (JObj kvs) =
           CHR ''{'' # join '','' (map member_text (filter (\<lambda>kv. snd kv \<noteq> JUndefined) kvs))
             @ ''}''"
  using stringify_members [OF assms] by (simp add: stringify_text_def [of "JObj kvs"])

lemma parsesD:
  "parses v \<Longrightarrow> length (stringify_text v) \<le> n \<Longrightarrow> ok_rest r \<Longrightarrow>
   parse_value n (stringify_text v @ r) = Some (defined_part v, r)"
  by (simp add: parses_def)

lemma parses_array:
  assumes ser: "list_all serializable xs" and ih: "\<forall>x\<in>set xs. parses x"
  shows "parses (JArr xs)"
  unfolding parses_def
proof (intro allI impI)
  fix n r
  let ?body = "join '','' (map stringify_text xs)"
  assume len: "length (stringify_text (JArr xs)) \<le> n" and "ok_rest r"
  have stx: "stringify_text (JArr xs) = CHR ''['' # ?body @ '']''"
    by (rule stringify_array [OF ser])
  from len obtain m where n: "n = Suc m" and lb: "length ?body < m"
    by (cases n) (auto simp: stx)
  show "parse_value n (stringify_text (JArr xs) @ r) = Some (defined_part (JArr xs), r)"
  proof (cases "xs = []")
    case True
    show ?thesis unfolding stx n by (simp add: True skip_ws_def is_ws_def)
  next
    case False
    from False ser have s1: "serializable (hd xs)" by (cases xs) simp_all
    have st: "stringify_text (hd xs) \<noteq> []" "value_start (hd (stringify_text (hd xs)))"
      using stringify_start [OF s1] by simp_all
    from False st(1) have jb: "?body \<noteq> []" "hd ?body = hd (stringify_text (hd xs))"
      using join_hd [of "map stringify_text xs" "'',''"] by (simp_all add: hd_map)
    obtain c cs where b: "?body = c # cs" using jb(1) by (cases ?body) auto
    with jb(2) st(2) have vs: "value_start c" by simp
    from value_start_plain [OF vs] have c: "\<not> is_ws c" "c \<noteq> CHR '']''" by simp_all
    have pe: "parse_elements m [] (?body @ CHR '']'' # r) = Some (JArr ([] @ map defined_part xs), r)"
      using ser ih lb by (intro parse_elements_join [OF False]) (auto simp: list_all_iff)
    have "parse_value (Suc m) (CHR ''['' # (c # cs) @ CHR '']'' # r)
            = parse_elements m [] ((c # cs) @ CHR '']'' # r)"
      using c by (simp add: skip_ws_def is_ws_def)
    with pe show ?thesis by (simp add: stx n b)
  qed
qed

lemma parses_object:
  assumes d: "distinct (map fst kvs)"
    and ser: "list_all (\<lambda>kv. snd kv = JUndefined \<or> serializable (snd kv)) kvs"
    and ih: "\<forall>kv\<in>set kvs. serializable (snd kv) \<longrightarrow> parses (snd kv)"
  shows "parses (JObj kvs)"
  unfolding parses_def
proof (intro allI impI)
  fix n r
  let ?ms = "filter (\<lambda>kv. snd kv \<noteq> JUndefined) kvs"
  let ?body = "join '','' (map member_text ?ms)"
  assume len: "length (stringify_text (JObj kvs)) \<le> n" and "ok_rest r"
  have stx: "stringify_text (JObj kvs) = CHR ''{'' # ?body @ ''}''"
    by (rule stringify_object [OF ser])
  from len obtain m where n: "n = Suc m" and lb: "length ?body < m"
    by (cases n) (auto simp: stx)
  have dp: "defined_part (JObj kvs) = JObj (map (\<lambda>kv. (fst kv, defined_part (snd kv))) ?ms)"
    by simp
  show "parse_value n (stringify_text (JObj kvs) @ r) = Some (defined_part (JObj kvs), r)"
  proof (cases "?ms = []")
    case True
    show ?thesis unfolding stx n dp by (simp add: True skip_ws_def is_ws_def)
  next
    case False
    have mt: "member_text (hd ?ms) \<noteq> []" "hd (member_text (hd ?ms)) = CHR 0x22"
      by (simp_all add: member_text_def json_quote_def)
    from False mt(1) have jb: "?body \<noteq> []" "hd ?body = hd (member_text (hd ?ms))"
      using join_hd [of "map member_text ?ms" "'',''"] by (simp_all add: hd_map)
    obtain c cs where b: "?body = c # cs" using jb(1) by (cases ?body) auto
    with jb(2) mt(2) have c: "c = CHR 0x22" by simp
    have all: "\<forall>kv\<in>set ?ms. serializable (snd kv) \<and> parses (snd kv)"
    proof
      fix kv assume "kv \<in> set ?ms"
      then have m: "kv \<in> set kvs" and u: "snd kv \<noteq> JUndefined" by simp_all
      from ser m u have "serializable (snd kv)" by (auto simp: list_all_iff)
      with ih m show "serializable (snd kv) \<and> parses (snd kv)" by blast
    qed
    have dm: "distinct (map fst ?ms)" using d by (simp add: distinct_map_filter)
    have pm: "parse_members m [] (?body @ CHR ''}'' # r)
            = Some (JObj ([] @ map (\<lambda>kv. (fst kv, defined_part (snd kv))) ?ms), r)"
      using lb by (intro parse_members_join [OF False all dm]) simp_all
    have "parse_value (Suc m) (CHR ''{'' # (c # cs) @ CHR ''}'' # r)
            = parse_members m [] ((c # cs) @ CHR ''}'' # r)"
      using c by (simp add: skip_ws_def is_ws_def)
    with pm show ?thesis unfolding dp by (simp add: stx n b)
  qed
qed

lemma serializable_parses: "serializable v \<Longrightarrow> parses v"
proof (induction v)
  case JUndefined
  then show ?case by simp
next
  case JNull
  show ?case unfolding parses_def
  proof (intro allI impI)
    fix n r assume "length (stringify_text JNull) \<le> n"
    then obtain m where "n = Suc m" by (cases n) (auto simp: stringify_text_def)
    then show "parse_value n (stringify_text JNull @ r) = Some (defined_part JNull, r)"
      using parse_value_atoms(1) [of m r] by (simp add: stringify_text_def del: parse_value.simps)
  qed
next
  case (JBool b)
  show ?case unfolding parses_def
  proof (intro allI impI)
    fix n r assume "length (stringify_text (JBool b)) \<le> n"
    then obtain m where "n = Suc m" by (cases n; cases b) (auto simp: stringify_text_def)
    then show "parse_value n (stringify_text (JBool b) @ r) = Some (defined_part (JBool b), r)"
      using parse_value_atoms(2,3) [of m r]
      by (cases b) (simp_all add: stringify_text_def del: parse_value.simps)
  qed
next
  case (JNum i)
  show ?case unfolding parses_def
  proof (intro allI impI)
    fix n r assume l: "length (stringify_text (JNum i)) \<le> n" and ok: "ok_rest r"
    have ne: "num_str i \<noteq> []" using num_str_first by simp
    with l obtain m where n: "n = Suc m" by (cases n) (auto simp: stringify_text_def)
    have "parse_value (Suc m) (num_str i @ r) = parse_number (num_str i @ r)"
      using num_str_first [of i] ne by (intro parse_value_number) simp_all
    then show "parse_value n (stringify_text (JNum i) @ r) = Some (defined_part (JNum i), r)"
      using parse_number_num_str [OF ok, of i]
      by (simp add: stringify_text_def n del: parse_value.simps)
  qed
next
  case (JStr s)
  show ?case unfolding parses_def
  proof (intro allI impI)
    fix n r assume "length (stringify_text (JStr s)) \<le> n"
    then obtain m where "n = Suc m" by (cases n) (auto simp: stringify_text_def json_quote_def)
    then show "parse_value n (stringify_text (JStr s) @ r) = Some (defined_part (JStr s), r)"
      using parse_value_string [of m s r] by (simp add: stringify_text_def del: parse_value.simps)
  qed
next
  case (JArr xs)
  then show ?case by (intro parses_array) (auto simp: list_all_iff)
next
  case (JObj kvs)
  from JObj.prems have d: "distinct (map fst kvs)"
    and ser: "list_all (\<lambda>kv. snd kv = JUndefined \<or> serializable (snd kv)) kvs" by simp_all
  have "\<forall>kv\<in>set kvs. serializable (snd kv) \<longrightarrow> parses (snd kv)"
  proof (intro ballI impI)
    fix kv assume "kv \<in> set kvs" "serializable (snd kv)"
    then show "parses (snd kv)"
      by (rule JObj.IH [OF _ snds.intros])
  qed
  with d ser show ?case by (rule parses_object)
next
  case (JReal s)
  then show ?case by simp
next
  case (JFun src)
  then show ?case by simp
qed

lemma JSON_parse_stringify:
  assumes "serializable v"
  shows "JSON_parse (stringify_text v) = Some (defined_part v)"
proof -
  have "parse_value (Suc (length (stringify_text v))) (stringify_text v @ [])
          = Some (defined_part v, [])"
    by (rule parsesD [OF serializable_parses [OF assms]]) (simp_all add: ok_rest_def)
  then show ?thesis by (simp add: JSON_parse_def skip_ws_def del: parse_value.simps)
qed

subsection \<open>No lone surrogate in a JSON text\<close>

lemma surrogate_bytes_high:
  "surrogate_bytes a b c \<Longrightarrow> \<not> is_ascii a \<and> \<not> is_ascii b \<and> \<not> is_ascii c"
  by (simp add: surrogate_bytes_def is_ascii_def)

lemma lone_surrogate_Cons:
  "lone_surrogate (a # s) = ((\<exists>b c r. s = b # c # r \<and> surrogate_bytes a b c) \<or> lone_surrogate s)"
proof (cases s)
  case Nil
  then show ?thesis by simp
next
  case (Cons b s')
  then show ?thesis by (cases s') simp_all
qed

lemma lone_surrogate_ascii: "is_ascii a \<Longrightarrow> lone_surrogate (a # s) = lone_surrogate s"
  using surrogate_bytes_high by (auto simp: lone_surrogate_Cons)

lemma lone_surrogate_append:
  assumes "\<not> lone_surrogate x" "\<not> lone_surrogate y" "y = [] \<or> is_ascii (hd y)"
  shows "\<not> lone_surrogate (x @ y)"
  using assms(1)
proof (induction x)
  case Nil
  with assms(2) show ?case by simp
next
  case (Cons a x)
  from Cons.prems have nx: "\<not> lone_surrogate x"
    and nt: "\<not> (\<exists>b c r. x = b # c # r \<and> surrogate_bytes a b c)"
    by (simp_all add: lone_surrogate_Cons)
  have "\<not> (\<exists>b c r. x @ y = b # c # r \<and> surrogate_bytes a b c)"
  proof
    assume "\<exists>b c r. x @ y = b # c # r \<and> surrogate_bytes a b c"
    then obtain b c r where e: "x @ y = b # c # r" and s: "surrogate_bytes a b c" by blast
    from surrogate_bytes_high [OF s] have hb: "\<not> is_ascii b" and hc: "\<not> is_ascii c" by simp_all
    show False
    proof (cases x)
      case Nil
      with e have "y = b # c # r" by simp
      with assms(3) hb show False by simp
    next
      case (Cons b' x')
      note x = this
      show False
      proof (cases x')
        case Nil
        with x e have "y = c # r" by simp
        with assms(3) hc show False by simp
      next
        case (Cons c' r')
        with x e have "x = b # c # r'" by simp
        with nt s show False by blast
      qed
    qed
  qed
  with Cons.IH [OF nx] show ?case by (simp add: lone_surrogate_Cons)
qed

lemma clean_Nil: "clean []"
  by (simp add: clean_def)

lemma clean_append: "clean x \<Longrightarrow> clean y \<Longrightarrow> clean (x @ y)"
  using lone_surrogate_append [of x y] by (cases x) (auto simp: clean_def)

lemma clean_ascii: "list_all is_ascii s \<Longrightarrow> clean s"
proof (induction s)
  case Nil
  show ?case by (rule clean_Nil)
next
  case (Cons a s)
  then show ?case by (simp add: clean_def lone_surrogate_ascii)
qed

lemma clean_Cons: "is_ascii a \<Longrightarrow> \<not> lone_surrogate s \<Longrightarrow> clean (a # s)"
  by (simp add: clean_def lone_surrogate_ascii)

lemma hexdigit_lower_ascii: "n < 16 \<Longrightarrow> is_ascii (hexdigit_lower n)"
proof -
  have "list_all (\<lambda>n. is_ascii (hexdigit_lower n)) [0..<16]" by code_simp
  then show "n < 16 \<Longrightarrow> is_ascii (hexdigit_lower n)" by (simp add: list_all_iff)
qed

lemma json_escape_cases:
  "json_escape a = [a] \<and> \<not> (of_char a :: nat) < 32 \<or> list_all is_ascii (json_escape a)"
proof (cases "a \<in> set [CHR 0x22, CHR 0x5C, CHR 0x08, CHR 0x0C, CHR 0x0A, CHR 0x0D, CHR 0x09]")
  case True
  then show ?thesis by (auto simp: json_escape_def is_ascii_def)
next
  case False
  note plain = this
  show ?thesis
  proof (cases "(of_char a :: nat) < 32")
    case True
    then have "(of_char a :: nat) div 16 < 16" by simp
    with plain True show ?thesis
      by (simp add: json_escape_def hexdigit_lower_ascii) (simp add: is_ascii_def)
  next
    case False
    with plain show ?thesis by (simp add: json_escape_def)
  qed
qed

lemma surrogate_escape_ascii:
  assumes "surrogate_bytes a b c"
  shows "list_all is_ascii (surrogate_escape b c)"
proof -
  define v where "v = ((of_char b :: nat) - 0xA0) * 64 + ((of_char c :: nat) - 0x80)"
  from surrogate_code(1) [OF assms, folded v_def] have "8 + v div 256 < 16" by simp
  then have "is_ascii (hexdigit_lower (8 + v div 256))" by (rule hexdigit_lower_ascii)
  moreover have "is_ascii (hexdigit_lower (v div 16 mod 16))" "is_ascii (hexdigit_lower (v mod 16))"
    by (rule hexdigit_lower_ascii, simp)+
  moreover have "is_ascii (CHR 0x5C)" "is_ascii (CHR ''u'')" "is_ascii (CHR ''d'')"
    by (simp_all add: is_ascii_def)
  ultimately show ?thesis by (simp add: surrogate_escape_def Let_def v_def)
qed

lemma lone_surrogate_ascii_append:
  "list_all is_ascii x \<Longrightarrow> lone_surrogate (x @ y) = lone_surrogate y"
  by (induction x) (simp_all add: lone_surrogate_ascii)

lemma quote_body_Cons:
  "\<not> (\<exists>b c r. s = b # c # r \<and> surrogate_bytes a b c) \<Longrightarrow>
   quote_body (a # s) = json_escape a @ quote_body s"
proof (cases s)
  case Nil
  then show ?thesis by simp
next
  case (Cons b s')
  assume "\<not> (\<exists>b c r. s = b # c # r \<and> surrogate_bytes a b c)"
  with Cons show ?thesis by (cases s') simp_all
qed

lemma quote_body_high:
  assumes "quote_body s = x # out" "\<not> is_ascii x"
  shows "\<exists>s'. s = x # s' \<and> out = quote_body s'
           \<and> \<not> (\<exists>b c r. s' = b # c # r \<and> surrogate_bytes x b c)"
proof (cases s)
  case Nil
  with assms(1) show ?thesis by simp
next
  case (Cons a s')
  show ?thesis
  proof (cases "\<exists>b c r. s' = b # c # r \<and> surrogate_bytes a b c")
    case True
    then obtain b c r where s': "s' = b # c # r" and sb: "surrogate_bytes a b c" by blast
    from surrogate_escape_ascii [OF sb] have "is_ascii (hd (surrogate_escape b c))"
      by (simp add: surrogate_escape_def Let_def)
    moreover have "surrogate_escape b c \<noteq> []" by (simp add: surrogate_escape_def Let_def)
    ultimately have "is_ascii (hd (quote_body s))"
      using sb by (simp add: Cons s')
    with assms show ?thesis by simp
  next
    case False
    from quote_body_Cons [OF False] have q: "quote_body s = json_escape a @ quote_body s'"
      by (simp add: Cons)
    from json_escape_cases [of a] show ?thesis
    proof
      assume "json_escape a = [a] \<and> \<not> (of_char a :: nat) < 32"
      with q assms(1) have "x = a" "out = quote_body s'" by simp_all
      with False Cons show ?thesis by simp
    next
      assume a: "list_all is_ascii (json_escape a)"
      have "json_escape a \<noteq> []" by (simp add: json_escape_def)
      with a q have "is_ascii (hd (quote_body s))" by (cases "json_escape a") simp_all
      with assms show ?thesis by simp
    qed
  qed
qed

lemma quote_body_no_surrogate: "\<not> lone_surrogate (quote_body s)"
proof (induction s rule: length_induct)
  case (1 s)
  show ?case
  proof (cases s)
    case Nil
    then show ?thesis by simp
  next
    case (Cons a s')
    show ?thesis
    proof (cases "\<exists>b c r. s' = b # c # r \<and> surrogate_bytes a b c")
      case True
      then obtain b c r where s': "s' = b # c # r" and sb: "surrogate_bytes a b c" by blast
      have "\<not> lone_surrogate (quote_body r)" using 1 by (simp add: Cons s')
      then show ?thesis
        using sb by (simp add: Cons s' lone_surrogate_ascii_append [OF surrogate_escape_ascii [OF sb]])
    next
      case False
      from quote_body_Cons [OF False] have q: "quote_body s = json_escape a @ quote_body s'"
        by (simp add: Cons)
      have ih: "\<not> lone_surrogate (quote_body s')" using 1 by (simp add: Cons)
      from json_escape_cases [of a] show ?thesis
      proof
        assume "json_escape a = [a] \<and> \<not> (of_char a :: nat) < 32"
        then have q': "quote_body s = a # quote_body s'" using q by simp
        have "\<not> (\<exists>b c r. quote_body s' = b # c # r \<and> surrogate_bytes a b c)"
        proof
          assume "\<exists>b c r. quote_body s' = b # c # r \<and> surrogate_bytes a b c"
          then obtain b c r where o: "quote_body s' = b # c # r" and sb: "surrogate_bytes a b c"
            by blast
          from surrogate_bytes_high [OF sb] have hb: "\<not> is_ascii b" and hc: "\<not> is_ascii c"
            by simp_all
          from quote_body_high [OF o hb] obtain s'' where
            s'': "s' = b # s''" "c # r = quote_body s''" by blast
          from quote_body_high [OF s''(2) [symmetric] hc] obtain s3 where "s'' = c # s3" by blast
          with s''(1) sb False show False by simp
        qed
        with ih show ?thesis by (simp add: q' lone_surrogate_Cons)
      next
        assume "list_all is_ascii (json_escape a)"
        with ih show ?thesis by (simp add: q lone_surrogate_ascii_append)
      qed
    qed
  qed
qed

lemma clean_json_quote: "clean (json_quote s)"
proof -
  have "\<not> lone_surrogate (quote_body s @ [CHR 0x22])"
    by (rule lone_surrogate_append [OF quote_body_no_surrogate]) (simp_all add: is_ascii_def)
  then show ?thesis unfolding json_quote_def by (intro clean_Cons) (simp_all add: is_ascii_def)
qed

lemma is_digit_ascii: "is_digit c \<Longrightarrow> is_ascii c"
  by (auto simp: is_digit_def is_ascii_def)

lemma clean_num_str: "clean (num_str n)"
proof -
  have "list_all is_ascii (digits m)" for m
    using digits_all [of m] is_digit_ascii by (auto simp: list_all_iff)
  then show ?thesis by (intro clean_ascii) (simp add: num_str_def is_ascii_def)
qed

lemma clean_join:
  "\<forall>x\<in>set xs. clean x \<Longrightarrow> clean sep \<Longrightarrow> clean (join sep xs)"
proof (induction sep xs rule: join.induct)
  case (3 sep x y ys)
  then show ?case by (simp add: clean_append)
qed (simp_all add: clean_Nil)

lemma clean_text: "list_all is_ascii s \<Longrightarrow> clean s"
  by (rule clean_ascii)

lemma clean_stringify: "keys_distinct v \<Longrightarrow> JSON_stringify v = Some s \<Longrightarrow> clean s"
proof (induction v arbitrary: s)
  case (JBool b)
  then show ?case by (cases b) (auto intro!: clean_ascii simp: is_ascii_def)
next
  case (JNum n)
  then show ?case by (auto simp: clean_num_str)
next
  case (JStr t)
  then show ?case by (auto simp: clean_json_quote)
next
  case JNull
  then show ?case by (auto intro!: clean_ascii simp: is_ascii_def)
next
  case (JArr xs)
  let ?f = "\<lambda>x. case JSON_stringify x of None \<Rightarrow> ''null'' | Some s \<Rightarrow> s"
  have "\<forall>y\<in>set (map ?f xs). clean y"
  proof
    fix y assume "y \<in> set (map ?f xs)"
    then obtain x where x: "x \<in> set xs" and y: "y = ?f x" by auto
    show "clean y"
    proof (cases "JSON_stringify x")
      case None
      with y show ?thesis by (auto intro!: clean_ascii simp: is_ascii_def)
    next
      case (Some t)
      from JArr.prems(1) x have "keys_distinct x" by (simp add: list_all_iff)
      then have "clean t" using Some by (rule JArr.IH [OF x])
      with y Some show ?thesis by simp
    qed
  qed
  then have "clean (join '','' (map ?f xs))"
    by (rule clean_join) (auto intro!: clean_ascii simp: is_ascii_def)
  then have "clean (''['' @ join '','' (map ?f xs) @ '']'')"
    by (intro clean_append) (auto intro!: clean_ascii simp: is_ascii_def)
  with JArr.prems(2) show ?case by simp
next
  case (JObj kvs)
  let ?g = "\<lambda>kv. case JSON_stringify (snd kv) of
                   None \<Rightarrow> [] | Some s \<Rightarrow> [json_quote (fst kv) @ '':'' @ s]"
  have "\<forall>y\<in>set (concat (map ?g kvs)). clean y"
  proof
    fix y assume "y \<in> set (concat (map ?g kvs))"
    then obtain kv where kv: "kv \<in> set kvs" and y: "y \<in> set (?g kv)" by auto
    show "clean y"
    proof (cases "JSON_stringify (snd kv)")
      case None
      with y show ?thesis by simp
    next
      case (Some t)
      from JObj.prems(1) kv have "keys_distinct (snd kv)" by (simp add: list_all_iff)
      then have "clean t" using Some by (rule JObj.IH [OF kv snds.intros])
      then have "clean (json_quote (fst kv) @ '':'' @ t)"
        by (intro clean_append clean_json_quote) (auto intro!: clean_ascii simp: is_ascii_def)
      with y Some show ?thesis by simp
    qed
  qed
  then have "clean (join '','' (concat (map ?g kvs)))"
    by (rule clean_join) (auto intro!: clean_ascii simp: is_ascii_def)
  then have "clean (''{'' @ join '','' (concat (map ?g kvs)) @ ''}'')"
    by (intro clean_append) (auto intro!: clean_ascii simp: is_ascii_def)
  with JObj.prems(2) show ?case by simp
qed simp_all

lemma stringify_text_no_surrogate:
  assumes "keys_distinct v"
  shows "\<not> lone_surrogate (stringify_text v)"
proof (cases "JSON_stringify v")
  case None
  have "clean ''undefined''" by (rule clean_ascii) (simp add: is_ascii_def)
  with None show ?thesis by (simp add: stringify_text_def clean_def)
next
  case (Some s)
  with clean_stringify [OF assms Some] show ?thesis by (simp add: stringify_text_def clean_def)
qed

lemma encodeURIComponent_stringify:
  "keys_distinct v \<Longrightarrow>
   encodeURIComponent (stringify_text v) = Inr (pct_encode (stringify_text v))"
  by (simp add: encodeURIComponent_def stringify_text_no_surrogate)

subsection \<open>What the serialiser carries\<close>

lemma list_all_mapI: "(\<And>x. x \<in> set xs \<Longrightarrow> P (f x)) \<Longrightarrow> list_all P (map f xs)"
  by (induction xs) simp_all

lemma stringify_None: "JSON_stringify v = None \<longleftrightarrow> v = JUndefined \<or> (\<exists>s. v = JFun s)"
  by (cases v) simp_all

lemma sent_stringify: "JSON_stringify (sent v) = JSON_stringify v"
proof (induction v)
  case (JArr xs)
  have m: "map (\<lambda>x. case JSON_stringify x of None \<Rightarrow> ''null'' | Some s \<Rightarrow> s)
          (map (\<lambda>x. if JSON_stringify x = None then JNull else sent x) xs)
        = map (\<lambda>x. case JSON_stringify x of None \<Rightarrow> ''null'' | Some s \<Rightarrow> s) xs"
    using JArr.IH by (auto split: option.splits)
  show ?case by (simp only: sent.simps JSON_stringify.simps m)
next
  case (JObj kvs)
  let ?F = "\<lambda>kv. case JSON_stringify (snd kv) of
                    None \<Rightarrow> [] | Some s \<Rightarrow> [json_quote (fst kv) @ '':'' @ s]"
  have ih: "\<And>kv. kv \<in> set kvs \<Longrightarrow> JSON_stringify (sent (snd kv)) = JSON_stringify (snd kv)"
    by (rule JObj.IH [OF _ snds.intros])
  have "set ys \<subseteq> set kvs \<Longrightarrow>
        concat (map ?F (map (\<lambda>kv. (fst kv, sent (snd kv)))
                         (filter (\<lambda>kv. JSON_stringify (snd kv) \<noteq> None) ys)))
        = concat (map ?F ys)" for ys
  proof (induction ys)
    case Nil
    then show ?case by simp
  next
    case (Cons y ys)
    then have "y \<in> set kvs" by simp
    from ih [OF this] Cons show ?case by (cases "JSON_stringify (snd y)") simp_all
  qed
  from this [of kvs] show ?case by simp
qed simp_all

lemma sent_stringify_text: "stringify_text (sent v) = stringify_text v"
  by (simp add: stringify_text_def sent_stringify)

lemma sent_serializable:
  "keys_distinct v \<Longrightarrow> JSON_stringify v \<noteq> None \<Longrightarrow> serializable (sent v)"
proof (induction v)
  case (JArr xs)
  have "list_all serializable (map (\<lambda>x. if JSON_stringify x = None then JNull else sent x) xs)"
  proof (rule list_all_mapI)
    fix x assume x: "x \<in> set xs"
    with JArr.prems have "keys_distinct x" by (simp add: list_all_iff)
    with JArr.IH [OF x] show "serializable (if JSON_stringify x = None then JNull else sent x)"
      by simp
  qed
  then show ?case by (simp only: sent.simps serializable.simps)
next
  case (JObj kvs)
  let ?ms = "filter (\<lambda>kv. JSON_stringify (snd kv) \<noteq> None) kvs"
  from JObj.prems have d: "distinct (map fst kvs)"
    and k: "\<forall>kv\<in>set kvs. keys_distinct (snd kv)" by (simp_all add: list_all_iff)
  have "\<forall>kv\<in>set ?ms. serializable (sent (snd kv))"
  proof
    fix kv assume "kv \<in> set ?ms"
    then have m: "kv \<in> set kvs" and s: "JSON_stringify (snd kv) \<noteq> None" by simp_all
    from k m have "keys_distinct (snd kv)" by blast
    then show "serializable (sent (snd kv))" using s by (rule JObj.IH [OF m snds.intros])
  qed
  moreover have "distinct (map fst ?ms)" using d by (simp add: distinct_map_filter)
  ultimately show ?case by (auto simp: list_all_iff comp_def)
qed simp_all

lemma sent_not_undefined: "sent v = JUndefined \<longleftrightarrow> v = JUndefined"
  by (cases v) simp_all

lemma defined_part_sent: "defined_part (sent v) = sent v"
proof (induction v)
  case (JArr xs)
  then show ?case by (auto simp: comp_def)
next
  case (JObj kvs)
  let ?ms = "filter (\<lambda>kv. JSON_stringify (snd kv) \<noteq> None) kvs"
  let ?G = "\<lambda>kv. (fst kv, sent (snd kv))"
  have a: "filter (\<lambda>kv. snd kv \<noteq> JUndefined) (map ?G ?ms) = map ?G ?ms"
    by (auto simp: filter_id_conv sent_not_undefined stringify_None)
  have b: "map (\<lambda>kv. (fst kv, defined_part (snd kv))) (map ?G ?ms) = map ?G ?ms"
    using JObj.IH [OF _ snds.intros] by auto
  show ?case unfolding sent.simps defined_part.simps a b ..
qed simp_all

lemma serializable_stringify: "serializable v \<Longrightarrow> JSON_stringify v \<noteq> None"
  by (cases v) simp_all

lemma sent_defined_part: "serializable v \<Longrightarrow> sent v = defined_part v"
proof (induction v)
  case (JArr xs)
  then show ?case by (auto simp: list_all_iff serializable_stringify)
next
  case (JObj kvs)
  from JObj.prems have s: "\<forall>kv\<in>set kvs. snd kv = JUndefined \<or> serializable (snd kv)"
    by (simp add: list_all_iff)
  have a: "filter (\<lambda>kv. JSON_stringify (snd kv) \<noteq> None) kvs
             = filter (\<lambda>kv. snd kv \<noteq> JUndefined) kvs"
  proof (intro filter_cong refl)
    fix kv assume m: "kv \<in> set kvs"
    show "(JSON_stringify (snd kv) \<noteq> None) = (snd kv \<noteq> JUndefined)"
    proof (cases "snd kv = JUndefined")
      case True
      then show ?thesis by simp
    next
      case False
      with s m have "serializable (snd kv)" by blast
      with False serializable_stringify show ?thesis by blast
    qed
  qed
  have b: "map (\<lambda>kv. (fst kv, sent (snd kv))) (filter (\<lambda>kv. snd kv \<noteq> JUndefined) kvs)
         = map (\<lambda>kv. (fst kv, defined_part (snd kv))) (filter (\<lambda>kv. snd kv \<noteq> JUndefined) kvs)"
  proof (intro map_cong refl)
    fix kv assume "kv \<in> set (filter (\<lambda>kv. snd kv \<noteq> JUndefined) kvs)"
    then have m: "kv \<in> set kvs" and u: "snd kv \<noteq> JUndefined" by simp_all
    with s have "serializable (snd kv)" by blast
    then have "sent (snd kv) = defined_part (snd kv)" by (rule JObj.IH [OF m snds.intros])
    then show "(fst kv, sent (snd kv)) = (fst kv, defined_part (snd kv))" by simp
  qed
  show ?case unfolding sent.simps defined_part.simps a b ..
qed simp_all

lemma fun_free_sent: "JSON_stringify v \<noteq> None \<Longrightarrow> fun_free (sent v)"
proof (induction v)
  case (JArr xs)
  have "list_all fun_free (map (\<lambda>x. if JSON_stringify x = None then JNull else sent x) xs)"
    using JArr.IH by (intro list_all_mapI) simp
  then show ?case by (simp only: sent.simps fun_free.simps)
next
  case (JObj kvs)
  have "\<forall>kv\<in>set (filter (\<lambda>kv. JSON_stringify (snd kv) \<noteq> None) kvs). fun_free (sent (snd kv))"
    using JObj.IH [OF _ snds.intros] by auto
  then show ?case by (simp add: list_all_iff comp_def)
qed simp_all

lemma fun_free_defined_part: "fun_free (defined_part v) = fun_free v"
proof (induction v)
  case (JArr xs)
  then show ?case by (auto simp: list_all_iff)
next
  case (JObj kvs)
  have ih: "\<And>kv. kv \<in> set kvs \<Longrightarrow> fun_free (defined_part (snd kv)) = fun_free (snd kv)"
    by (rule JObj.IH [OF _ snds.intros])
  have L: "fun_free (defined_part (JObj kvs))
           = (\<forall>kv\<in>set kvs. snd kv \<noteq> JUndefined \<longrightarrow> fun_free (defined_part (snd kv)))"
    by (auto simp: list_all_iff)
  have R: "fun_free (JObj kvs) = (\<forall>kv\<in>set kvs. fun_free (snd kv))"
    by (simp add: list_all_iff)
  have "(\<forall>kv\<in>set kvs. snd kv \<noteq> JUndefined \<longrightarrow> fun_free (defined_part (snd kv)))
        \<longleftrightarrow> (\<forall>kv\<in>set kvs. fun_free (snd kv))"
  proof
    assume a: "\<forall>kv\<in>set kvs. snd kv \<noteq> JUndefined \<longrightarrow> fun_free (defined_part (snd kv))"
    show "\<forall>kv\<in>set kvs. fun_free (snd kv)"
    proof
      fix kv assume m: "kv \<in> set kvs"
      show "fun_free (snd kv)"
      proof (cases "snd kv = JUndefined")
        case True
        then show ?thesis by simp
      next
        case False
        with a m ih [OF m] show ?thesis by simp
      qed
    qed
  next
    assume "\<forall>kv\<in>set kvs. fun_free (snd kv)"
    with ih show "\<forall>kv\<in>set kvs. snd kv \<noteq> JUndefined \<longrightarrow> fun_free (defined_part (snd kv))"
      by simp
  qed
  then show ?case unfolding L R .
qed simp_all

lemma fun_free_get: "fun_free v \<Longrightarrow> fun_free (get v k)"
proof (cases v)
  case (JObj kvs)
  assume "fun_free v"
  with JObj have a: "\<forall>kv\<in>set kvs. fun_free (snd kv)" by (simp add: list_all_iff)
  show ?thesis
  proof (cases "map_of kvs k")
    case None
    with JObj show ?thesis by simp
  next
    case (Some x)
    then have "(k, x) \<in> set kvs" by (rule map_of_SomeD)
    with a have "fun_free x" by auto
    with JObj Some show ?thesis by simp
  qed
qed simp_all

lemma JSON_parse_sent:
  assumes "keys_distinct v" "JSON_stringify v \<noteq> None"
  shows "JSON_parse (stringify_text v) = Some (sent v)"
  using JSON_parse_stringify [OF sent_serializable [OF assms]]
  by (simp add: sent_stringify_text defined_part_sent)

lemma serializable_keys_distinct: "serializable v \<Longrightarrow> keys_distinct v"
proof (induction v)
  case (JArr xs)
  then show ?case by (auto simp: list_all_iff)
next
  case (JObj kvs)
  have "\<forall>kv\<in>set kvs. keys_distinct (snd kv)"
  proof
    fix kv assume m: "kv \<in> set kvs"
    show "keys_distinct (snd kv)"
    proof (cases "snd kv = JUndefined")
      case True
      then show ?thesis by simp
    next
      case False
      with JObj.prems m have "serializable (snd kv)" by (auto simp: list_all_iff)
      then show ?thesis by (rule JObj.IH [OF m snds.intros])
    qed
  qed
  with JObj.prems show ?case by (simp add: list_all_iff)
qed simp_all

subsection \<open>What the builder makes of a parsed request\<close>

lemma json_serializable: "json v \<Longrightarrow> serializable v"
proof (induction v)
  case (JArr xs)
  then show ?case by (auto simp: list_all_iff)
next
  case (JObj kvs)
  have "\<forall>kv\<in>set kvs. serializable (snd kv)"
  proof
    fix kv assume m: "kv \<in> set kvs"
    with JObj.prems have "json (snd kv)" by (auto simp: list_all_iff)
    then show "serializable (snd kv)" by (rule JObj.IH [OF m snds.intros])
  qed
  with JObj.prems show ?case by (auto simp: list_all_iff)
qed simp_all

lemma json_get: "json v \<Longrightarrow> get v k = JUndefined \<or> json (get v k)"
proof (cases v)
  case (JObj kvs)
  assume "json v"
  with JObj have a: "\<forall>kv\<in>set kvs. json (snd kv)" by (simp add: list_all_iff)
  show ?thesis
  proof (cases "map_of kvs k")
    case None
    with JObj show ?thesis by simp
  next
    case (Some x)
    then have "(k, x) \<in> set kvs" by (rule map_of_SomeD)
    with a have "json x" by auto
    with JObj Some show ?thesis by simp
  qed
qed simp_all

lemma json_get_loose: "json v \<Longrightarrow> loose (get v k)"
  using json_get [of v k] json_serializable by (auto simp: loose_def)

lemma json_truthy_get: "json v \<Longrightarrow> truthy (get v k) \<Longrightarrow> json (get v k)"
  using json_get [of v k] by auto

lemma json_elements: "json v \<Longrightarrow> list_all json (elements v)"
  by (cases v) simp_all

lemma json_spread: "json v \<Longrightarrow> list_all (\<lambda>kv. json (snd kv)) (spread v)"
proof (cases v)
  case (JArr xs)
  assume "json v"
  with JArr have "\<forall>x\<in>set xs. json x" by (simp add: list_all_iff)
  then have "\<forall>kv\<in>set (zip (map digits [0..<length xs]) xs). json (snd kv)"
    by (auto dest: set_zip_rightD)
  with JArr show ?thesis by (simp add: list_all_iff)
next
  case (JStr s)
  have "\<forall>kv\<in>set (zip (map digits [0..<length s]) (map (\<lambda>c. JStr [c]) s)). json (snd kv)"
    by (auto dest!: set_zip_rightD)
  with JStr show ?thesis by (simp add: list_all_iff)
qed (simp_all add: list_all_iff)

lemma update_values:
  "P v \<Longrightarrow> list_all (\<lambda>kv. P (snd kv)) al \<Longrightarrow> list_all (\<lambda>kv. P (snd kv)) (AList.update k v al)"
  by (induction al) auto

lemma assign_values:
  "list_all (\<lambda>kv. P (snd kv)) base \<Longrightarrow> list_all (\<lambda>kv. P (snd kv)) ext \<Longrightarrow>
   list_all (\<lambda>kv. P (snd kv)) (assign base ext)"
proof (induction ext arbitrary: base)
  case Nil
  then show ?case by (simp add: assign_def)
next
  case (Cons kv ext)
  from Cons.prems have "list_all (\<lambda>kv. P (snd kv)) (AList.update (fst kv) (snd kv) base)"
    by (intro update_values) simp_all
  with Cons.IH [of "AList.update (fst kv) (snd kv) base"] Cons.prems show ?case
    by (simp add: assign_def)
qed

lemma assign_distinct:
  "distinct (map fst base) \<Longrightarrow> distinct (map fst (assign base ext))"
proof (induction ext arbitrary: base)
  case Nil
  then show ?case by (simp add: assign_def)
next
  case (Cons kv ext)
  from Cons.prems have "distinct (map fst (AList.update (fst kv) (snd kv) base))"
    by (rule distinct_update)
  with Cons.IH [of "AList.update (fst kv) (snd kv) base"] show ?case
    by (simp add: assign_def)
qed

lemma serializable_object:
  "distinct (map fst kvs) \<Longrightarrow> list_all (\<lambda>kv. loose (snd kv)) kvs \<Longrightarrow> serializable (JObj kvs)"
  by (simp add: loose_def)

lemma json_loose: "json v \<Longrightarrow> loose v"
  by (simp add: loose_def json_serializable)

lemma list_all_json_loose:
  "list_all (\<lambda>kv. json (snd kv)) kvs \<Longrightarrow> list_all (\<lambda>kv. loose (snd kv)) kvs"
  by (auto simp: list_all_iff json_loose)

lemma normalizeDataset_serializable:
  assumes "json d" "normalizeDataset d = Inr nd"
  shows "serializable nd"
proof -
  let ?ac = "if truthy (get d ''additionalConfig'') then get d ''additionalConfig'' else JObj []"
  let ?base = "[(''label'', if truthy (get d ''label'') then get d ''label'' else JStr []),
           (''data'', get d ''data''),
           (''backgroundColor'', get d ''backgroundColor''),
           (''borderColor'', get d ''borderColor'')]"
  from assms(2) have nd: "nd = JObj (assign ?base (spread ?ac))"
    by (simp add: normalizeDataset_def split: if_splits)
  have "json ?ac" using json_truthy_get [OF assms(1)] by simp
  then have e: "list_all (\<lambda>kv. loose (snd kv)) (spread ?ac)"
    by (intro list_all_json_loose json_spread)
  have l: "loose (if truthy (get d ''label'') then get d ''label'' else JStr [])"
    using json_get_loose [OF assms(1), of "''label''"] by (simp add: loose_def)
  have b: "list_all (\<lambda>kv. loose (snd kv)) ?base"
    using l json_get_loose [OF assms(1)] by simp
  have "distinct (map fst ?base)" by simp
  then have "distinct (map fst (assign ?base (spread ?ac)))" by (rule assign_distinct)
  moreover have "list_all (\<lambda>kv. loose (snd kv)) (assign ?base (spread ?ac))"
    using b e by (rule assign_values)
  ultimately show ?thesis unfolding nd by (rule serializable_object)
qed

lemma map_throwing_serializable:
  assumes "list_all json ds" "map_throwing normalizeDataset ds = Inr nds"
  shows "list_all serializable nds"
proof -
  from map_throwing_nth [OF assms(2)] have len: "length nds = length ds"
    and nth: "\<forall>i<length ds. normalizeDataset (ds ! i) = Inr (nds ! i)" by simp_all
  have "\<forall>i<length nds. serializable (nds ! i)"
  proof (intro allI impI)
    fix i assume i: "i < length nds"
    with len assms(1) have "json (ds ! i)" by (simp add: list_all_length)
    moreover from i len nth have "normalizeDataset (ds ! i) = Inr (nds ! i)" by simp
    ultimately show "serializable (nds ! i)" by (rule normalizeDataset_serializable)
  qed
  then show ?thesis by (simp add: list_all_length)
qed

lemma chart_options_serializable:
  assumes "json args"
  shows "serializable (JObj (chart_options args))"
proof -
  let ?o = "case get args ''options'' of JUndefined \<Rightarrow> JObj [] | v \<Rightarrow> v"
  let ?t = "if truthy (get args ''title'')
            then JObj [(''title'', JObj [(''display'', JBool True), (''text'', get args ''title'')])]
            else get args ''title''"
  have jo: "json ?o" using json_get [OF assms, of "''options''"]
    by (cases "get args ''options''") simp_all
  have jt: "list_all (\<lambda>kv. json (snd kv)) (spread ?t)"
  proof (cases "truthy (get args ''title'')")
    case True
    with json_truthy_get [OF assms True] show ?thesis by simp
  next
    case False
    then have "spread (get args ''title'') = []"
      by (cases "get args ''title''") simp_all
    with False show ?thesis by simp
  qed
  have co: "chart_options args = assign (assign [] (spread ?o)) (spread ?t)"
    by (simp add: chart_options_def)
  have lo: "list_all (\<lambda>kv. loose (snd kv)) (spread ?o)"
    by (rule list_all_json_loose [OF json_spread [OF jo]])
  have lt: "list_all (\<lambda>kv. loose (snd kv)) (spread ?t)"
    by (rule list_all_json_loose [OF jt])
  have e: "list_all (\<lambda>kv. loose (snd kv)) ([] :: (string \<times> jsval) list)" by simp
  have "list_all (\<lambda>kv. loose (snd kv)) (assign [] (spread ?o))"
    using e lo by (rule assign_values)
  then have "list_all (\<lambda>kv. loose (snd kv)) (chart_options args)"
    unfolding co using lt by (rule assign_values)
  moreover have "distinct (map fst (chart_options args))"
    unfolding co by (intro assign_distinct) simp
  ultimately show ?thesis by (rule serializable_object [rotated])
qed

lemma buildChartConfig_serializable:
  assumes j: "json args" and b: "buildChartConfig (JStr t) args = Inr cfg"
    and t: "t \<noteq> ''radialGauge''" "t \<noteq> ''speedometer''"
  shows "serializable cfg \<and> get cfg ''type'' = JStr t"
proof (cases "map_throwing normalizeDataset (elements (get args ''datasets''))")
  case (Inl e)
  with b show ?thesis by (simp add: buildChartConfig_def)
next
  case (Inr nds)
  let ?labels = "if truthy (get args ''labels'') then get args ''labels'' else JArr []"
  from b Inr t have c: "cfg = JObj [(''type'', JStr t),
       (''data'', JObj [(''labels'', ?labels), (''datasets'', JArr nds)]),
       (''options'', JObj (chart_options args))]"
    by (simp add: buildChartConfig_def Let_def split: if_splits)
  have "json (get args ''datasets'') \<or> get args ''datasets'' = JUndefined"
    using json_get [OF j] by blast
  then have "list_all json (elements (get args ''datasets''))"
    using json_elements by auto
  then have n: "list_all serializable nds" using Inr by (rule map_throwing_serializable)
  have l: "serializable ?labels"
    using json_truthy_get [OF j, of "''labels''"] json_serializable by simp
  have o: "serializable (JObj (chart_options args))"
    by (rule chart_options_serializable [OF j])
  have d: "serializable (JObj [(''labels'', ?labels), (''datasets'', JArr nds)])"
    using l n by simp
  have "serializable (JObj [(''type'', JStr t),
       (''data'', JObj [(''labels'', ?labels), (''datasets'', JArr nds)]),
       (''options'', JObj (chart_options args))])"
    using d o by simp
  then show ?thesis unfolding c by simp
qed

lemma generateChartConfig_build:
  assumes "generateChartConfig args = Inr cfg" "get args ''type'' = JStr t"
    "t \<noteq> ''graphviz''" "t \<noteq> ''wordcloud''"
  shows "buildChartConfig (JStr t) args = Inr cfg"
  using assms
  by (simp add: generateChartConfig_def Let_def split: if_splits sum.splits)

lemma chart_data_serializable:
  assumes j: "json args"
    and m: "map_throwing normalizeDataset (elements (get args ''datasets'')) = Inr nds"
  shows "serializable (JObj [(''labels'', if truthy (get args ''labels'')
                                         then get args ''labels'' else JArr []),
                             (''datasets'', JArr nds)])"
proof -
  have "json (get args ''datasets'') \<or> get args ''datasets'' = JUndefined"
    using json_get [OF j] by blast
  then have "list_all json (elements (get args ''datasets''))"
    using json_elements by auto
  then have n: "list_all serializable nds" using m by (rule map_throwing_serializable)
  have l: "serializable (if truthy (get args ''labels'') then get args ''labels'' else JArr [])"
    using json_truthy_get [OF j, of "''labels''"] json_serializable by simp
  show ?thesis using l n by simp
qed

lemma keys_distinct_plugins: "keys_distinct datalabels_plugins"
  by (simp add: datalabels_plugins_def formatter_def)

lemma fun_free_plugins: "\<not> fun_free datalabels_plugins"
  by (simp add: datalabels_plugins_def formatter_def)

lemma buildChartConfig_gauge:
  assumes j: "json args" and b: "buildChartConfig (JStr t) args = Inr cfg"
    and t: "t = ''radialGauge'' \<or> t = ''speedometer''"
  shows "keys_distinct cfg \<and> get cfg ''type'' = JStr t
         \<and> get (get cfg ''options'') ''plugins'' = datalabels_plugins"
proof (cases "map_throwing normalizeDataset (elements (get args ''datasets''))")
  case (Inl e)
  with b show ?thesis by (simp add: buildChartConfig_def)
next
  case (Inr nds)
  let ?data = "JObj [(''labels'', if truthy (get args ''labels'')
                                  then get args ''labels'' else JArr []),
                     (''datasets'', JArr nds)]"
  let ?opts = "assign (chart_options args) [(''plugins'', datalabels_plugins)]"
  from b Inr t have c: "cfg = JObj [(''type'', JStr t), (''data'', ?data),
                                    (''options'', JObj ?opts)]"
    by (simp add: buildChartConfig_def Let_def split: if_splits)
  have d: "keys_distinct ?data"
    by (rule serializable_keys_distinct [OF chart_data_serializable [OF j Inr]])
  have "keys_distinct (JObj (chart_options args))"
    by (rule serializable_keys_distinct [OF chart_options_serializable [OF j]])
  then have co: "distinct (map fst (chart_options args))"
    "list_all (\<lambda>kv. keys_distinct (snd kv)) (chart_options args)" by simp_all
  have p: "list_all (\<lambda>kv. keys_distinct (snd kv)) [(''plugins'', datalabels_plugins)]"
    by (simp add: keys_distinct_plugins)
  have "distinct (map fst ?opts)" using co(1) by (rule assign_distinct)
  moreover have "list_all (\<lambda>kv. keys_distinct (snd kv)) ?opts"
    using co(2) p by (rule assign_values)
  ultimately have o: "keys_distinct (JObj ?opts)" by simp
  have k: "keys_distinct (JObj [(''type'', JStr t), (''data'', ?data), (''options'', JObj ?opts)])"
    using d o by simp
  have "map_of ?opts ''plugins'' = Some datalabels_plugins"
    by (simp add: map_of_assign)
  then have g: "get (JObj ?opts) ''plugins'' = datalabels_plugins" by simp
  show ?thesis unfolding c using k g by simp
qed

lemma gauge_config_function:
  assumes "get (get cfg ''options'') ''plugins'' = datalabels_plugins"
  shows "\<not> fun_free cfg"
    and "get (get (get (get cfg ''options'') ''plugins'') ''datalabels'') ''formatter''
           = formatter"
proof -
  show "\<not> fun_free cfg"
  proof
    assume "fun_free cfg"
    then have "fun_free (get (get cfg ''options'') ''plugins'')"
      by (intro fun_free_get)
    with assms fun_free_plugins show False by simp
  qed
  show "get (get (get (get cfg ''options'') ''plugins'') ''datalabels'') ''formatter''
           = formatter"
    by (simp add: assms datalabels_plugins_def)
qed

lemma harness_decode_chart:
  assumes "CHR ''?'' \<notin> set base" "keys_distinct cfg" "JSON_stringify cfg \<noteq> None"
  shows "harness_decode (base @ ''?c='' @ pct_encode (stringify_text cfg))
           = Some (sent cfg)"
proof -
  let ?q = "pct_encode (stringify_text cfg)"
  have "takeWhile (\<lambda>c. c \<noteq> CHR ''&'') ?q = ?q"
    using pct_encode_no_amp [of "stringify_text cfg"]
    by (intro takeWhile_eq_all_conv [THEN iffD2]) auto
  then have "c_param (base @ ''?c='' @ ?q) = Some ?q"
    using c_param_found [OF assms(1), of ?q] by simp
  then show ?thesis
    unfolding harness_decode_def
    by (simp only: option.case decode_pct_encode JSON_parse_sent [OF assms(2,3)])
qed

section \<open>Round trip of a chart URL\<close>

text \<open>
  The gauge request \<^verbatim>\<open>{type: "radialGauge", datasets: [{data: [50]}]}\<close>, evaluated. The
  builder succeeds, and the configuration it returns holds the formatter function under
  \<^verbatim>\<open>options.plugins.datalabels\<close>. The encoder returns a URL whose \<^verbatim>\<open>c\<close> parameter,
  percent-decoded and parsed, is a structure with \<^verbatim>\<open>display\<close> only in that block: the
  formatter is not in the URL, and the decoded structure is not the configuration, also
  when the properties that are not set are left out of the comparison. For a bar chart
  with a title the decoded structure is the configuration.
\<close>

lemma gauge_request_evaluated:
  "generateChartConfig gauge_args = Inr gauge_config
   \<and> get (get (get (get gauge_config ''options'') ''plugins'') ''datalabels'') ''formatter''
       = formatter
   \<and> generateChartUrl default_endpoints gauge_config gauge_args = Inr gauge_url
   \<and> harness_decode gauge_url = Some gauge_decoded
   \<and> get (get (get (get gauge_decoded ''options'') ''plugins'') ''datalabels'') ''formatter''
       = JUndefined
   \<and> gauge_decoded \<noteq> gauge_config
   \<and> gauge_decoded \<noteq> defined_part gauge_config
   \<and> (case generateChartConfig bar_args of
         Inl e \<Rightarrow> False
       | Inr cfg \<Rightarrow>
           (case generateChartUrl default_endpoints cfg bar_args of
              Inl e \<Rightarrow> False
            | Inr url \<Rightarrow> harness_decode url = Some (defined_part cfg)))"
  by code_simp

text \<open>
  Claim C1. Take a request that is parsed JSON, with a chart-family type, for which the
  builder returns a configuration, and a base endpoint with no query of its own. Then
  \<^verbatim>\<open>generate_chart\<close> returns a URL, and its \<^verbatim>\<open>c\<close> parameter, percent-decoded and parsed, is
  what \<^verbatim>\<open>JSON.stringify\<close> carries of the configuration. For \<^verbatim>\<open>radialGauge\<close> and
  \<^verbatim>\<open>speedometer\<close> the configuration holds the formatter function under
  \<^verbatim>\<open>options.plugins.datalabels\<close> and the decoded structure holds no function: the decoded
  structure is not the configuration, also when the properties that are not set are left
  out of the comparison. For every other chart-family type the decoded structure is the
  configuration, the properties that are not set apart.
\<close>

theorem chart_url_decodes:
  assumes j: "json args" and ty: "get args ''type'' = JStr t"
    and t: "t \<noteq> ''graphviz''" "t \<noteq> ''wordcloud''"
    and base: "CHR ''?'' \<notin> set (QUICKCHART_BASE_URL E)"
    and g: "generateChartConfig args = Inr cfg"
  shows "\<exists>url. generate_chart E args = Inr url \<and> harness_decode url = Some (sent cfg)
           \<and> (if t = ''radialGauge'' \<or> t = ''speedometer''
              then get (get (get (get cfg ''options'') ''plugins'') ''datalabels'') ''formatter''
                     = formatter
                   \<and> fun_free (sent cfg) \<and> sent cfg \<noteq> cfg \<and> sent cfg \<noteq> defined_part cfg
              else sent cfg = defined_part cfg)"
proof -
  have b: "buildChartConfig (JStr t) args = Inr cfg"
    by (rule generateChartConfig_build [OF g ty t])
  have k: "keys_distinct cfg \<and> get cfg ''type'' = JStr t
           \<and> (if t = ''radialGauge'' \<or> t = ''speedometer''
              then get (get cfg ''options'') ''plugins'' = datalabels_plugins
              else serializable cfg)"
  proof (cases "t = ''radialGauge'' \<or> t = ''speedometer''")
    case True
    with buildChartConfig_gauge [OF j b True] show ?thesis by simp
  next
    case False
    then have "t \<noteq> ''radialGauge''" "t \<noteq> ''speedometer''" by simp_all
    from buildChartConfig_serializable [OF j b this] False serializable_keys_distinct
    show ?thesis by simp
  qed
  then have kd: "keys_distinct cfg" and ct: "get cfg ''type'' = JStr t" by simp_all
  from ct have st: "JSON_stringify cfg \<noteq> None" by (auto simp: stringify_None)
  have u: "generateChartUrl E cfg args
             = Inr (QUICKCHART_BASE_URL E @ ''?c='' @ pct_encode (stringify_text cfg))"
    using ct t by (simp add: generateChartUrl_def encodeURIComponent_stringify [OF kd])
  have gc: "generate_chart E args
             = Inr (QUICKCHART_BASE_URL E @ ''?c='' @ pct_encode (stringify_text cfg))"
    by (simp add: generate_chart_def g u)
  have hd: "harness_decode (QUICKCHART_BASE_URL E @ ''?c=''
                              @ pct_encode (stringify_text cfg)) = Some (sent cfg)"
    by (rule harness_decode_chart [OF base kd st])
  have tail: "if t = ''radialGauge'' \<or> t = ''speedometer''
              then get (get (get (get cfg ''options'') ''plugins'') ''datalabels'') ''formatter''
                     = formatter
                   \<and> fun_free (sent cfg) \<and> sent cfg \<noteq> cfg \<and> sent cfg \<noteq> defined_part cfg
              else sent cfg = defined_part cfg"
  proof (cases "t = ''radialGauge'' \<or> t = ''speedometer''")
    case True
    with k have p: "get (get cfg ''options'') ''plugins'' = datalabels_plugins" by simp
    have ff: "fun_free (sent cfg)" by (rule fun_free_sent [OF st])
    have nf: "\<not> fun_free cfg" by (rule gauge_config_function(1) [OF p])
    then have "\<not> fun_free (defined_part cfg)" by (simp add: fun_free_defined_part)
    with ff nf have "sent cfg \<noteq> cfg" "sent cfg \<noteq> defined_part cfg" by auto
    with True ff gauge_config_function(2) [OF p] show ?thesis by simp
  next
    case False
    with k have "serializable cfg" by simp
    then have "sent cfg = defined_part cfg" by (rule sent_defined_part)
    with False show ?thesis by simp
  qed
  from gc hd tail show ?thesis by blast
qed

text \<open>
  At the gauge request \<^verbatim>\<open>{type: "radialGauge", datasets: [{data: [50]}]}\<close> and the default
  endpoints: the URL decodes to a structure that is not the configuration.
\<close>

theorem chart_url_decodes_witness:
  "json gauge_args
   \<and> generateChartConfig gauge_args = Inr gauge_config
   \<and> generate_chart default_endpoints gauge_args = Inr gauge_url
   \<and> harness_decode gauge_url = Some (sent gauge_config)
   \<and> fun_free (sent gauge_config)
   \<and> sent gauge_config \<noteq> gauge_config
   \<and> sent gauge_config \<noteq> defined_part gauge_config"
proof -
  have j: "json gauge_args" by code_simp
  have ty: "get gauge_args ''type'' = JStr ''radialGauge''" by code_simp
  have base: "CHR ''?'' \<notin> set (QUICKCHART_BASE_URL default_endpoints)" by code_simp
  have g: "generateChartConfig gauge_args = Inr gauge_config" by code_simp
  have u: "generate_chart default_endpoints gauge_args = Inr gauge_url" by code_simp
  from chart_url_decodes [OF j ty _ _ base g] u j g show ?thesis by auto
qed

section \<open>Rejection of an unknown chart type\<close>

text \<open>
  Claim C2, as amended. In the main server, a \<^verbatim>\<open>type\<close> that is truthy and is not one of
  the twelve valid strings makes \<^verbatim>\<open>generate_chart\<close> fail with InvalidParams, and the
  message lists the twelve values. A \<^verbatim>\<open>type\<close> that is present but falsy (the empty
  string, zero, \<^verbatim>\<open>null\<close>, \<^verbatim>\<open>false\<close>) fails with InvalidParams too, with the message
  \<^verbatim>\<open>Chart type is required\<close>, which lists nothing. In \<^verbatim>\<open>src/index.ts\<close> and
  \<^verbatim>\<open>src/http-server.ts\<close> the valid set is the first ten values: there the message lists
  those ten, and it is reached when \<^verbatim>\<open>datasets\<close> is a sequence.
\<close>

theorem invalid_type_message:
  "(truthy (get args ''type'') \<and> \<not> array_includes validTypes (get args ''type'') \<longrightarrow>
      generate_chart E args = Inl (McpError InvalidParams
        ''Invalid chart type. Must be one of: bar, line, pie, doughnut, radar, polarArea, scatter, bubble, radialGauge, speedometer, graphviz, wordcloud''))
   \<and> (truthy args \<and> \<not> truthy (get args ''type'') \<longrightarrow>
      generate_chart E args = Inl (McpError InvalidParams ''Chart type is required''))
   \<and> (truthy (get args ''type'') \<and> \<not> array_includes index_validTypes (get args ''type'')
        \<and> isArray (get args ''datasets'') \<longrightarrow>
      index_generate_chart E args = Inl (McpError InvalidParams
        ''Invalid chart type. Must be one of: bar, line, pie, doughnut, radar, polarArea, scatter, bubble, radialGauge, speedometer''))"
proof (intro conjI impI)
  assume a: "truthy (get args ''type'') \<and> \<not> array_includes validTypes (get args ''type'')"
  then have "truthy args" by (auto dest: truthy_get_truthy)
  with a show "generate_chart E args = Inl (McpError InvalidParams
        ''Invalid chart type. Must be one of: bar, line, pie, doughnut, radar, polarArea, scatter, bubble, radialGauge, speedometer, graphviz, wordcloud'')"
    by (simp add: generate_chart_def generateChartConfig_def validateChartType_def join_validTypes)
next
  assume "truthy args \<and> \<not> truthy (get args ''type'')"
  then show "generate_chart E args = Inl (McpError InvalidParams ''Chart type is required'')"
    by (simp add: generate_chart_def generateChartConfig_def)
next
  assume a: "truthy (get args ''type'') \<and> \<not> array_includes index_validTypes (get args ''type'')
        \<and> isArray (get args ''datasets'')"
  then have "truthy args" by (auto dest: truthy_get_truthy)
  moreover from a have "truthy (get args ''datasets'')" by (simp add: isArray_truthy)
  ultimately show "index_generate_chart E args = Inl (McpError InvalidParams
        ''Invalid chart type. Must be one of: bar, line, pie, doughnut, radar, polarArea, scatter, bubble, radialGauge, speedometer'')"
    using a
    by (simp add: index_generate_chart_def index_generateChartConfig_def
        index_validateChartType_def join_index_validTypes)
qed

text \<open>The three cases at concrete requests: an unknown type, a zero type, and the
  graph type with an empty dataset list sent to the earlier server.\<close>

theorem invalid_type_message_witness:
  "(truthy (get (JObj [(''type'', JStr ''foo'')]) ''type'')
     \<and> \<not> array_includes validTypes (get (JObj [(''type'', JStr ''foo'')]) ''type'')
     \<and> generate_chart default_endpoints (JObj [(''type'', JStr ''foo'')])
        = Inl (McpError InvalidParams
          ''Invalid chart type. Must be one of: bar, line, pie, doughnut, radar, polarArea, scatter, bubble, radialGauge, speedometer, graphviz, wordcloud''))
   \<and> (truthy (JObj [(''type'', JNum 0)]) \<and> \<not> truthy (get (JObj [(''type'', JNum 0)]) ''type'')
     \<and> generate_chart default_endpoints (JObj [(''type'', JNum 0)])
        = Inl (McpError InvalidParams ''Chart type is required''))
   \<and> (truthy (get (JObj [(''type'', JStr ''graphviz''), (''datasets'', JArr [])]) ''type'')
     \<and> \<not> array_includes index_validTypes
           (get (JObj [(''type'', JStr ''graphviz''), (''datasets'', JArr [])]) ''type'')
     \<and> isArray (get (JObj [(''type'', JStr ''graphviz''), (''datasets'', JArr [])]) ''datasets'')
     \<and> index_generate_chart default_endpoints
          (JObj [(''type'', JStr ''graphviz''), (''datasets'', JArr [])])
        = Inl (McpError InvalidParams
          ''Invalid chart type. Must be one of: bar, line, pie, doughnut, radar, polarArea, scatter, bubble, radialGauge, speedometer''))"
  using invalid_type_message [of "JObj [(''type'', JStr ''foo'')]" default_endpoints]
    invalid_type_message [of "JObj [(''type'', JNum 0)]" default_endpoints]
    invalid_type_message [of "JObj [(''type'', JStr ''graphviz''), (''datasets'', JArr [])]"
      default_endpoints]
  by (simp add: validTypes_def index_validTypes_def)

text \<open>
  The claim as it was stated fails at the request \<^verbatim>\<open>{type: ""}\<close>: the field is present,
  the empty string is not a valid type, and the message names no valid value. It fails
  also in the earlier server, where the message for \<^verbatim>\<open>type: "foo"\<close> lists ten values.
\<close>

theorem empty_type_counterexample:
  "map_of [(''type'', JStr [])] ''type'' = Some (JStr [])
   \<and> [] \<notin> set validTypes
   \<and> generate_chart default_endpoints (JObj [(''type'', JStr [])])
       = Inl (McpError InvalidParams ''Chart type is required'')
   \<and> ''foo'' \<notin> set validTypes
   \<and> index_generate_chart default_endpoints
        (JObj [(''type'', JStr ''foo''), (''datasets'', JArr [JObj [(''data'', JArr [JNum 1])]])])
       = Inl (McpError InvalidParams
           ''Invalid chart type. Must be one of: bar, line, pie, doughnut, radar, polarArea, scatter, bubble, radialGauge, speedometer'')"
  by (simp add: generate_chart_def generateChartConfig_def validTypes_def
      index_generate_chart_def index_generateChartConfig_def index_validateChartType_def
      join_index_validTypes index_validTypes_def)

section \<open>The gauge types\<close>

text \<open>
  Claim C3, as amended. For type \<^verbatim>\<open>radialGauge\<close> or \<^verbatim>\<open>speedometer\<close>, the build fails with
  InvalidParams whenever the first data element of the first dataset is falsy (zero,
  \<^verbatim>\<open>null\<close>, absent); when the datasets are a sequence and each of them has a truthy
  \<^verbatim>\<open>data\<close>, that failure carries the message of the gauge test. When the datasets are
  a sequence, each of them has a truthy \<^verbatim>\<open>data\<close>, and the first value is truthy, the
  build succeeds: \<^verbatim>\<open>options.plugins\<close> of the result is the fixed \<^verbatim>\<open>datalabels\<close> block and
  every other option is as the caller's options and title give it. Whatever the first
  value is, the build fails with InvalidParams in the dataset checks, which come first,
  when the datasets are not a sequence, and when one of them is falsy or has no truthy
  \<^verbatim>\<open>data\<close>.
\<close>

theorem gauge_first_value:
  assumes ty: "get args ''type'' = JStr t" and t: "t = ''radialGauge'' \<or> t = ''speedometer''"
  shows "(\<not> truthy (elem_at (get (elem_at (get args ''datasets'') 0) ''data'') 0) \<longrightarrow>
            (\<exists>m. generateChartConfig args = Inl (McpError InvalidParams m)))
       \<and> (isArray (get args ''datasets'')
            \<and> list_all (\<lambda>d. truthy d \<and> truthy (get d ''data'')) (elements (get args ''datasets''))
            \<and> \<not> truthy (elem_at (get (elem_at (get args ''datasets'') 0) ''data'') 0) \<longrightarrow>
            generateChartConfig args =
              Inl (McpError InvalidParams (t @ '' requires a single numeric value'')))
       \<and> (isArray (get args ''datasets'')
            \<and> list_all (\<lambda>d. truthy d \<and> truthy (get d ''data'')) (elements (get args ''datasets''))
            \<and> truthy (elem_at (get (elem_at (get args ''datasets'') 0) ''data'') 0) \<longrightarrow>
            (\<exists>cfg. generateChartConfig args = Inr cfg
               \<and> get (get cfg ''options'') ''plugins'' = datalabels_plugins
               \<and> (\<forall>k. k \<noteq> ''plugins'' \<longrightarrow>
                      get (get cfg ''options'') k = get (JObj (chart_options args)) k)))
       \<and> (\<not> isArray (get args ''datasets'') \<longrightarrow>
            generateChartConfig args =
              Inl (McpError InvalidParams ''Datasets must be a non-empty array''))
       \<and> (isArray (get args ''datasets'')
            \<and> \<not> list_all (\<lambda>d. truthy d \<and> truthy (get d ''data''))
                   (elements (get args ''datasets'')) \<longrightarrow>
            generateChartConfig args =
              Inl (McpError InvalidParams ''Each dataset must have a data property''))"
proof -
  let ?first = "elem_at (get (elem_at (get args ''datasets'') 0) ''data'') 0"
  let ?valid = "list_all (\<lambda>d. truthy d \<and> truthy (get d ''data'')) (elements (get args ''datasets''))"
  from t have tv: "t \<in> set validTypes" "t \<noteq> ''graphviz''" "t \<noteq> ''wordcloud''"
    by (auto simp: validTypes_def)
  have g: "generateChartConfig args = buildChartConfig (JStr t) args"
    if "isArray (get args ''datasets'')"
    using generateChartConfig_chart [OF ty tv that] .
  have c2: "generateChartConfig args =
              Inl (McpError InvalidParams (t @ '' requires a single numeric value''))"
    if a: "isArray (get args ''datasets'')" and v: ?valid and f: "\<not> truthy ?first"
  proof -
    from v obtain nds
      where "map_throwing normalizeDataset (elements (get args ''datasets'')) = Inr nds"
      using map_throwing_normalizeDataset_Inr by blast
    with f t show ?thesis by (auto simp: g [OF a] buildChartConfig_def Let_def)
  qed
  have c4: "generateChartConfig args =
              Inl (McpError InvalidParams ''Datasets must be a non-empty array'')"
    if a: "\<not> isArray (get args ''datasets'')"
  proof -
    from ty tv(1) have "truthy (get args ''type'')" by (auto simp: validTypes_def)
    moreover from this have "truthy args" by (rule truthy_get_truthy)
    ultimately show ?thesis
      using ty tv a by (simp add: generateChartConfig_def validateChartType_def)
  qed
  have c5: "generateChartConfig args =
              Inl (McpError InvalidParams ''Each dataset must have a data property'')"
    if a: "isArray (get args ''datasets'')" and v: "\<not> ?valid"
    using v by (simp add: g [OF a] buildChartConfig_def map_throwing_normalizeDataset_invalid)
  have c1: "\<exists>m. generateChartConfig args = Inl (McpError InvalidParams m)"
    if f: "\<not> truthy ?first"
  proof (cases "isArray (get args ''datasets'')")
    case False
    then show ?thesis using c4 by simp
  next
    case True
    show ?thesis
    proof (cases ?valid)
      case True
      with c2 [OF \<open>isArray (get args ''datasets'')\<close>] f show ?thesis by blast
    next
      case False
      with c5 [OF True] show ?thesis by simp
    qed
  qed
  have c3: "\<exists>cfg. generateChartConfig args = Inr cfg
               \<and> get (get cfg ''options'') ''plugins'' = datalabels_plugins
               \<and> (\<forall>k. k \<noteq> ''plugins'' \<longrightarrow>
                      get (get cfg ''options'') k = get (JObj (chart_options args)) k)"
    if a: "isArray (get args ''datasets'')" and v: ?valid and f: "truthy ?first"
  proof -
    from v obtain nds
      where "map_throwing normalizeDataset (elements (get args ''datasets'')) = Inr nds"
      using map_throwing_normalizeDataset_Inr by blast
    with f t show ?thesis
      by (auto simp: g [OF a] buildChartConfig_def Let_def assign_def update_conv')
  qed
  from c1 c2 c3 c4 c5 show ?thesis by blast
qed

text \<open>A gauge reading 50 is built, with the fixed block; a gauge reading 0 is refused.\<close>

theorem gauge_first_value_witness:
  "(\<exists>cfg. generateChartConfig gauge_args = Inr cfg
        \<and> get (get cfg ''options'') ''plugins'' = datalabels_plugins)
   \<and> generateChartConfig
        (JObj [(''type'', JStr ''speedometer''),
               (''datasets'', JArr [JObj [(''data'', JArr [JNum 0])]])])
      = Inl (McpError InvalidParams ''speedometer requires a single numeric value'')"
  using gauge_first_value [of gauge_args "''radialGauge''"]
    gauge_first_value [of "JObj [(''type'', JStr ''speedometer''),
               (''datasets'', JArr [JObj [(''data'', JArr [JNum 0])]])]" "''speedometer''"]
  by (simp add: gauge_args_def) blast

text \<open>
  The claim as it was stated fails at a request with a second dataset that has no
  \<^verbatim>\<open>data\<close>: the first value, 5, is truthy, and the build fails in the dataset loop.
\<close>

theorem second_dataset_counterexample:
  "truthy (elem_at (get (elem_at (get
       (JObj [(''type'', JStr ''radialGauge''),
              (''datasets'', JArr [JObj [(''data'', JArr [JNum 5])], JObj []])])
       ''datasets'') 0) ''data'') 0)
   \<and> generateChartConfig
       (JObj [(''type'', JStr ''radialGauge''),
              (''datasets'', JArr [JObj [(''data'', JArr [JNum 5])], JObj []])])
     = Inl (McpError InvalidParams ''Each dataset must have a data property'')"
  by (simp add: generateChartConfig_def validateChartType_def validTypes_def
      buildChartConfig_def normalizeDataset_def assign_def)

section \<open>The point types\<close>

text \<open>
  Claim C4. For type \<^verbatim>\<open>scatter\<close> or \<^verbatim>\<open>bubble\<close> with a sequence of datasets: if the first
  data element of some dataset is not a sequence, the build fails with InvalidParams (with
  the message about the point format when every dataset has a truthy \<^verbatim>\<open>data\<close>); if the
  first data element of every dataset is a sequence, the build succeeds.
\<close>

theorem scatter_point_format:
  assumes ty: "get args ''type'' = JStr t" and t: "t = ''scatter'' \<or> t = ''bubble''"
      and ds: "get args ''datasets'' = JArr ds"
  shows "((\<exists>d\<in>set ds. \<not> isArray (elem_at (get d ''data'') 0)) \<longrightarrow>
            (\<exists>m. generateChartConfig args = Inl (McpError InvalidParams m)))
       \<and> ((\<forall>d\<in>set ds. truthy d \<and> truthy (get d ''data''))
            \<and> (\<exists>d\<in>set ds. \<not> isArray (elem_at (get d ''data'') 0)) \<longrightarrow>
            generateChartConfig args = Inl (McpError InvalidParams
              (t @ '' requires data points in [x, y''
                 @ (if t = ''bubble'' then '', r'' else []) @ ''] format'')))
       \<and> ((\<forall>d\<in>set ds. isArray (elem_at (get d ''data'') 0)) \<longrightarrow>
            (\<exists>cfg. generateChartConfig args = Inr cfg))"
proof -
  from t have tv: "t \<in> set validTypes" "t \<noteq> ''graphviz''" "t \<noteq> ''wordcloud''"
    by (auto simp: validTypes_def)
  have g: "generateChartConfig args = buildChartConfig (JStr t) args"
    using generateChartConfig_chart [OF ty tv] ds by simp
  have bad: "generateChartConfig args = Inl (McpError InvalidParams
              (t @ '' requires data points in [x, y''
                 @ (if t = ''bubble'' then '', r'' else []) @ ''] format''))"
    if v: "\<forall>d\<in>set ds. truthy d \<and> truthy (get d ''data'')"
      and b: "\<exists>d\<in>set ds. \<not> isArray (elem_at (get d ''data'') 0)"
  proof -
    from v obtain nds where "map_throwing normalizeDataset ds = Inr nds"
      using map_throwing_normalizeDataset_Inr [of ds] by (auto simp: list_all_iff)
    moreover from b have "\<not> list_all (\<lambda>d. isArray (elem_at (get d ''data'') 0)) ds"
      by (auto simp: list_all_iff)
    ultimately show ?thesis
      using t by (auto simp: g buildChartConfig_def ds Let_def)
  qed
  have c1: "\<exists>m. generateChartConfig args = Inl (McpError InvalidParams m)"
    if b: "\<exists>d\<in>set ds. \<not> isArray (elem_at (get d ''data'') 0)"
  proof (cases "\<forall>d\<in>set ds. truthy d \<and> truthy (get d ''data'')")
    case True
    with b bad show ?thesis by blast
  next
    case False
    then have "\<not> list_all (\<lambda>d. truthy d \<and> truthy (get d ''data'')) ds"
      by (auto simp: list_all_iff)
    then show ?thesis
      by (simp add: g buildChartConfig_def ds map_throwing_normalizeDataset_invalid)
  qed
  have c3: "\<exists>cfg. generateChartConfig args = Inr cfg"
    if a: "\<forall>d\<in>set ds. isArray (elem_at (get d ''data'') 0)"
  proof -
    from a have "\<forall>d\<in>set ds. truthy d \<and> truthy (get d ''data'')"
      using first_point_array_valid by blast
    then obtain nds where "map_throwing normalizeDataset ds = Inr nds"
      using map_throwing_normalizeDataset_Inr [of ds] by (auto simp: list_all_iff)
    moreover from a have "list_all (\<lambda>d. isArray (elem_at (get d ''data'') 0)) ds"
      by (auto simp: list_all_iff)
    ultimately show ?thesis
      using t by (auto simp: g buildChartConfig_def ds Let_def)
  qed
  from c1 bad c3 show ?thesis by blast
qed

text \<open>A bubble dataset of bare numbers is refused; a scatter dataset of pairs is built.\<close>

theorem scatter_point_format_witness:
  "generateChartConfig
      (JObj [(''type'', JStr ''bubble''),
             (''datasets'', JArr [JObj [(''data'', JArr [JNum 5, JNum 6])]])])
     = Inl (McpError InvalidParams ''bubble requires data points in [x, y, r] format'')
   \<and> (\<exists>cfg. generateChartConfig
        (JObj [(''type'', JStr ''scatter''),
               (''datasets'', JArr [JObj [(''data'', JArr [JArr [JNum 1, JNum 2]])]])])
        = Inr cfg)"
  using scatter_point_format [of "JObj [(''type'', JStr ''bubble''),
             (''datasets'', JArr [JObj [(''data'', JArr [JNum 5, JNum 6])]])]" "''bubble''"
             "[JObj [(''data'', JArr [JNum 5, JNum 6])]]"]
    scatter_point_format [of "JObj [(''type'', JStr ''scatter''),
               (''datasets'', JArr [JObj [(''data'', JArr [JArr [JNum 1, JNum 2]])]])]"
             "''scatter''" "[JObj [(''data'', JArr [JArr [JNum 1, JNum 2]])]]"]
  by simp

section \<open>Dataset-level overrides\<close>

text \<open>
  Claim C5. In the configuration built for a chart-family request, the normalized form
  of a dataset whose \<^verbatim>\<open>additionalConfig\<close> is a mapping has, under every key of that
  mapping, the mapping's value (so on a collision with \<^verbatim>\<open>label\<close>, \<^verbatim>\<open>data\<close>,
  \<^verbatim>\<open>backgroundColor\<close> or \<^verbatim>\<open>borderColor\<close> the mapping wins), and under every other key the
  builder's own field: the label or the empty string, and the data and the two colours as
  the dataset has them. The keys of an object are distinct.
\<close>

theorem additionalConfig_overrides:
  assumes cfg: "generateChartConfig args = Inr cfg"
      and ty: "get args ''type'' \<noteq> JStr ''graphviz''" "get args ''type'' \<noteq> JStr ''wordcloud''"
      and i: "i < length (elements (get args ''datasets''))"
      and ac: "get (elements (get args ''datasets'') ! i) ''additionalConfig'' = JObj ac"
      and d: "distinct (map fst ac)"
  shows "get (elem_at (get (get cfg ''data'') ''datasets'') i) k =
           (if k \<in> fst ` set ac then get (JObj ac) k
            else get (JObj
              [(''label'', if truthy (get (elements (get args ''datasets'') ! i) ''label'')
                           then get (elements (get args ''datasets'') ! i) ''label'' else JStr []),
               (''data'', get (elements (get args ''datasets'') ! i) ''data''),
               (''backgroundColor'', get (elements (get args ''datasets'') ! i) ''backgroundColor''),
               (''borderColor'', get (elements (get args ''datasets'') ! i) ''borderColor'')]) k)"
proof -
  let ?ds = "elements (get args ''datasets'')"
  from generateChartConfig_Inr [OF cfg] ty
  have "buildChartConfig (get args ''type'') args = Inr cfg" by simp
  then obtain nds where m: "map_throwing normalizeDataset ?ds = Inr nds"
    and n: "get (get cfg ''data'') ''datasets'' = JArr nds"
    using buildChartConfig_datasets by blast
  from map_throwing_nth [OF m] i have len: "i < length nds"
    and nd: "normalizeDataset (?ds ! i) = Inr (nds ! i)" by simp_all
  from nd ac have "nds ! i = JObj (assign
          [(''label'', if truthy (get (?ds ! i) ''label'') then get (?ds ! i) ''label'' else JStr []),
           (''data'', get (?ds ! i) ''data''),
           (''backgroundColor'', get (?ds ! i) ''backgroundColor''),
           (''borderColor'', get (?ds ! i) ''borderColor'')] ac)"
    by (simp add: normalizeDataset_def split: if_splits)
  then show ?thesis
    using n len get_assign [OF d] by simp
qed

text \<open>A dataset labelled \<^verbatim>\<open>a\<close> whose \<^verbatim>\<open>additionalConfig\<close> sets \<^verbatim>\<open>label\<close> to \<^verbatim>\<open>b\<close> and a
  border width: the label is \<^verbatim>\<open>b\<close>, the data are kept, the width is added.\<close>

theorem additionalConfig_overrides_witness:
  "\<exists>cfg. generateChartConfig override_args = Inr cfg
     \<and> get (elem_at (get (get cfg ''data'') ''datasets'') 0) ''label'' = JStr ''b''
     \<and> get (elem_at (get (get cfg ''data'') ''datasets'') 0) ''data'' = JArr [JNum 1]
     \<and> get (elem_at (get (get cfg ''data'') ''datasets'') 0) ''borderWidth'' = JNum 2"
proof -
  obtain cfg where c: "generateChartConfig override_args = Inr cfg"
    by (simp add: override_args_def generateChartConfig_def validateChartType_def validTypes_def
        buildChartConfig_def normalizeDataset_def Let_def)
  have ty: "get override_args ''type'' \<noteq> JStr ''graphviz''"
    "get override_args ''type'' \<noteq> JStr ''wordcloud''"
    by (simp_all add: override_args_def)
  have i: "0 < length (elements (get override_args ''datasets''))"
    by (simp add: override_args_def)
  have ac: "get (elements (get override_args ''datasets'') ! 0) ''additionalConfig''
              = JObj [(''label'', JStr ''b''), (''borderWidth'', JNum 2)]"
    by (simp add: override_args_def)
  have d: "distinct (map fst [(''label'', JStr ''b''), (''borderWidth'', JNum 2)])" by simp
  note o = additionalConfig_overrides [OF c ty i ac d]
  have "get (elem_at (get (get cfg ''data'') ''datasets'') 0) ''label'' = JStr ''b''"
    using o [of "''label''"] by simp
  moreover have "get (elem_at (get (get cfg ''data'') ''datasets'') 0) ''data'' = JArr [JNum 1]"
    using o [of "''data''"] by (simp add: override_args_def)
  moreover have "get (elem_at (get (get cfg ''data'') ''datasets'') 0) ''borderWidth'' = JNum 2"
    using o [of "''borderWidth''"] by simp
  ultimately show ?thesis using c by blast
qed

section \<open>The word-cloud URL\<close>

lemma not_truthy_convertible: "\<not> truthy v \<Longrightarrow> convertible v"
  by (cases v) simp_all

lemma not_convertible_truthy: "\<not> convertible v \<Longrightarrow> truthy v \<and> v \<noteq> JUndefined"
  by (cases v) simp_all

lemma String_of_cases:
  "String_of v = Inl e \<Longrightarrow> e = JsError [] ''Cannot convert object to primitive value''"
  by (simp add: String_of_def split: if_splits)

lemma append_all_throws:
  assumes "\<forall>l\<in>set ls. \<forall>e'. snd (snd l) = Inl e' \<longrightarrow> e' = e"
    and "\<exists>l\<in>set ls. fst l \<and> snd (snd l) = Inl e"
  shows "append_all ls = Inl e"
  using assms
proof (induction ls)
  case Nil
  then show ?case by simp
next
  case (Cons l ls)
  show ?case
  proof (cases "fst l")
    case False
    with Cons show ?thesis by auto
  next
    case True
    show ?thesis
    proof (cases "snd (snd l)")
      case (Inl e')
      with Cons.prems(1) have "e' = e" by simp
      with True Inl show ?thesis by simp
    next
      case (Inr v)
      with Cons.prems(2) have "\<exists>l\<in>set ls. fst l \<and> snd (snd l) = Inl e" by auto
      with Cons.IH Cons.prems(1) have "append_all ls = Inl e" by simp
      with True Inr show ?thesis by simp
    qed
  qed
qed

lemma append_all_returns:
  assumes "\<forall>l\<in>set ls. fst l \<longrightarrow> (\<exists>v. snd (snd l) = Inr v)"
  shows "append_all ls =
           Inr (concat (map (\<lambda>l. if fst l then [(fst (snd l), projr (snd (snd l)))] else []) ls))"
  using assms
proof (induction ls)
  case Nil
  then show ?case by simp
next
  case (Cons l ls)
  then have ih: "append_all ls =
           Inr (concat (map (\<lambda>l. if fst l then [(fst (snd l), projr (snd (snd l)))] else []) ls))"
    by simp
  show ?case
  proof (cases "fst l")
    case False
    with ih show ?thesis by simp
  next
    case True
    with Cons.prems obtain v where "snd (snd l) = Inr v" by auto
    with True ih show ?thesis by simp
  qed
qed

lemma appends_line:
  assumes "key \<in> set (map fst wordcloud_optional) - {''colors''}"
  shows "\<exists>l\<in>set (wordcloud_appends args).
           (fst l = truthy (get args key) \<or> fst l = (get args key \<noteq> JUndefined))
           \<and> snd (snd l) = String_of (get args key)"
proof -
  from assms have m: "key \<in> set (map fst wordcloud_optional)" and nc: "key \<noteq> ''colors''"
    by simp_all
  from m have "key = ''wordcloudFormat'' \<or> key = ''width'' \<or> key = ''height''
      \<or> key = ''backgroundColor'' \<or> key = ''fontFamily'' \<or> key = ''fontWeight''
      \<or> key = ''loadGoogleFonts'' \<or> key = ''fontScale'' \<or> key = ''scale''
      \<or> key = ''padding'' \<or> key = ''rotation'' \<or> key = ''maxNumWords''
      \<or> key = ''minWordLength'' \<or> key = ''case'' \<or> key = ''colors''
      \<or> key = ''removeStopwords'' \<or> key = ''cleanWords'' \<or> key = ''language''
      \<or> key = ''useWordList''"
    by (simp add: wordcloud_optional_def)
  then show ?thesis
    using nc unfolding wordcloud_appends_def
    by (elim disjE; simp del: get.simps)
qed

text \<open>
  Claim C6, as amended. Take a request with type \<^verbatim>\<open>wordcloud\<close>. When
  \<^verbatim>\<open>text\<close> is a string and not empty, every optional parameter other than the three
  flags is either not set or set to a truthy value, and every optional parameter other
  than \<^verbatim>\<open>colors\<close> converts to a string, the URL is the word-cloud endpoint followed by
  the query of \<^verbatim>\<open>text\<close> first and then exactly the optional parameters that are set, in
  the fixed order, each value turned into a string (\<^verbatim>\<open>colors\<close> into its JSON text); a
  parameter that is not set is not in the query. When \<^verbatim>\<open>text\<close> is not a string or is
  empty, \<^verbatim>\<open>generate_chart\<close> fails with InvalidParams. When \<^verbatim>\<open>text\<close> is a string and not
  empty and an optional parameter other than \<^verbatim>\<open>colors\<close> does not convert to a string (an
  object with a property named \<^verbatim>\<open>toString\<close>, or an array that holds one),
  \<^verbatim>\<open>generate_chart\<close> fails with InternalError.
\<close>

theorem wordcloud_url:
  assumes rq: "request args" and ty: "get args ''type'' = JStr ''wordcloud''"
  shows "(get args ''text'' = JStr t \<and> t \<noteq> []
            \<and> (\<forall>key\<in>set (map fst wordcloud_optional) - set boolean_flags.
                  get args key = JUndefined \<or> truthy (get args key))
            \<and> (\<forall>key\<in>set (map fst wordcloud_optional) - {''colors''}.
                  convertible (get args key)) \<longrightarrow>
            generate_chart E args =
              Inr (QUICKCHART_WORDCLOUD_URL E @ ''?''
                   @ URLSearchParams_toString ((''text'', t) # present_params args)))
       \<and> (typeof (get args ''text'') \<noteq> ''string'' \<or> get args ''text'' = JStr [] \<longrightarrow>
            generate_chart E args =
              Inl (McpError InvalidParams ''Text is required for wordcloud charts''))
       \<and> (get args ''text'' = JStr t \<and> t \<noteq> []
            \<and> (\<exists>key\<in>set (map fst wordcloud_optional) - {''colors''}.
                  \<not> convertible (get args key)) \<longrightarrow>
            generate_chart E args =
              Inl (McpError InternalError
                ''Failed to generate chart: Cannot convert object to primitive value''))"
proof -
  have g: "generateChartConfig args = Inr (JObj [(''type'', JStr ''wordcloud'')])"
    using generateChartConfig_placeholder [OF ty] by simp
  have c1: "generate_chart E args =
              Inr (QUICKCHART_WORDCLOUD_URL E @ ''?''
                   @ URLSearchParams_toString ((''text'', t) # present_params args))"
    if tx: "get args ''text'' = JStr t" "t \<noteq> []"
      and tr: "\<forall>key\<in>set (map fst wordcloud_optional) - set boolean_flags.
                 get args key = JUndefined \<or> truthy (get args key)"
      and cv: "\<forall>key\<in>set (map fst wordcloud_optional) - {''colors''}.
                 convertible (get args key)"
  proof -
    have k: "truthy (get args key) = (get args key \<noteq> JUndefined)"
      if "key \<in> set (map fst wordcloud_optional) - set boolean_flags" for key
      using tr that by (cases "get args key = JUndefined") auto
    have c: "String_of (get args key) = Inr (toString (get args key))"
      if "key \<in> set (map fst wordcloud_optional) - {''colors''}" for key
      using cv that by (simp add: String_of_def)
    have st: "String_of (JStr t) = Inr t" by (simp add: String_of_def)
    have ok: "\<forall>l\<in>set (wordcloud_appends args). fst l \<longrightarrow> (\<exists>v. snd (snd l) = Inr v)"
      unfolding wordcloud_appends_def
      by (simp add: c tx st wordcloud_optional_def del: get.simps)
    have "concat (map (\<lambda>l. if fst l then [(fst (snd l), projr (snd (snd l)))] else [])
                   (wordcloud_appends args))
          = (''text'', t) # present_params args"
      unfolding wordcloud_appends_def present_params_def wordcloud_optional_def
      by (simp add: tx k c st wordcloud_optional_def boolean_flags_def
          del: get.simps)
    with append_all_returns [OF ok]
    have "wordcloud_params args = Inr ((''text'', t) # present_params args)"
      by (simp add: wordcloud_params_def)
    then show ?thesis
      using tx by (simp add: generate_chart_def g generateChartUrl_def)
  qed
  have c2: "generate_chart E args =
              Inl (McpError InvalidParams ''Text is required for wordcloud charts'')"
    if "typeof (get args ''text'') \<noteq> ''string'' \<or> get args ''text'' = JStr []"
    using that by (auto simp: generate_chart_def g generateChartUrl_def)
  have c3: "generate_chart E args =
              Inl (McpError InternalError
                ''Failed to generate chart: Cannot convert object to primitive value'')"
    if tx: "get args ''text'' = JStr t" "t \<noteq> []"
      and nc: "\<exists>key\<in>set (map fst wordcloud_optional) - {''colors''}.
                 \<not> convertible (get args key)"
  proof -
    let ?e = "JsError [] ''Cannot convert object to primitive value''"
    from nc obtain key where key: "key \<in> set (map fst wordcloud_optional) - {''colors''}"
      and n: "\<not> convertible (get args key)" by blast
    from not_convertible_truthy [OF n] have tk: "truthy (get args key)"
      "get args key \<noteq> JUndefined" by simp_all
    from n have sk: "String_of (get args key) = Inl ?e" by (simp add: String_of_def)
    have a: "\<forall>l\<in>set (wordcloud_appends args). \<forall>e'. snd (snd l) = Inl e' \<longrightarrow> e' = ?e"
      by (auto simp: wordcloud_appends_def dest: String_of_cases)
    from appends_line [OF key, of args] obtain l where l: "l \<in> set (wordcloud_appends args)"
      "fst l = truthy (get args key) \<or> fst l = (get args key \<noteq> JUndefined)"
      "snd (snd l) = String_of (get args key)" by blast
    from l(2) tk have "fst l" by auto
    with l(1,3) sk have b: "\<exists>l\<in>set (wordcloud_appends args). fst l \<and> snd (snd l) = Inl ?e"
      by auto
    have "wordcloud_params args = Inl ?e"
      unfolding wordcloud_params_def by (rule append_all_throws [OF a b])
    then show ?thesis
      using tx by (simp add: generate_chart_def g generateChartUrl_def)
  qed
  from c1 c2 c3 show ?thesis by blast
qed

text \<open>
  The request \<^verbatim>\<open>{type: "wordcloud", text: "a b c", maxNumWords: 5}\<close>, the same request
  with no \<^verbatim>\<open>text\<close>, the request with \<^verbatim>\<open>backgroundColor: {toString: 1}\<close>, and the request
  with \<^verbatim>\<open>width: 1e21\<close> and \<^verbatim>\<open>rotation: 0.5\<close>.
\<close>

theorem wordcloud_url_witness:
  "generate_chart default_endpoints
     (JObj [(''type'', JStr ''wordcloud''), (''text'', JStr ''a b c''), (''maxNumWords'', JNum 5)])
   = Inr ''https://quickchart.io/wordcloud?text=a+b+c&maxNumWords=5''
   \<and> generate_chart default_endpoints
     (JObj [(''type'', JStr ''wordcloud''), (''maxNumWords'', JNum 5)])
   = Inl (McpError InvalidParams ''Text is required for wordcloud charts'')
   \<and> generate_chart default_endpoints
     (JObj [(''type'', JStr ''wordcloud''), (''text'', JStr ''a b c''),
            (''backgroundColor'', JObj [(''toString'', JNum 1)])])
   = Inl (McpError InternalError
       ''Failed to generate chart: Cannot convert object to primitive value'')
   \<and> generate_chart default_endpoints
     (JObj [(''type'', JStr ''wordcloud''), (''text'', JStr ''a b c''),
            (''width'', JReal ''1e+21''), (''rotation'', JReal ''0.5'')])
   = Inr ''https://quickchart.io/wordcloud?text=a+b+c&width=1e%2B21&rotation=0.5''"
proof -
  let ?a = "JObj [(''type'', JStr ''wordcloud''), (''text'', JStr ''a b c''),
                  (''maxNumWords'', JNum 5)]"
  let ?d = "JObj [(''type'', JStr ''wordcloud''), (''text'', JStr ''a b c''),
                  (''width'', JReal ''1e+21''), (''rotation'', JReal ''0.5'')]"
  have qd: "URLSearchParams_toString ((''text'', ''a b c'') # present_params ?d)
             = ''text=a+b+c&width=1e%2B21&rotation=0.5''" by code_simp
  have d: "generate_chart default_endpoints ?d
             = Inr ''https://quickchart.io/wordcloud?text=a+b+c&width=1e%2B21&rotation=0.5''"
    using wordcloud_url [of ?d "''a b c''" default_endpoints]
    by (simp add: wordcloud_optional_def boolean_flags_def qd default_endpoints_def)
  let ?b = "JObj [(''type'', JStr ''wordcloud''), (''maxNumWords'', JNum 5)]"
  let ?c = "JObj [(''type'', JStr ''wordcloud''), (''text'', JStr ''a b c''),
                  (''backgroundColor'', JObj [(''toString'', JNum 1)])]"
  have q: "URLSearchParams_toString ((''text'', ''a b c'') # present_params ?a)
             = ''text=a+b+c&maxNumWords=5''" by code_simp
  have a: "generate_chart default_endpoints ?a
             = Inr ''https://quickchart.io/wordcloud?text=a+b+c&maxNumWords=5''"
    using wordcloud_url [of ?a "''a b c''" default_endpoints]
    by (simp add: wordcloud_optional_def boolean_flags_def q default_endpoints_def)
  have b: "generate_chart default_endpoints ?b
             = Inl (McpError InvalidParams ''Text is required for wordcloud charts'')"
    using wordcloud_url [of ?b "[]" default_endpoints] by simp
  have c: "generate_chart default_endpoints ?c
             = Inl (McpError InternalError
                 ''Failed to generate chart: Cannot convert object to primitive value'')"
    using wordcloud_url [of ?c "''a b c''" default_endpoints]
    by (simp add: wordcloud_optional_def)
  from a b c d show ?thesis by simp
qed

text \<open>
  The claim as it was stated fails at an empty \<^verbatim>\<open>text\<close>, which is a string and is
  refused, and at \<^verbatim>\<open>rotation: 0\<close>, which is set and is not in the query, while
  \<^verbatim>\<open>rotation: 5\<close> and the flag \<^verbatim>\<open>useWordList: false\<close> are.
\<close>

theorem wordcloud_falsy_counterexample:
  "generate_chart default_endpoints (JObj [(''type'', JStr ''wordcloud''), (''text'', JStr [])])
   = Inl (McpError InvalidParams ''Text is required for wordcloud charts'')
   \<and> generate_chart default_endpoints
     (JObj [(''type'', JStr ''wordcloud''), (''text'', JStr ''a b c''), (''rotation'', JNum 0)])
   = Inr ''https://quickchart.io/wordcloud?text=a+b+c''
   \<and> generate_chart default_endpoints
     (JObj [(''type'', JStr ''wordcloud''), (''text'', JStr ''a b c''), (''rotation'', JNum 5)])
   = Inr ''https://quickchart.io/wordcloud?text=a+b+c&rotation=5''
   \<and> generate_chart default_endpoints
     (JObj [(''type'', JStr ''wordcloud''), (''text'', JStr ''a b c''),
            (''useWordList'', JBool False)])
   = Inr ''https://quickchart.io/wordcloud?text=a+b+c&useWordList=false''"
  by code_simp

section \<open>The graph URL\<close>

text \<open>
  Claim C7, as amended. Take a request with type \<^verbatim>\<open>graphviz\<close>. When \<^verbatim>\<open>dot\<close>
  is a string that is not empty and holds no lone surrogate, and \<^verbatim>\<open>graphvizLayout\<close> and
  \<^verbatim>\<open>graphvizFormat\<close> convert to strings, the URL is the graph endpoint with the
  percent-encoded DOT text as \<^verbatim>\<open>graph\<close>, then \<^verbatim>\<open>layout\<close> and \<^verbatim>\<open>format\<close>, which are \<^verbatim>\<open>dot\<close>
  and \<^verbatim>\<open>png\<close> when they are not supplied (or falsy). When \<^verbatim>\<open>dot\<close> is absent, is not a
  string or is the empty string, \<^verbatim>\<open>generate_chart\<close> fails with InvalidParams. When \<^verbatim>\<open>dot\<close>
  is a string that holds a lone surrogate, \<^verbatim>\<open>generate_chart\<close> fails with InternalError
  (\<^verbatim>\<open>URI malformed\<close>); when \<^verbatim>\<open>dot\<close> is a string that is not empty and holds none, and the
  layout or the format does not convert to a string, it fails with InternalError too.
\<close>

theorem graphviz_url:
  assumes rq: "request args" and ty: "get args ''type'' = JStr ''graphviz''"
  shows "(get args ''dot'' = JStr dot \<and> dot \<noteq> [] \<and> \<not> lone_surrogate dot
            \<and> convertible (get args ''graphvizLayout'')
            \<and> convertible (get args ''graphvizFormat'') \<longrightarrow>
            generate_chart E args =
              Inr (QUICKCHART_GRAPHVIZ_URL E @ ''?graph='' @ pct_encode dot
                   @ ''&layout='' @ toString (if truthy (get args ''graphvizLayout'')
                                             then get args ''graphvizLayout'' else JStr ''dot'')
                   @ ''&format='' @ toString (if truthy (get args ''graphvizFormat'')
                                             then get args ''graphvizFormat'' else JStr ''png'')))
       \<and> (get args ''dot'' = JStr dot \<and> dot \<noteq> [] \<and> \<not> lone_surrogate dot
            \<and> get args ''graphvizLayout'' = JUndefined \<and> get args ''graphvizFormat'' = JUndefined \<longrightarrow>
            generate_chart E args =
              Inr (QUICKCHART_GRAPHVIZ_URL E @ ''?graph='' @ pct_encode dot
                   @ ''&layout=dot&format=png''))
       \<and> (typeof (get args ''dot'') \<noteq> ''string'' \<or> get args ''dot'' = JStr [] \<longrightarrow>
            generate_chart E args =
              Inl (McpError InvalidParams ''DOT language code is required for graphviz charts''))
       \<and> (get args ''dot'' = JStr dot \<and> lone_surrogate dot \<longrightarrow>
            generate_chart E args =
              Inl (McpError InternalError ''Failed to generate chart: URI malformed''))
       \<and> (get args ''dot'' = JStr dot \<and> dot \<noteq> [] \<and> \<not> lone_surrogate dot
            \<and> (\<not> convertible (get args ''graphvizLayout'')
                \<or> \<not> convertible (get args ''graphvizFormat'')) \<longrightarrow>
            generate_chart E args =
              Inl (McpError InternalError
                ''Failed to generate chart: Cannot convert object to primitive value''))"
proof -
  have g: "generateChartConfig args = Inr (JObj [(''type'', JStr ''graphviz'')])"
    using generateChartConfig_placeholder [OF ty] by simp
  have cv: "convertible (if truthy v then v else JStr d) = convertible v" for v d
    using not_truthy_convertible [of v] by simp
  have ne: "lone_surrogate dot \<Longrightarrow> dot \<noteq> []" by auto
  show ?thesis
    using ne
    by (auto simp: generate_chart_def g generateChartUrl_def Let_def typeof_string
        encodeURIComponent_def String_of_def cv)
qed

text \<open>
  The request \<^verbatim>\<open>{type: "graphviz", dot: "digraph G { A -> B; }"}\<close>, the request with no
  \<^verbatim>\<open>dot\<close>, the request whose \<^verbatim>\<open>dot\<close> is the lone surrogate \<^verbatim>\<open>\ud800\<close>, and the first
  request with \<^verbatim>\<open>graphvizLayout: {toString: 1}\<close>.
\<close>

theorem graphviz_url_witness:
  "generate_chart default_endpoints
     (JObj [(''type'', JStr ''graphviz''), (''dot'', JStr ''digraph G { A -> B; }'')])
   = Inr ''https://quickchart.io/graphviz?graph=digraph%20G%20%7B%20A%20-%3E%20B%3B%20%7D&layout=dot&format=png''
   \<and> generate_chart default_endpoints (JObj [(''type'', JStr ''graphviz'')])
   = Inl (McpError InvalidParams ''DOT language code is required for graphviz charts'')
   \<and> generate_chart default_endpoints
     (JObj [(''type'', JStr ''graphviz''), (''dot'', JStr [CHR 0xED, CHR 0xA0, CHR 0x80])])
   = Inl (McpError InternalError ''Failed to generate chart: URI malformed'')
   \<and> generate_chart default_endpoints
     (JObj [(''type'', JStr ''graphviz''), (''dot'', JStr ''digraph G { A -> B; }''),
            (''graphvizLayout'', JObj [(''toString'', JNum 1)])])
   = Inl (McpError InternalError
       ''Failed to generate chart: Cannot convert object to primitive value'')"
proof -
  let ?d = "''digraph G { A -> B; }''"
  let ?a = "JObj [(''type'', JStr ''graphviz''), (''dot'', JStr ?d)]"
  let ?b = "JObj [(''type'', JStr ''graphviz'')]"
  let ?c = "JObj [(''type'', JStr ''graphviz''), (''dot'', JStr [CHR 0xED, CHR 0xA0, CHR 0x80])]"
  let ?l = "JObj [(''type'', JStr ''graphviz''), (''dot'', JStr ?d),
                  (''graphvizLayout'', JObj [(''toString'', JNum 1)])]"
  have n: "\<not> lone_surrogate ?d" by code_simp
  have y: "lone_surrogate [CHR 0xED, CHR 0xA0, CHR 0x80]" by code_simp
  have p: "pct_encode ?d = ''digraph%20G%20%7B%20A%20-%3E%20B%3B%20%7D''" by code_simp
  have a: "generate_chart default_endpoints ?a
     = Inr ''https://quickchart.io/graphviz?graph=digraph%20G%20%7B%20A%20-%3E%20B%3B%20%7D&layout=dot&format=png''"
    using graphviz_url [of ?a ?d default_endpoints] n
    by (simp add: p default_endpoints_def)
  have b: "generate_chart default_endpoints ?b
     = Inl (McpError InvalidParams ''DOT language code is required for graphviz charts'')"
    using graphviz_url [of ?b "[]" default_endpoints] by simp
  have c: "generate_chart default_endpoints ?c
     = Inl (McpError InternalError ''Failed to generate chart: URI malformed'')"
    using graphviz_url [of ?c "[CHR 0xED, CHR 0xA0, CHR 0x80]" default_endpoints] y
    by simp
  have l: "generate_chart default_endpoints ?l
     = Inl (McpError InternalError
         ''Failed to generate chart: Cannot convert object to primitive value'')"
    using graphviz_url [of ?l ?d default_endpoints] n
    by simp
  from a b c l show ?thesis by simp
qed

text \<open>The claim as it was stated fails at \<^verbatim>\<open>dot: ""\<close>: a string, and refused.\<close>

theorem empty_dot_counterexample:
  "typeof (get (JObj [(''type'', JStr ''graphviz''), (''dot'', JStr [])]) ''dot'') = ''string''
   \<and> generate_chart default_endpoints (JObj [(''type'', JStr ''graphviz''), (''dot'', JStr [])])
       = Inl (McpError InvalidParams ''DOT language code is required for graphviz charts'')"
  by code_simp

section \<open>Normalization of a downloaded configuration\<close>

text \<open>
  Claim C8, as amended. Each of \<^verbatim>\<open>type\<close>, \<^verbatim>\<open>datasets\<close> and \<^verbatim>\<open>labels\<close> of the normalized
  configuration is the value nested under \<^verbatim>\<open>data\<close> when the top-level value is falsy
  (absent, or present as \<^verbatim>\<open>null\<close>, zero, the empty string or \<^verbatim>\<open>false\<close>) and the nested one
  is truthy, and the top-level value otherwise: a truthy top-level field wins. When each
  of the three fields is either absent or truthy at top level, the download of the
  configuration and the download of a flat one (no \<^verbatim>\<open>data\<close> field; each of the three
  fields equal to the top-level value, or to the nested one where the top level has none;
  the same title and options) have the same outcome and perform the same effects, so
  they fetch the same URL. The keys of an object are distinct.
\<close>

theorem nested_config_lifting:
  assumes d: "distinct (map fst kvs)"
  shows "(\<forall>k\<in>{''type'', ''datasets'', ''labels''}.
            get (normalizeConfig (JObj kvs)) k =
              (if \<not> truthy (get (JObj kvs) k) \<and> truthy (get (get (JObj kvs) ''data'') k)
               then get (get (JObj kvs) ''data'') k else get (JObj kvs) k))
       \<and> (distinct (map fst flat) \<and> get (JObj flat) ''data'' = JUndefined
            \<and> (\<forall>k\<in>{''type'', ''datasets'', ''labels''}.
                  (get (JObj kvs) k = JUndefined \<or> truthy (get (JObj kvs) k))
                  \<and> get (JObj flat) k =
                      (if get (JObj kvs) k = JUndefined then get (get (JObj kvs) ''data'') k
                       else get (JObj kvs) k))
            \<and> get (JObj flat) ''title'' = get (JObj kvs) ''title''
            \<and> get (JObj flat) ''options'' = get (JObj kvs) ''options'' \<longrightarrow>
          download_chart E W \<lparr>config = JObj kvs, outputPath = p\<rparr>
            = download_chart E W \<lparr>config = JObj flat, outputPath = p\<rparr>)"
proof (intro conjI impI)
  show "\<forall>k\<in>{''type'', ''datasets'', ''labels''}.
            get (normalizeConfig (JObj kvs)) k =
              (if \<not> truthy (get (JObj kvs) k) \<and> truthy (get (get (JObj kvs) ''data'') k)
               then get (get (JObj kvs) ''data'') k else get (JObj kvs) k)"
    by (auto simp add: get_normalizeConfig [OF d] simp del: get.simps(1))
next
  assume a: "distinct (map fst flat) \<and> get (JObj flat) ''data'' = JUndefined
            \<and> (\<forall>k\<in>{''type'', ''datasets'', ''labels''}.
                  (get (JObj kvs) k = JUndefined \<or> truthy (get (JObj kvs) k))
                  \<and> get (JObj flat) k =
                      (if get (JObj kvs) k = JUndefined then get (get (JObj kvs) ''data'') k
                       else get (JObj kvs) k))
            \<and> get (JObj flat) ''title'' = get (JObj kvs) ''title''
            \<and> get (JObj flat) ''options'' = get (JObj kvs) ''options''"
  then have df: "distinct (map fst flat)" and nd: "get (JObj flat) ''data'' = JUndefined"
    by simp_all
  let ?a = "normalizeConfig (JObj kvs)" and ?b = "normalizeConfig (JObj flat)"
  have nf: "get ?b k = get (JObj flat) k" for k
    by (auto simp add: get_normalizeConfig [OF df] nd get_JUndefined simp del: get.simps(1))
  have three: "get ?a k = get ?b k \<or> \<not> truthy (get ?a k) \<and> \<not> truthy (get ?b k)"
    if "k \<in> {''type'', ''datasets'', ''labels''}" for k
  proof -
    from a that have p: "get (JObj kvs) k = JUndefined \<or> truthy (get (JObj kvs) k)"
      and f: "get (JObj flat) k =
                (if get (JObj kvs) k = JUndefined then get (get (JObj kvs) ''data'') k
                 else get (JObj kvs) k)" by blast+
    have "get ?a k = (if \<not> truthy (get (JObj kvs) k) \<and> truthy (get (get (JObj kvs) ''data'') k)
               then get (get (JObj kvs) ''data'') k else get (JObj kvs) k)"
      using that by (auto simp add: get_normalizeConfig [OF d] simp del: get.simps(1))
    with p f show ?thesis
      by (auto simp add: nf simp del: get.simps(1))
  qed
  have t1: "get ?a ''title'' = get ?b ''title''"
    using a by (simp add: nf get_normalizeConfig [OF d] del: get.simps(1))
  have t2: "get ?a ''options'' = get ?b ''options''"
    using a by (simp add: nf get_normalizeConfig [OF d] del: get.simps(1))
  have k1: "get ?a ''type'' = get ?b ''type''
            \<or> \<not> truthy (get ?a ''type'') \<and> \<not> truthy (get ?b ''type'')"
    by (rule three) simp
  have k2: "get ?a ''datasets'' = get ?b ''datasets''
            \<or> \<not> truthy (get ?a ''datasets'') \<and> \<not> truthy (get ?b ''datasets'')"
    by (rule three) simp
  have k3: "get ?a ''labels'' = get ?b ''labels''
            \<or> \<not> truthy (get ?a ''labels'') \<and> \<not> truthy (get ?b ''labels'')"
    by (rule three) simp
  have tr: "truthy ?a" "truthy ?b" by (simp_all add: normalizeConfig_def)
  have "download_normalized E W ?a p = download_normalized E W ?b p"
    by (rule download_normalized_cong [OF tr k1 k2 k3 t1 t2])
  then show "download_chart E W \<lparr>config = JObj kvs, outputPath = p\<rparr>
            = download_chart E W \<lparr>config = JObj flat, outputPath = p\<rparr>"
    by (simp add: download_chart_def)
qed

text \<open>The usual Chart.js shape, with labels and datasets under \<^verbatim>\<open>data\<close>, and its flat
  form: both are fetched from the same URL and saved.\<close>

theorem nested_config_lifting_witness:
  "get (normalizeConfig (JObj nested_config)) ''datasets''
     = JArr [JObj [(''data'', JArr [JNum 1])]]
   \<and> get (normalizeConfig (JObj nested_config)) ''labels'' = JArr [JStr ''x'']
   \<and> get (normalizeConfig (JObj nested_config)) ''type'' = JStr ''bar''
   \<and> download_chart default_endpoints example_world
        \<lparr>config = JObj nested_config, outputPath = Some ''/tmp/chart.png''\<rparr>
      = download_chart default_endpoints example_world
        \<lparr>config = JObj flat_config, outputPath = Some ''/tmp/chart.png''\<rparr>
   \<and> snd (download_chart default_endpoints example_world
        \<lparr>config = JObj flat_config, outputPath = Some ''/tmp/chart.png''\<rparr>)
      = Inr ''Chart saved to /tmp/chart.png''"
proof -
  have d: "distinct (map fst nested_config)" by (simp add: nested_config_def)
  note n = nested_config_lifting [OF d, of flat_config default_endpoints example_world
      "Some ''/tmp/chart.png''"]
  have fields: "get (normalizeConfig (JObj nested_config)) ''datasets''
       = JArr [JObj [(''data'', JArr [JNum 1])]]
     \<and> get (normalizeConfig (JObj nested_config)) ''labels'' = JArr [JStr ''x'']
     \<and> get (normalizeConfig (JObj nested_config)) ''type'' = JStr ''bar''"
    using n by (simp add: nested_config_def)
  have same: "download_chart default_endpoints example_world
        \<lparr>config = JObj nested_config, outputPath = Some ''/tmp/chart.png''\<rparr>
      = download_chart default_endpoints example_world
        \<lparr>config = JObj flat_config, outputPath = Some ''/tmp/chart.png''\<rparr>"
    using n by (simp add: nested_config_def flat_config_def)
  have saved: "snd (download_chart default_endpoints example_world
        \<lparr>config = JObj flat_config, outputPath = Some ''/tmp/chart.png''\<rparr>)
      = Inr ''Chart saved to /tmp/chart.png''"
    by code_simp
  from fields same saved show ?thesis by simp
qed

text \<open>
  The claim as it was stated fails at a configuration whose top-level \<^verbatim>\<open>type\<close> is present
  and empty while \<^verbatim>\<open>data.type\<close> is \<^verbatim>\<open>bar\<close>: the nested value is lifted over the top-level
  one, and the chart is fetched and saved.
\<close>

theorem falsy_top_level_counterexample:
  "map_of [(''type'', JStr []), (''datasets'', JArr [JObj [(''data'', JArr [JNum 1])]]),
           (''data'', JObj [(''type'', JStr ''bar'')])] ''type'' = Some (JStr [])
   \<and> get (normalizeConfig
        (JObj [(''type'', JStr []), (''datasets'', JArr [JObj [(''data'', JArr [JNum 1])]]),
               (''data'', JObj [(''type'', JStr ''bar'')])])) ''type'' = JStr ''bar''
   \<and> snd (download_chart default_endpoints example_world
        \<lparr>config = JObj [(''type'', JStr []),
                         (''datasets'', JArr [JObj [(''data'', JArr [JNum 1])]]),
                         (''data'', JObj [(''type'', JStr ''bar'')])],
         outputPath = Some ''/tmp/chart.png''\<rparr>)
      = Inr ''Chart saved to /tmp/chart.png''"
  by code_simp

section \<open>The output directory\<close>



section \<open>Graphs and word clouds cannot be downloaded\<close>

text \<open>
  Claim C10. When the normalized \<^verbatim>\<open>type\<close> of the configuration is \<^verbatim>\<open>graphviz\<close> or
  \<^verbatim>\<open>wordcloud\<close>, \<^verbatim>\<open>download_chart\<close> fails with InvalidParams and performs no fetch and no
  write, for every output path and on every machine: the handler calls the encoder
  without the raw arguments, whose \<^verbatim>\<open>dot\<close> or \<^verbatim>\<open>text\<close> the encoder requires.
\<close>

theorem download_graph_or_cloud_fails:
  assumes ty: "get (normalizeConfig (config a)) ''type'' = JStr t"
      and t: "t = ''graphviz'' \<or> t = ''wordcloud''"
  shows "(\<exists>m. snd (download_chart E W a) = Inl (McpError InvalidParams m))
       \<and> \<not> list_ex fetch_or_write (fst (download_chart E W a))"
proof -
  let ?n = "normalizeConfig (config a)"
  have g: "generateChartConfig ?n = Inr (JObj [(''type'', JStr t)])"
    using generateChartConfig_placeholder [OF ty t] .
  obtain m where u: "generateChartUrl E (JObj [(''type'', JStr t)]) JUndefined
       = Inl (McpError InvalidParams m)"
    using generateChartUrl_placeholder [OF t] by blast
  show ?thesis
    using resolve_output_path_quiet [of W ?n "outputPath a"]
    by (simp add: download_chart_def download_normalized_def Let_def g u)
qed

text \<open>A graph with its DOT text, sent to a writable directory: the download is refused
  after the directory test, and \<^verbatim>\<open>generate_chart\<close> gives the same request a URL.\<close>

theorem download_graph_or_cloud_fails_witness:
  "download_chart default_endpoints example_world
      \<lparr>config = graph_config, outputPath = Some ''/tmp/graph.png''\<rparr>
     = ([Access ''/tmp''],
        Inl (McpError InvalidParams ''DOT language code is required for graphviz charts''))
   \<and> \<not> list_ex fetch_or_write (fst (download_chart default_endpoints example_world
      \<lparr>config = graph_config, outputPath = Some ''/tmp/graph.png''\<rparr>))
   \<and> generate_chart default_endpoints graph_config
     = Inr ''https://quickchart.io/graphviz?graph=digraph%20G%20%7B%20A%20-%3E%20B%3B%20%7D&layout=dot&format=png''"
proof -
  have ty: "get (normalizeConfig (config
       \<lparr>config = graph_config, outputPath = Some ''/tmp/graph.png''\<rparr>)) ''type''
       = JStr ''graphviz''"
    by (simp add: graph_config_def normalizeConfig_def lift_field_def assign_def)
  have q: "\<not> list_ex fetch_or_write (fst (download_chart default_endpoints example_world
      \<lparr>config = graph_config, outputPath = Some ''/tmp/graph.png''\<rparr>))"
    using download_graph_or_cloud_fails [OF ty, of default_endpoints example_world] by simp
  have v: "download_chart default_endpoints example_world
      \<lparr>config = graph_config, outputPath = Some ''/tmp/graph.png''\<rparr>
     = ([Access ''/tmp''],
        Inl (McpError InvalidParams ''DOT language code is required for graphviz charts''))"
    by code_simp
  have u: "generate_chart default_endpoints graph_config
     = Inr ''https://quickchart.io/graphviz?graph=digraph%20G%20%7B%20A%20-%3E%20B%3B%20%7D&layout=dot&format=png''"
    by code_simp
  from q v u show ?thesis by simp
qed

end
